(* ===== verification/Prelude.thy ===== *)
theory Prelude
  imports Main "HOL-Library.Word" "HOL-Library.Finite_Map"
begin

text \<open>
  Shared vocabulary of the development: the machine integers and the identifier types the node
  uses, results of fallible code, loops that stop at the first error, and the generic lemmas on
  lists, words and finite maps that the component theories rely on.

  \<^item> Fallible Rust code returns a sum: \<open>Inl\<close> carries the error (or the panic), \<open>Inr\<close> the value.
    \<open>res_bind\<close> is the \<open>?\<close> operator and \<open>fold_res\<close> a \<open>for\<close> loop whose body uses \<open>?\<close>.
  \<^item> A Rust \<open>HashMap\<close> is a finite map \<open>fmap\<close>.
  \<^item> Field elements (hashes, addresses, keys, nonces) and block numbers are natural numbers; a
    block number is a \<open>u64\<close> in the code, so its successor is guarded by \<open>u64_max\<close>.
\<close>

section \<open>Types\<close>

type_synonym u8 = "8 word"
type_synonym u32 = "32 word"
type_synonym felt = nat
type_synonym block_hash = nat
type_synonym block_number = nat
type_synonym contract_address = nat
type_synonym ('e, 'a) result = "'e + 'a"

section \<open>Collections of rewrite rules\<close>

named_theorems res_simps \<open>results of fallible code\<close>
named_theorems inv_intros \<open>every operation keeps the invariant\<close>

section \<open>Results\<close>

definition res_bind :: "('e, 'a) result \<Rightarrow> ('a \<Rightarrow> ('e, 'b) result) \<Rightarrow> ('e, 'b) result" where
  "res_bind m f = (case m of Inl e \<Rightarrow> Inl e | Inr x \<Rightarrow> f x)"

lemma res_bind_Inl [simp]: "res_bind (Inl e) f = Inl e"
  by (simp add: res_bind_def)

lemma res_bind_Inr [simp]: "res_bind (Inr x) f = f x"
  by (simp add: res_bind_def)

lemma res_bind_eq_Inr [res_simps]:
  "res_bind m f = Inr y \<longleftrightarrow> (\<exists>x. m = Inr x \<and> f x = Inr y)"
  by (cases m) auto

lemma res_bind_eq_Inl [res_simps]:
  "res_bind m f = Inl e \<longleftrightarrow> m = Inl e \<or> (\<exists>x. m = Inr x \<and> f x = Inl e)"
  by (cases m) auto

lemma res_bind_cong [fundef_cong]:
  "m = m' \<Longrightarrow> (\<And>x. m' = Inr x \<Longrightarrow> f x = g x) \<Longrightarrow> res_bind m f = res_bind m' g"
  by (cases m') auto

text \<open>A loop over a list that stops at the first error.\<close>

primrec fold_res :: "('a \<Rightarrow> 's \<Rightarrow> ('e, 's) result) \<Rightarrow> 'a list \<Rightarrow> 's \<Rightarrow> ('e, 's) result" where
  "fold_res f [] s = Inr s"
| "fold_res f (x # xs) s = res_bind (f x s) (fold_res f xs)"

lemma fold_res_append:
  "fold_res f (xs @ ys) s = res_bind (fold_res f xs s) (fold_res f ys)"
proof (induction xs arbitrary: s)
  case Nil
  then show ?case by simp
next
  case (Cons x xs)
  then show ?case by (cases "f x s") simp_all
qed

lemma fold_res_invariant:
  assumes "fold_res f xs s = Inr t" and "P s"
    and "\<And>x s t. x \<in> set xs \<Longrightarrow> P s \<Longrightarrow> f x s = Inr t \<Longrightarrow> P t"
  shows "P t"
  using assms
proof (induction xs arbitrary: s)
  case Nil
  then show ?case by simp
next
  case (Cons x xs)
  from Cons.prems(1) obtain u where u: "f x s = Inr u" "fold_res f xs u = Inr t"
    by (auto simp: res_simps)
  have "P u" using Cons.prems(2,3) u(1) by (meson list.set_intros(1))
  then show ?case
    using Cons.IH [OF u(2)] Cons.prems(3) by (meson list.set_intros(2))
qed

lemma fold_res_total:
  assumes "\<And>x s. x \<in> set xs \<Longrightarrow> \<exists>t. f x s = Inr t"
  shows "\<exists>t. fold_res f xs s = Inr t"
  using assms
proof (induction xs arbitrary: s)
  case Nil
  then show ?case by simp
next
  case (Cons x xs)
  then obtain u where "f x s = Inr u" by (meson list.set_intros(1))
  with Cons show ?case by simp
qed

text \<open>A loop that collects the results of its body.\<close>

primrec map_res :: "('a \<Rightarrow> ('e, 'b) result) \<Rightarrow> 'a list \<Rightarrow> ('e, 'b list) result" where
  "map_res f [] = Inr []"
| "map_res f (x # xs) = res_bind (f x) (\<lambda>y. res_bind (map_res f xs) (\<lambda>ys. Inr (y # ys)))"

lemma map_res_Inr:
  assumes "\<And>x. x \<in> set xs \<Longrightarrow> f x = Inr (g x)"
  shows "map_res f xs = Inr (map g xs)"
  using assms by (induction xs) simp_all

lemma map_res_append:
  "map_res f (xs @ ys) =
     res_bind (map_res f xs) (\<lambda>us. res_bind (map_res f ys) (\<lambda>vs. Inr (us @ vs)))"
proof (induction xs)
  case Nil
  show ?case by (cases "map_res f ys") simp_all
next
  case (Cons x xs)
  then show ?case
    by (cases "f x"; cases "map_res f xs"; cases "map_res f ys") simp_all
qed

section \<open>Block numbers\<close>

text \<open>The largest \<open>u64\<close>, and the checked successor of a block number.\<close>

definition u64_max :: nat where
  "u64_max = 2 ^ 64 - 1"

definition bn_next :: "block_number \<Rightarrow> block_number option" where
  "bn_next b = (if b < u64_max then Some (Suc b) else None)"

lemma bn_next_eq_Some [simp]: "bn_next b = Some n \<longleftrightarrow> b < u64_max \<and> n = Suc b"
  by (auto simp: bn_next_def)

lemma bn_next_eq_None [simp]: "bn_next b = None \<longleftrightarrow> u64_max \<le> b"
  by (auto simp: bn_next_def)

section \<open>Words\<close>

lemma unat_add_one:
  assumes "unat (x :: u32) < 2 ^ 32 - 1"
  shows "unat (x + 1) = unat x + 1"
proof -
  have "unat (x + 1) = (unat x + 1) mod 2 ^ 32"
    by (simp add: unat_word_ariths)
  then show ?thesis using assms by simp
qed

end
