(* ===== verification/Consensus_State_Machine.thy ===== *)
theory Consensus_State_Machine
  imports Prelude
begin

text \<open>
  The single-height Tendermint state machine of
  \<open>crates/sequencing/papyrus_consensus/src/state_machine.rs\<close>: its state as a record, its events
  and steps as datatypes, and one definition per method. Every \<open>assert!\<close> and
  \<open>unimplemented!\<close> of the code is a value of \<open>sm_panic\<close>.

  The vote tables are \<open>HashMap\<close>s; \<open>leading_vote\<close> iterates over one of them, and the order of that
  iteration is not fixed by the language. It is the parameter \<open>ord\<close> of the definitions, and
  \<open>iteration_order ord\<close> says that it enumerates the keys of the map.
\<close>

section \<open>Data\<close>

type_synonym consensus_round = u32
type_synonym vote_table = "(consensus_round, (block_hash, u32) fmap) fmap"
type_synonym vote_order = "(block_hash, u32) fmap \<Rightarrow> block_hash list"

datatype sm_event =
    StartRound "block_hash option" consensus_round
  | Proposal block_hash consensus_round
  | Prevote block_hash consensus_round
  | Precommit block_hash consensus_round
  | Decision block_hash consensus_round

datatype sm_step = StepPropose | StepPrevote | StepPrecommit

record state_machine =
  sm_round :: consensus_round
  sm_step :: sm_step
  sm_quorum :: u32
  sm_proposals :: "(consensus_round, block_hash) fmap"
  sm_prevotes :: vote_table
  sm_precommits :: vote_table
  sm_starting_round :: bool
  sm_events_queue :: "sm_event list"

datatype sm_panic =
    NotStartingRound          \<comment> \<open>\<open>assert!(self.starting_round)\<close>\<close>
  | StartRoundMismatch        \<comment> \<open>\<open>assert_eq!(round, self.round)\<close>\<close>
  | ReplayedProposal          \<comment> \<open>\<open>assert!(old.is_none(), ...)\<close>\<close>
  | UnsupportedRound          \<comment> \<open>\<open>assert_eq!(round, 0, ...)\<close>\<close>
  | ProposalQuorumMismatch    \<comment> \<open>\<open>assert_eq!(*proposed_value, block_hash, ...)\<close>\<close>
  | DecisionAsInput           \<comment> \<open>\<open>unimplemented!\<close> for an inbound decision\<close>
  | AdvanceToPropose          \<comment> \<open>\<open>unimplemented!\<close> in \<open>advance_to_step\<close>\<close>

type_synonym sm_result = "(sm_panic, state_machine \<times> sm_event list) result"

definition iteration_order :: "vote_order \<Rightarrow> bool" where
  "iteration_order ord \<longleftrightarrow> (\<forall>m. set (ord m) = fset (fmdom m) \<and> distinct (ord m))"

section \<open>Operations\<close>

definition sm_new :: "u32 \<Rightarrow> state_machine" where
  "sm_new total_weight =
     \<lparr>sm_round = 0, sm_step = StepPropose, sm_quorum = 2 * total_weight div 3 + 1,
      sm_proposals = fmempty, sm_prevotes = fmempty, sm_precommits = fmempty,
      sm_starting_round = False, sm_events_queue = []\<rparr>"

definition quorum_size :: "state_machine \<Rightarrow> u32" where
  "quorum_size sm = sm_quorum sm"

definition sm_start :: "state_machine \<Rightarrow> state_machine \<times> sm_event list" where
  "sm_start sm = (sm\<lparr>sm_starting_round := True\<rparr>, [StartRound None (sm_round sm)])"

text \<open>\<open>Iterator::max_by\<close> on the counts: the last of the maximal elements in iteration order.\<close>

fun max_by_count :: "(block_hash \<times> u32) list \<Rightarrow> (block_hash \<times> u32) option" where
  "max_by_count [] = None"
| "max_by_count (x # xs) =
     (case max_by_count xs of None \<Rightarrow> Some x | Some y \<Rightarrow> if snd y < snd x then Some x else Some y)"

definition leading_vote ::
  "vote_order \<Rightarrow> vote_table \<Rightarrow> consensus_round \<Rightarrow> (block_hash \<times> u32) option" where
  "leading_vote ord votes rnd =
     (case fmlookup votes rnd of
        None \<Rightarrow> None
      | Some m \<Rightarrow> max_by_count (map (\<lambda>h. (h, the (fmlookup m h))) (ord m)))"

definition check_precommit_quorum ::
  "vote_order \<Rightarrow> state_machine \<Rightarrow> consensus_round \<Rightarrow> sm_result" where
  "check_precommit_quorum ord sm rnd =
     (case leading_vote ord (sm_precommits sm) rnd of
        None \<Rightarrow> Inr (sm, [])
      | Some (block_hash, count) \<Rightarrow>
          if count < sm_quorum sm then Inr (sm, []) else Inr (sm, [Decision block_hash rnd]))"

text \<open>
  The three methods below call each other: advancing to \<open>Prevote\<close> may find a prevote quorum, which
  sends a precommit, which advances to \<open>Precommit\<close>.
\<close>

function advance_to_step :: "vote_order \<Rightarrow> state_machine \<Rightarrow> sm_step \<Rightarrow> sm_result"
  and check_prevote_quorum :: "vote_order \<Rightarrow> state_machine \<Rightarrow> consensus_round \<Rightarrow> sm_result"
  and send_precommit :: "vote_order \<Rightarrow> state_machine \<Rightarrow> block_hash \<Rightarrow> consensus_round \<Rightarrow> sm_result"
where
  "advance_to_step ord sm step =
     (let sm = sm\<lparr>sm_step := step\<rparr> in
      case step of
        StepPropose \<Rightarrow> Inl AdvanceToPropose
      | StepPrevote \<Rightarrow> check_prevote_quorum ord sm (sm_round sm)
      | StepPrecommit \<Rightarrow> check_precommit_quorum ord sm (sm_round sm))"
| "check_prevote_quorum ord sm rnd =
     (case leading_vote ord (sm_prevotes sm) rnd of
        None \<Rightarrow> Inr (sm, [])
      | Some (block_hash, count) \<Rightarrow>
          if count < sm_quorum sm then Inr (sm, []) else send_precommit ord sm block_hash rnd)"
| "send_precommit ord sm block_hash rnd =
     res_bind (advance_to_step ord sm StepPrecommit)
       (\<lambda>(sm, out). Inr (sm, Precommit block_hash rnd # out))"
  by pat_completeness auto
termination
  by (relation "measure (\<lambda>x. case x of
        Inl (ord, sm, step) \<Rightarrow> if step = StepPrevote then 3 else 0
      | Inr (Inl (ord, sm, rnd)) \<Rightarrow> 2
      | Inr (Inr (ord, sm, block_hash, rnd)) \<Rightarrow> 1)") auto

definition handle_start_round ::
  "state_machine \<Rightarrow> block_hash option \<Rightarrow> consensus_round \<Rightarrow> sm_result" where
  "handle_start_round sm block_hash rnd =
     (if \<not> sm_starting_round sm then Inl NotStartingRound
      else if rnd \<noteq> sm_round sm then Inl StartRoundMismatch
      else let sm = sm\<lparr>sm_starting_round := False\<rparr> in
        case block_hash of
          None \<Rightarrow> Inr (sm, [])
        | Some hash \<Rightarrow> Inr (sm, [Proposal hash rnd]))"

definition handle_proposal ::
  "vote_order \<Rightarrow> state_machine \<Rightarrow> block_hash \<Rightarrow> consensus_round \<Rightarrow> sm_result" where
  "handle_proposal ord sm block_hash rnd =
     (let old = fmlookup (sm_proposals sm) rnd;
          sm = sm\<lparr>sm_proposals := fmupd rnd block_hash (sm_proposals sm)\<rparr>
      in if old \<noteq> None then Inl ReplayedProposal
         else if sm_step sm \<noteq> StepPropose then Inr (sm, [])
         else res_bind (advance_to_step ord sm StepPrevote)
                (\<lambda>(sm, out). Inr (sm, Prevote block_hash rnd # out)))"

text \<open>\<open>votes.entry(round).or_default().entry(block_hash).or_insert(0)\<close>, incremented.\<close>

definition vote_count :: "vote_table \<Rightarrow> consensus_round \<Rightarrow> block_hash \<Rightarrow> u32" where
  "vote_count votes rnd block_hash =
     (case fmlookup votes rnd of
        None \<Rightarrow> 0
      | Some m \<Rightarrow> (case fmlookup m block_hash of None \<Rightarrow> 0 | Some c \<Rightarrow> c))"

definition add_vote :: "vote_table \<Rightarrow> consensus_round \<Rightarrow> block_hash \<Rightarrow> vote_table" where
  "add_vote votes rnd block_hash =
     fmupd rnd
       (fmupd block_hash (vote_count votes rnd block_hash + 1)
          (case fmlookup votes rnd of None \<Rightarrow> fmempty | Some m \<Rightarrow> m))
       votes"

definition handle_prevote ::
  "vote_order \<Rightarrow> state_machine \<Rightarrow> block_hash \<Rightarrow> consensus_round \<Rightarrow> sm_result" where
  "handle_prevote ord sm block_hash rnd =
     (if rnd \<noteq> 0 then Inl UnsupportedRound
      else let sm = sm\<lparr>sm_prevotes := add_vote (sm_prevotes sm) rnd block_hash\<rparr> in
        if vote_count (sm_prevotes sm) rnd block_hash < sm_quorum sm then Inr (sm, [])
        else if sm_step sm \<noteq> StepPrevote then Inr (sm, [])
        else send_precommit ord sm block_hash rnd)"

definition handle_precommit ::
  "state_machine \<Rightarrow> block_hash \<Rightarrow> consensus_round \<Rightarrow> sm_result" where
  "handle_precommit sm block_hash rnd =
     (if rnd \<noteq> 0 then Inl UnsupportedRound
      else let sm = sm\<lparr>sm_precommits := add_vote (sm_precommits sm) rnd block_hash\<rparr> in
        if vote_count (sm_precommits sm) rnd block_hash < sm_quorum sm then Inr (sm, [])
        else case fmlookup (sm_proposals sm) rnd of
            None \<Rightarrow> Inr (sm, [])
          | Some proposed_value \<Rightarrow>
              if proposed_value \<noteq> block_hash then Inl ProposalQuorumMismatch
              else Inr (sm, [Decision block_hash rnd]))"

fun handle_event_internal :: "vote_order \<Rightarrow> state_machine \<Rightarrow> sm_event \<Rightarrow> sm_result" where
  "handle_event_internal ord sm (StartRound block_hash rnd) = handle_start_round sm block_hash rnd"
| "handle_event_internal ord sm (Proposal block_hash rnd) = handle_proposal ord sm block_hash rnd"
| "handle_event_internal ord sm (Prevote block_hash rnd) = handle_prevote ord sm block_hash rnd"
| "handle_event_internal ord sm (Precommit block_hash rnd) = handle_precommit sm block_hash rnd"
| "handle_event_internal ord sm (Decision block_hash rnd) = Inl DecisionAsInput"

text \<open>
  The inner \<open>for\<close> loop of \<open>handle_enqueued_events\<close>: which of the output events are sent to the
  state machine itself, which are returned, and whether the loop returned at a decision.
\<close>

fun dispatch_events :: "sm_event list \<Rightarrow> sm_event list \<times> sm_event list \<times> bool" where
  "dispatch_events [] = ([], [], False)"
| "dispatch_events (e # es) =
     (case e of
        Decision _ _ \<Rightarrow> ([], [e], True)
      | StartRound _ _ \<Rightarrow>
          (case dispatch_events es of (again, out, decided) \<Rightarrow> (again, e # out, decided))
      | _ \<Rightarrow> (case dispatch_events es of (again, out, decided) \<Rightarrow> (e # again, e # out, decided)))"

subsection \<open>What the mutually recursive methods do\<close>

text \<open>
  None of them panics from a step the code reaches, and each only moves \<open>sm_step\<close> forward. These
  facts give the termination of the event loop and feed every later proof.
\<close>

declare advance_to_step.simps [simp del] check_prevote_quorum.simps [simp del]
  send_precommit.simps [simp del]

lemma advance_to_precommit:
  "advance_to_step ord sm StepPrecommit =
     check_precommit_quorum ord (sm\<lparr>sm_step := StepPrecommit\<rparr>) (sm_round sm)"
  by (simp add: advance_to_step.simps)

lemma check_precommit_quorum_cases:
  obtains (none) "check_precommit_quorum ord sm r = Inr (sm, [])"
  | (decide) h c where "check_precommit_quorum ord sm r = Inr (sm, [Decision h r])"
      "leading_vote ord (sm_precommits sm) r = Some (h, c)" "sm_quorum sm \<le> c"
proof (cases "\<exists>h c. leading_vote ord (sm_precommits sm) r = Some (h, c) \<and> sm_quorum sm \<le> c")
  case True
  then show ?thesis by (auto simp: check_precommit_quorum_def linorder_not_less intro: decide)
next
  case False
  then show ?thesis
    by (intro none) (auto simp: check_precommit_quorum_def linorder_not_less split: option.split)
qed

lemma send_precommit_cases:
  obtains (precommit)
      "send_precommit ord sm h r = Inr (sm\<lparr>sm_step := StepPrecommit\<rparr>, [Precommit h r])"
  | (decide) h' c where
      "send_precommit ord sm h r =
         Inr (sm\<lparr>sm_step := StepPrecommit\<rparr>, [Precommit h r, Decision h' (sm_round sm)])"
      "leading_vote ord (sm_precommits sm) (sm_round sm) = Some (h', c)" "sm_quorum sm \<le> c"
  by (rule check_precommit_quorum_cases [of ord "sm\<lparr>sm_step := StepPrecommit\<rparr>" "sm_round sm"])
    (auto simp: send_precommit.simps advance_to_precommit)

lemma advance_to_prevote_cases:
  obtains (prevote)
      "advance_to_step ord sm StepPrevote = Inr (sm\<lparr>sm_step := StepPrevote\<rparr>, [])"
  | (precommit) h c where
      "advance_to_step ord sm StepPrevote =
         send_precommit ord (sm\<lparr>sm_step := StepPrevote\<rparr>) h (sm_round sm)"
      "leading_vote ord (sm_prevotes sm) (sm_round sm) = Some (h, c)" "sm_quorum sm \<le> c"
proof (cases "\<exists>h c. leading_vote ord (sm_prevotes sm) (sm_round sm) = Some (h, c) \<and>
    sm_quorum sm \<le> c")
  case True
  then obtain h c where lead: "leading_vote ord (sm_prevotes sm) (sm_round sm) = Some (h, c)"
    and "sm_quorum sm \<le> c" by blast
  then show ?thesis
    by (intro precommit [of h c])
      (auto simp: advance_to_step.simps check_prevote_quorum.simps Let_def dest: leD)
next
  case False
  then show ?thesis
    by (intro prevote)
      (auto simp: advance_to_step.simps check_prevote_quorum.simps Let_def linorder_not_less
        split: option.split)
qed

subsection \<open>The event loop\<close>

fun step_rank :: "sm_step \<Rightarrow> nat" where
  "step_rank StepPropose = 2"
| "step_rank StepPrevote = 1"
| "step_rank StepPrecommit = 0"

definition loop_rank :: "state_machine \<Rightarrow> nat" where
  "loop_rank sm = (if sm_starting_round sm then 3 else 0) + step_rank (sm_step sm)"

lemma loop_rank_send_precommit:
  assumes "send_precommit ord sm h r = Inr (sm', out)" and "sm_step sm = StepPrevote"
  shows "loop_rank sm' < loop_rank sm"
  using assms by (cases ord sm h r rule: send_precommit_cases) (auto simp: loop_rank_def)

lemma loop_rank_internal:
  assumes "handle_event_internal ord sm e = Inr (sm', out)" and "out \<noteq> []"
    and "\<nexists>h r. out = [Decision h r]"
  shows "loop_rank sm' < loop_rank sm"
proof (cases e)
  case (StartRound b r)
  with assms show ?thesis
    by (auto simp: handle_start_round_def loop_rank_def Let_def split: if_splits option.splits)
next
  case (Proposal h r)
  let ?sm = "sm\<lparr>sm_proposals := fmupd r h (sm_proposals sm)\<rparr>"
  from Proposal assms obtain out' where step: "sm_step sm = StepPropose"
    and adv: "advance_to_step ord ?sm StepPrevote = Inr (sm', out')"
    by (auto simp: handle_proposal_def Let_def res_simps split: if_splits)
  show ?thesis
  proof (cases ord ?sm rule: advance_to_prevote_cases)
    case prevote
    with adv step show ?thesis by (auto simp: loop_rank_def)
  next
    case (precommit h' c)
    have "send_precommit ord (?sm\<lparr>sm_step := StepPrevote\<rparr>) h' (sm_round ?sm) = Inr (sm', out')"
      using precommit(1) adv by simp
    from loop_rank_send_precommit [OF this] step show ?thesis by (simp add: loop_rank_def)
  qed
next
  case (Prevote h r)
  with assms(1,2) obtain "sm_step sm = StepPrevote"
    and send: "send_precommit ord (sm\<lparr>sm_prevotes := add_vote (sm_prevotes sm) r h\<rparr>) h r =
      Inr (sm', out)"
    by (auto simp: handle_prevote_def Let_def split: if_splits)
  with loop_rank_send_precommit [OF send] show ?thesis by (simp add: loop_rank_def)
next
  case (Precommit h r)
  with assms show ?thesis
    by (auto simp: handle_precommit_def Let_def split: if_splits option.splits)
qed (use assms in simp)

lemma loop_rank_internal_le:
  assumes "handle_event_internal ord sm e = Inr (sm', [])"
  shows "loop_rank sm' \<le> loop_rank sm"
  using assms
  by (cases e)
    (auto simp: handle_start_round_def handle_proposal_def handle_prevote_def handle_precommit_def
      loop_rank_def Let_def res_simps send_precommit.simps split: if_splits option.splits)

lemma dispatch_not_decided:
  assumes "dispatch_events es = (again, out, decided)" and "\<not> decided"
  shows "out = es \<and> (\<forall>h r. Decision h r \<notin> set es) \<and> length again \<le> length es"
  using assms
  by (induction es arbitrary: again out) (auto split: sm_event.splits prod.splits)

function handle_enqueued_events ::
  "vote_order \<Rightarrow> state_machine \<Rightarrow> sm_event list \<Rightarrow> sm_result" where
  "handle_enqueued_events ord sm [] = Inr (sm, [])"
| "handle_enqueued_events ord sm (event # events_queue) =
     (case handle_event_internal ord sm event of
        Inl p \<Rightarrow> Inl p
      | Inr (sm, es) \<Rightarrow>
          (case dispatch_events es of (again, out, decided) \<Rightarrow>
             if decided then Inr (sm, out)
             else res_bind (handle_enqueued_events ord sm (events_queue @ again))
                    (\<lambda>(sm, output_events). Inr (sm, out @ output_events))))"
  by pat_completeness auto
termination
proof (relation "measures [\<lambda>(ord, sm, q). loop_rank sm, \<lambda>(ord, sm, q). length q]", goal_cases)
  case 1
  show ?case by simp
next
  case (2 ord sm event events_queue res sm' es again rest out decided)
  then have int: "handle_event_internal ord sm event = Inr (sm', es)"
    and disp: "dispatch_events es = (again, out, decided)" "\<not> decided" by auto
  show ?case
  proof (cases "es = []")
    case True
    with int loop_rank_internal_le [of ord sm event sm'] disp show ?thesis by auto
  next
    case False
    with loop_rank_internal [OF int] dispatch_not_decided [OF disp] show ?thesis by fastforce
  qed
qed

declare handle_enqueued_events.simps [simp del]

definition handle_event :: "vote_order \<Rightarrow> state_machine \<Rightarrow> sm_event \<Rightarrow> sm_result" where
  "handle_event ord sm event =
     (let run = (\<lambda>events_queue. handle_enqueued_events ord (sm\<lparr>sm_events_queue := []\<rparr>) events_queue) in
      if sm_starting_round sm then
        (case event of
           StartRound b rnd \<Rightarrow>
             if rnd = sm_round sm then run (event # sm_events_queue sm)
             else Inr (sm\<lparr>sm_events_queue := sm_events_queue sm @ [event]\<rparr>, [])
         | _ \<Rightarrow> Inr (sm\<lparr>sm_events_queue := sm_events_queue sm @ [event]\<rparr>, []))
      else run (sm_events_queue sm @ [event]))"

section \<open>Runs\<close>

text \<open>
  The caller feeds one event after another and collects what the machine returns; \<open>sm_started\<close> is
  the machine right after \<open>start\<close>.
\<close>

fun sm_run :: "vote_order \<Rightarrow> state_machine \<Rightarrow> sm_event list \<Rightarrow> sm_result" where
  "sm_run ord sm [] = Inr (sm, [])"
| "sm_run ord sm (e # es) =
     res_bind (handle_event ord sm e) (\<lambda>(sm, out).
       res_bind (sm_run ord sm es) (\<lambda>(sm, out'). Inr (sm, out @ out')))"

definition sm_started :: "u32 \<Rightarrow> state_machine" where
  "sm_started n = fst (sm_start (sm_new n))"

fun is_prevote :: "sm_event \<Rightarrow> bool" where
  "is_prevote (Prevote _ _) = True"
| "is_prevote _ = False"

fun is_precommit :: "sm_event \<Rightarrow> bool" where
  "is_precommit (Precommit _ _) = True"
| "is_precommit _ = False"

end
