(* ===== verification/Consensus_State_Machine_Props.thy ===== *)
theory Consensus_State_Machine_Props
  imports Consensus_State_Machine
begin

text \<open>
  Properties of the single-height state machine: what it sends is bounded, what it decides is backed
  by a quorum, and with a quorum of votes it decides whatever the order in which the messages
  arrive. The machine is driven by \<open>sm_run\<close>, an arbitrary sequence of calls of \<open>handle_event\<close>.
\<close>

section \<open>Counting the votes the machine sends\<close>

abbreviation n_prevotes :: "sm_event list \<Rightarrow> nat" where
  "n_prevotes es \<equiv> length (filter is_prevote es)"

abbreviation n_precommits :: "sm_event list \<Rightarrow> nat" where
  "n_precommits es \<equiv> length (filter is_precommit es)"

definition prevoted :: "state_machine \<Rightarrow> nat" where
  "prevoted sm = (if sm_step sm = StepPropose then 0 else 1)"

definition precommitted :: "state_machine \<Rightarrow> nat" where
  "precommitted sm = (if sm_step sm = StepPrecommit then 1 else 0)"

lemmas sm_handler_defs =
  handle_start_round_def handle_proposal_def handle_prevote_def handle_precommit_def

lemma internal_votes:
  assumes "handle_event_internal ord sm e = Inr (sm', out)"
  shows "n_prevotes out + prevoted sm = prevoted sm'"
    and "n_precommits out + precommitted sm = precommitted sm'"
proof -
  have send: "n_prevotes out + prevoted sm = prevoted sm'
      \<and> n_precommits out + precommitted sm = precommitted sm'"
    if "send_precommit ord sm h r = Inr (sm', out)" "sm_step sm = StepPrevote" for sm sm' out h r
    using that by (cases ord sm h r rule: send_precommit_cases)
      (auto simp: prevoted_def precommitted_def)
  have adv: "n_prevotes out + 1 = prevoted sm'
      \<and> n_precommits out + precommitted sm = precommitted sm'"
    if *: "advance_to_step ord sm StepPrevote = Inr (sm', out)" "sm_step sm = StepPropose"
    for sm sm' out
  proof (cases ord sm rule: advance_to_prevote_cases)
    case prevote
    then show ?thesis using * by (auto simp: prevoted_def precommitted_def)
  next
    case (precommit h c)
    with send [of "sm\<lparr>sm_step := StepPrevote\<rparr>" h "sm_round sm" sm' out] * show ?thesis
      by (simp add: prevoted_def precommitted_def)
  qed
  have "n_prevotes out + prevoted sm = prevoted sm'
      \<and> n_precommits out + precommitted sm = precommitted sm'"
  proof (cases e)
    case (Proposal h r)
    then show ?thesis using assms
        adv [of "sm\<lparr>sm_proposals := fmupd r h (sm_proposals sm)\<rparr>" sm']
      by (auto simp: handle_proposal_def Let_def res_simps prevoted_def precommitted_def
          split: if_splits)
  next
    case (Prevote h r)
    then show ?thesis using assms
        send [of "sm\<lparr>sm_prevotes := add_vote (sm_prevotes sm) r h\<rparr>" h r sm' out]
      by (auto simp: handle_prevote_def Let_def prevoted_def precommitted_def split: if_splits)
  qed (use assms in \<open>auto simp: sm_handler_defs Let_def prevoted_def precommitted_def
      split: if_splits option.splits\<close>)
  then show "n_prevotes out + prevoted sm = prevoted sm'"
    and "n_precommits out + precommitted sm = precommitted sm'" by auto
qed

lemma dispatch_filter_le:
  "dispatch_events es = (again, out, decided) \<Longrightarrow> length (filter P out) \<le> length (filter P es)"
  by (induction es arbitrary: again out) (auto split: sm_event.splits prod.splits)

text \<open>Induction over the event loop, one case for each way an iteration ends.\<close>

lemma enqueued_induct [consumes 1, case_names nil decided continue]:
  assumes "handle_enqueued_events ord sm q = Inr (sm', out)"
    and "\<And>sm. P sm [] sm []"
    and "\<And>sm e q s1 es again out. handle_event_internal ord sm e = Inr (s1, es) \<Longrightarrow>
      dispatch_events es = (again, out, True) \<Longrightarrow> P sm (e # q) s1 out"
    and "\<And>sm e q s1 es again sm' out. handle_event_internal ord sm e = Inr (s1, es) \<Longrightarrow>
      dispatch_events es = (again, es, False) \<Longrightarrow>
      handle_enqueued_events ord s1 (q @ again) = Inr (sm', out) \<Longrightarrow>
      P s1 (q @ again) sm' out \<Longrightarrow> P sm (e # q) sm' (es @ out)"
  shows "P sm q sm' out"
  using assms(1)
proof (induction ord\<equiv>ord sm q arbitrary: sm' out rule: handle_enqueued_events.induct)
  case (1 sm)
  then show ?case using assms(2) by (simp add: handle_enqueued_events.simps)
next
  case (2 sm e q)
  from "2.prems" obtain s1 es where int: "handle_event_internal ord sm e = Inr (s1, es)"
    by (auto simp: handle_enqueued_events.simps split: sum.splits)
  obtain again o1 decided where disp: "dispatch_events es = (again, o1, decided)"
    by (cases "dispatch_events es") auto
  show ?case
  proof (cases decided)
    case True
    with "2.prems" int disp have "sm' = s1" "out = o1"
      by (simp_all add: handle_enqueued_events.simps)
    then show ?thesis using assms(3) [OF int] disp True by simp
  next
    case False
    with dispatch_not_decided [OF disp] have o1: "o1 = es" by simp
    from "2.prems" int disp False obtain o2 where
      rest: "handle_enqueued_events ord s1 (q @ again) = Inr (sm', o2)" and "out = o1 @ o2"
      by (auto simp: handle_enqueued_events.simps res_simps)
    moreover have "P s1 (q @ again) sm' o2"
      by (rule "2.hyps" [OF int refl disp [symmetric] refl False rest])
    ultimately show ?thesis using assms(4) [OF int] disp False o1 by simp
  qed
qed

lemma enqueued_votes:
  assumes "handle_enqueued_events ord sm q = Inr (sm', out)"
  shows "n_prevotes out + prevoted sm \<le> prevoted sm' \<and>
    n_precommits out + precommitted sm \<le> precommitted sm'"
  using assms
proof (induction rule: enqueued_induct)
  case (decided sm e q s1 es again out)
  then show ?case
    using internal_votes [OF decided(1)] dispatch_filter_le [OF decided(2), of is_prevote]
      dispatch_filter_le [OF decided(2), of is_precommit] by simp
next
  case (continue sm e q s1 es again sm' out)
  then show ?case using internal_votes [OF continue(1)] by simp
qed simp

lemma handle_event_cases:
  assumes "handle_event ord sm e = Inr (sm', out)"
  obtains (buffered) "sm' = sm\<lparr>sm_events_queue := sm_events_queue sm @ [e]\<rparr>" "out = []"
      "sm_starting_round sm"
  | (ran) q where "handle_enqueued_events ord (sm\<lparr>sm_events_queue := []\<rparr>) q = Inr (sm', out)"
      "q = e # sm_events_queue sm \<or> q = sm_events_queue sm @ [e]"
  using assms by (auto simp: handle_event_def Let_def split: if_splits sm_event.splits)

lemma handle_event_votes:
  assumes "handle_event ord sm e = Inr (sm', out)"
  shows "n_prevotes out + prevoted sm \<le> prevoted sm' \<and>
    n_precommits out + precommitted sm \<le> precommitted sm'"
  using assms
proof (cases rule: handle_event_cases)
  case buffered
  then show ?thesis by (simp add: prevoted_def precommitted_def)
next
  case (ran q)
  from enqueued_votes [OF ran(1)] show ?thesis by (simp add: prevoted_def precommitted_def)
qed

lemma sm_run_votes:
  assumes "sm_run ord sm es = Inr (sm', out)"
  shows "n_prevotes out + prevoted sm \<le> prevoted sm' \<and>
    n_precommits out + precommitted sm \<le> precommitted sm'"
  using assms
proof (induction es arbitrary: sm out)
  case Nil
  then show ?case by simp
next
  case (Cons e es)
  then obtain s1 o1 o2 where "handle_event ord sm e = Inr (s1, o1)"
    "sm_run ord s1 es = Inr (sm', o2)" "out = o1 @ o2"
    by (auto simp: res_simps)
  with Cons.IH [of s1 o2] handle_event_votes [of ord sm e s1 o1] show ?case by auto
qed

lemma sm_run_votes_le_one:
  assumes "sm_run ord sm es = Inr (sm', outs)"
  shows "n_prevotes outs \<le> 1 \<and> n_precommits outs \<le> 1"
  using sm_run_votes [OF assms] by (auto simp: prevoted_def precommitted_def split: if_splits)

section \<open>A decision needs a quorum of precommits\<close>

lemma max_by_count_mem: "max_by_count xs = Some x \<Longrightarrow> x \<in> set xs"
  by (induction xs) (auto split: option.splits if_splits)

lemma max_by_count_None [simp]: "max_by_count xs = None \<longleftrightarrow> xs = []"
  by (cases xs) (auto split: option.splits)

lemma max_by_count_max: "max_by_count xs = Some x \<Longrightarrow> y \<in> set xs \<Longrightarrow> snd y \<le> snd x"
proof (induction xs arbitrary: x)
  case Nil
  then show ?case by simp
next
  case (Cons z zs)
  then show ?case
    by (cases "max_by_count zs") (auto split: if_splits dest: order.trans less_imp_le)
qed

lemma leading_vote_count:
  assumes "iteration_order ord" and "leading_vote ord votes r = Some (h, c)"
  shows "vote_count votes r h = c"
  using assms
  by (auto simp: leading_vote_def vote_count_def iteration_order_def fmlookup_dom_iff
      split: option.splits dest!: max_by_count_mem)

lemma vote_count_add_vote:
  "vote_count (add_vote votes r h) r' h' =
     (if r' = r \<and> h' = h then vote_count votes r h + 1 else vote_count votes r' h')"
  by (auto simp: vote_count_def add_vote_def split: option.splits)

text \<open>
  The precommits for \<open>h\<close> that the machine has counted never exceed those it was handed (\<open>q\<close>) and
  those it sent itself (\<open>out\<close>).
\<close>

abbreviation counted :: "state_machine \<Rightarrow> consensus_round \<Rightarrow> block_hash \<Rightarrow> nat" where
  "counted sm r h \<equiv> unat (vote_count (sm_precommits sm) r h)"

lemma unat_inc_le: "unat (x + 1 :: u32) \<le> unat x + 1"
  by (simp add: unat_word_ariths)

text \<open>
  A step from \<open>Prevote\<close> or \<open>Propose\<close> changes only \<open>sm_step\<close>, and a decision it returns is backed by
  the precommits already counted.
\<close>

definition backed :: "state_machine \<Rightarrow> sm_event list \<Rightarrow> bool" where
  "backed sm out \<longleftrightarrow>
     (\<forall>h r. Decision h r \<in> set out \<longrightarrow> sm_quorum sm \<le> vote_count (sm_precommits sm) r h)"

lemma send_precommit_frame:
  assumes "iteration_order ord" and "send_precommit ord sm h r = Inr (sm', out)"
  shows "sm' = sm\<lparr>sm_step := StepPrecommit\<rparr> \<and> backed sm out"
proof (cases ord sm h r rule: send_precommit_cases)
  case precommit
  then show ?thesis using assms(2) by (simp add: backed_def)
next
  case (decide h' c)
  then show ?thesis using assms(2) leading_vote_count [OF assms(1) decide(2)]
    by (simp add: backed_def)
qed

lemma advance_to_prevote_frame:
  assumes "iteration_order ord" and "advance_to_step ord sm StepPrevote = Inr (sm', out)"
  shows "(\<exists>st. sm' = sm\<lparr>sm_step := st\<rparr>) \<and> backed sm out"
proof (cases ord sm rule: advance_to_prevote_cases)
  case prevote
  then show ?thesis using assms by (auto simp: backed_def)
next
  case (precommit h c)
  with send_precommit_frame [OF assms(1), of "sm\<lparr>sm_step := StepPrevote\<rparr>" h "sm_round sm" sm' out]
    assms(2) show ?thesis by (auto simp: backed_def)
qed

lemma handle_prevote_cases:
  assumes "handle_prevote ord sm h r = Inr (sm', out)"
  obtains (count) "sm' = sm\<lparr>sm_prevotes := add_vote (sm_prevotes sm) r h\<rparr>" "out = []"
  | (send) "send_precommit ord (sm\<lparr>sm_prevotes := add_vote (sm_prevotes sm) r h\<rparr>) h r =
        Inr (sm', out)" "sm_step sm = StepPrevote"
proof (cases "vote_count (add_vote (sm_prevotes sm) r h) r h < sm_quorum sm \<or>
    sm_step sm \<noteq> StepPrevote")
  case True
  show ?thesis by (rule count) (use True assms in \<open>auto simp: handle_prevote_def Let_def split: if_splits\<close>)
next
  case False
  show ?thesis by (rule send) (use False assms in \<open>auto simp: handle_prevote_def Let_def split: if_splits\<close>)
qed

lemma internal_frame:
  assumes ord: "iteration_order ord" and int: "handle_event_internal ord sm e = Inr (sm', out)"
  shows "sm_quorum sm' = sm_quorum sm \<and> sm_round sm' = sm_round sm
    \<and> sm_events_queue sm' = sm_events_queue sm \<and> backed sm' out
    \<and> counted sm' r h \<le> counted sm r h + (if e = Precommit h r then 1 else 0)"
proof (cases e)
  case (StartRound b r')
  with int show ?thesis
    by (auto simp: handle_start_round_def Let_def backed_def split: if_splits option.splits)
next
  case (Proposal h' r')
  let ?sm = "sm\<lparr>sm_proposals := fmupd r' h' (sm_proposals sm)\<rparr>"
  from Proposal int consider "sm' = ?sm" "out = []"
    | out' where "advance_to_step ord ?sm StepPrevote = Inr (sm', out')"
      "out = Prevote h' r' # out'"
    by (auto simp: handle_proposal_def Let_def res_simps split: if_splits)
  then show ?thesis
  proof cases
    case 2
    from advance_to_prevote_frame [OF ord 2(1)] obtain st where
      "sm' = ?sm\<lparr>sm_step := st\<rparr>" "backed ?sm out'" by blast
    with 2 Proposal show ?thesis by (simp add: backed_def)
  next
    case 1
    show ?thesis unfolding 1 using Proposal by (simp add: backed_def)
  qed
next
  case (Prevote h' r')
  let ?sm = "sm\<lparr>sm_prevotes := add_vote (sm_prevotes sm) r' h'\<rparr>"
  from Prevote int have "handle_prevote ord sm h' r' = Inr (sm', out)" by simp
  then show ?thesis
  proof (cases rule: handle_prevote_cases)
    case send
    with send_precommit_frame [OF ord send(1)] Prevote show ?thesis by (simp add: backed_def)
  next
    case count
    show ?thesis unfolding count using Prevote by (simp add: backed_def)
  qed
next
  case (Precommit h' r')
  let ?sm = "sm\<lparr>sm_precommits := add_vote (sm_precommits sm) r' h'\<rparr>"
  from Precommit int have "sm' = ?sm" and out: "out = [] \<or> out = [Decision h' r'] \<and>
      sm_quorum sm \<le> vote_count (sm_precommits ?sm) r' h'"
    by (auto simp: handle_precommit_def Let_def split: if_splits option.splits)
  moreover have "backed ?sm out" using out by (auto simp: backed_def)
  moreover have "counted ?sm r h \<le> counted sm r h + (if e = Precommit h r then 1 else 0)"
    using Precommit unat_inc_le [of "vote_count (sm_precommits sm) r h"]
    by (auto simp: vote_count_add_vote)
  ultimately show ?thesis by simp
qed (use int in simp)

lemma dispatch_sublist:
  assumes "dispatch_events es = (again, out, decided)"
  shows "set out \<subseteq> set es \<and> count_list again (Precommit h r) = count_list out (Precommit h r)"
  using assms
  by (induction es arbitrary: again out) (auto split: sm_event.splits prod.splits)

lemma enqueued_frame:
  assumes ord: "iteration_order ord" and "handle_enqueued_events ord sm q = Inr (sm', out)"
  shows "sm_quorum sm' = sm_quorum sm \<and> sm_round sm' = sm_round sm
    \<and> sm_events_queue sm' = sm_events_queue sm
    \<and> counted sm' r h \<le> counted sm r h + count_list q (Precommit h r)
        + count_list out (Precommit h r)
    \<and> (Decision h r \<in> set out \<longrightarrow>
         unat (sm_quorum sm) \<le> counted sm r h + count_list q (Precommit h r)
           + count_list out (Precommit h r))"
  using assms(2)
proof (induction rule: enqueued_induct)
  case (decided sm e q s1 es again out)
  note frame = internal_frame [OF ord decided(1), of r h]
  have "unat (sm_quorum sm) \<le> counted s1 r h" if "Decision h r \<in> set out"
    using that frame dispatch_sublist [OF decided(2), of h r]
    by (auto simp: backed_def word_le_nat_alt)
  with frame show ?case
    by (intro conjI impI; cases "e = Precommit h r"; simp; linarith)
next
  case (continue sm e q s1 es again sm' out)
  note frame = internal_frame [OF ord continue(1), of r h]
  have "count_list (q @ again) (Precommit h r) =
      count_list q (Precommit h r) + count_list es (Precommit h r)"
    using dispatch_sublist [OF continue(2), of h r] by simp
  moreover have "Decision h r \<notin> set es" using dispatch_not_decided [OF continue(2)] by simp
  ultimately show ?case using frame continue.IH
    by (intro conjI impI; cases "e = Precommit h r"; simp; linarith)
qed simp

definition pending :: "state_machine \<Rightarrow> consensus_round \<Rightarrow> block_hash \<Rightarrow> nat" where
  "pending sm r h = counted sm r h + count_list (sm_events_queue sm) (Precommit h r)"

lemma handle_event_frame:
  assumes ord: "iteration_order ord" and "handle_event ord sm e = Inr (sm', out)"
  shows "sm_quorum sm' = sm_quorum sm \<and>
    pending sm' r h \<le> pending sm r h + count_list [e] (Precommit h r) + count_list out (Precommit h r) \<and>
    (Decision h r \<in> set out \<longrightarrow>
       unat (sm_quorum sm) \<le> pending sm r h + count_list [e] (Precommit h r)
         + count_list out (Precommit h r))"
  using assms(2)
proof (cases rule: handle_event_cases)
  case buffered
  then show ?thesis by (simp add: pending_def)
next
  case (ran q)
  have "count_list q (Precommit h r) =
      count_list (sm_events_queue sm) (Precommit h r) + count_list [e] (Precommit h r)"
    using ran(2) by auto
  with enqueued_frame [OF ord ran(1), of r h] show ?thesis
    by (cases "e = Precommit h r") (auto simp: pending_def)
qed

lemma sm_run_decision:
  assumes ord: "iteration_order ord" and "sm_run ord sm es = Inr (sm', outs)"
    and "Decision h r \<in> set outs"
  shows "unat (sm_quorum sm) \<le> pending sm r h
    + count_list es (Precommit h r) + count_list outs (Precommit h r)"
  using assms(2,3)
proof (induction es arbitrary: sm outs)
  case Nil
  then show ?case by simp
next
  case (Cons e es)
  then obtain s1 o1 o2 where ev: "handle_event ord sm e = Inr (s1, o1)"
    and rest: "sm_run ord s1 es = Inr (sm', o2)" "outs = o1 @ o2"
    by (auto simp: res_simps)
  note frame = handle_event_frame [OF ord ev, of r h]
  show ?case
  proof (cases "Decision h r \<in> set o1")
    case True
    with frame rest show ?thesis by (cases "e = Precommit h r") auto
  next
    case False
    with Cons.IH [OF rest(1)] Cons.prems rest(2) frame show ?thesis
      by (cases "e = Precommit h r") auto
  qed
qed

section \<open>Order of delivery does not matter\<close>

definition single :: "block_hash \<Rightarrow> nat \<Rightarrow> vote_table" where
  "single h k = (if k = 0 then fmempty else fmupd 0 (fmupd h (of_nat k) fmempty) fmempty)"

lemma of_nat_u32_less: "j < 2 ^ 32 \<Longrightarrow> k < 2 ^ 32 \<Longrightarrow> (of_nat j :: u32) < of_nat k \<longleftrightarrow> j < k"
  by (simp add: word_less_nat_alt unat_of_nat)

lemma add_vote_single: "add_vote (single h k) 0 h = single h (Suc k)"
  by (auto simp: add_vote_def single_def vote_count_def add.commute intro!: fmap_ext)

lemma vote_count_single: "vote_count (single h k) 0 h = of_nat k"
  by (simp add: vote_count_def single_def)

lemma iteration_order_singleton:
  assumes "iteration_order ord"
  shows "ord (fmupd h c fmempty) = [h]"
proof -
  have "set (ord (fmupd h c fmempty)) = {h}" "distinct (ord (fmupd h c fmempty))"
    using assms by (auto simp: iteration_order_def)
  then show ?thesis
    by (cases "ord (fmupd h c fmempty)" rule: remdups_adj.cases) auto
qed

lemma leading_vote_single:
  assumes "iteration_order ord"
  shows "leading_vote ord (single h k) 0 = (if k = 0 then None else Some (h, of_nat k))"
  by (simp add: leading_vote_def single_def iteration_order_singleton [OF assms])

definition progress :: "nat \<Rightarrow> block_hash \<Rightarrow> bool \<Rightarrow> nat \<Rightarrow> nat \<Rightarrow> state_machine" where
  "progress q h p a b =
     \<lparr>sm_round = 0,
      sm_step = (if \<not> p then StepPropose else if q \<le> a + 1 then StepPrecommit else StepPrevote),
      sm_quorum = of_nat q,
      sm_proposals = (if p then fmupd 0 h fmempty else fmempty),
      sm_prevotes = single h (a + (if p then 1 else 0)),
      sm_precommits = single h (b + (if p \<and> q \<le> a + 1 then 1 else 0)),
      sm_starting_round = False, sm_events_queue = []\<rparr>"

lemmas run_simps = handle_event_def handle_enqueued_events.simps sm_handler_defs
  send_precommit.simps advance_to_step.simps check_prevote_quorum.simps
  check_precommit_quorum_def add_vote_single vote_count_single of_nat_u32_less Let_def

lemma progress_prevote:
  assumes ord: "iteration_order ord" and "1 \<le> q" "q < 2 ^ 32" "a + b + 2 < 2 ^ 32"
    and "p \<and> q \<le> a + 1 \<longrightarrow> b + 1 < q"
  shows "\<exists>sm' out. handle_event ord (progress q h p a b) (Prevote h 0) = Inr (sm', out) \<and>
    (Decision h 0 \<in> set out \<or>
     sm' = progress q h p (a + 1) b \<and> (p \<and> q \<le> a + 2 \<longrightarrow> b + 1 < q))"
  using assms(2-5)
  by (simp add: progress_def run_simps leading_vote_single [OF ord] del: of_nat_Suc)

lemma progress_precommit:
  assumes ord: "iteration_order ord" and "1 \<le> q" "q < 2 ^ 32" "a + b + 2 < 2 ^ 32"
    and "p \<and> q \<le> a + 1 \<longrightarrow> b + 1 < q"
  shows "\<exists>sm' out. handle_event ord (progress q h p a b) (Precommit h 0) = Inr (sm', out) \<and>
    (Decision h 0 \<in> set out \<or>
     sm' = progress q h p a (b + 1) \<and> (p \<and> q \<le> a + 1 \<longrightarrow> b + 2 < q))"
  using assms(2-5)
  by (simp add: progress_def run_simps leading_vote_single [OF ord] del: of_nat_Suc)

lemma progress_proposal:
  assumes ord: "iteration_order ord" and "1 \<le> q" "q < 2 ^ 32" "a + b + 2 < 2 ^ 32"
  shows "\<exists>sm' out. handle_event ord (progress q h False a b) (Proposal h 0) = Inr (sm', out) \<and>
    (Decision h 0 \<in> set out \<or>
     sm' = progress q h True a b \<and> (q \<le> a + 1 \<longrightarrow> b + 1 < q))"
  using assms(2-4)
  by (simp add: progress_def run_simps leading_vote_single [OF ord] del: of_nat_Suc)

lemma unat_quorum: "unat (sm_quorum (sm_new n)) = (2 * unat n) mod 2 ^ 32 div 3 + 1"
proof -
  have d: "unat (2 * n div 3) = (2 * unat n) mod 2 ^ 32 div 3"
    by (simp add: unat_div unat_word_ariths)
  have "(2 * unat n) mod 2 ^ 32 div 3 < 2 ^ 32 - 1"
    using div_le_mono [of "(2 * unat n) mod 2 ^ 32" "2 ^ 32" 3] by simp
  then show ?thesis using unat_add_one [of "2 * n div 3"] d by (simp add: sm_new_def)
qed

lemma start_validator:
  "handle_event ord (sm_started n) (StartRound None 0) =
     Inr (progress (unat (sm_quorum (sm_new n))) h False 0 0, [])"
  by (simp add: sm_started_def sm_start_def sm_new_def progress_def single_def run_simps)

lemma progress_decides:
  assumes ord: "iteration_order ord" and q: "1 \<le> q" "q < 2 ^ 32"
    and "set es \<subseteq> {Proposal h 0, Prevote h 0, Precommit h 0}"
    and "count_list es (Proposal h 0) = (if p then 0 else 1)"
    and "q \<le> a + count_list es (Prevote h 0) + 1" and "q \<le> b + count_list es (Precommit h 0) + 1"
    and "a + b + length es + 2 < 2 ^ 32" and "p \<and> q \<le> a + 1 \<longrightarrow> b + 1 < q"
  shows "\<exists>es1 es2 sm outs. es = es1 @ es2 \<and> sm_run ord (progress q h p a b) es1 = Inr (sm, outs) \<and>
    Decision h 0 \<in> set outs"
  using assms(4-)
proof (induction es arbitrary: p a b)
  case Nil
  then show ?case by (auto split: if_splits)
next
  case (Cons e es)
  define p' a' b' where "p' = (p \<or> e = Proposal h 0)"
    and "a' = a + (if e = Prevote h 0 then 1 else 0)"
    and "b' = b + (if e = Precommit h 0 then 1 else 0)"
  have e: "e = Proposal h 0 \<and> \<not> p \<or> e = Prevote h 0 \<or> e = Precommit h 0"
    using Cons.prems(1,2) by (auto split: if_splits)
  have bound: "a + b + 2 < 2 ^ 32" using Cons.prems(5) by simp
  have "\<exists>sm' out. handle_event ord (progress q h p a b) e = Inr (sm', out) \<and>
      (Decision h 0 \<in> set out \<or>
        sm' = progress q h p' a' b' \<and> (p' \<and> q \<le> a' + 1 \<longrightarrow> b' + 1 < q))"
    using e
  proof (elim disjE conjE)
    assume "e = Proposal h 0" "\<not> p"
    then show ?thesis using progress_proposal [OF ord q bound, of h]
      by (simp add: p'_def a'_def b'_def)
  next
    assume "e = Prevote h 0"
    then show ?thesis using progress_prevote [OF ord q bound Cons.prems(6), of h]
      by (simp add: p'_def a'_def b'_def)
  next
    assume "e = Precommit h 0"
    then show ?thesis using progress_precommit [OF ord q bound Cons.prems(6), of h]
      by (simp add: p'_def a'_def b'_def)
  qed
  then obtain sm' out where step: "handle_event ord (progress q h p a b) e = Inr (sm', out)"
    and out: "Decision h 0 \<in> set out \<or>
      sm' = progress q h p' a' b' \<and> (p' \<and> q \<le> a' + 1 \<longrightarrow> b' + 1 < q)"
    by blast
  show ?case
  proof (cases "Decision h 0 \<in> set out")
    case True
    then have "e # es = [e] @ es \<and> sm_run ord (progress q h p a b) [e] = Inr (sm', out @ []) \<and>
        Decision h 0 \<in> set (out @ [])" using step by simp
    then show ?thesis by blast
  next
    case False
    with out have sm': "sm' = progress q h p' a' b'"
      and und: "p' \<and> q \<le> a' + 1 \<longrightarrow> b' + 1 < q" by auto
    have "\<exists>es1 es2 sm outs. es = es1 @ es2 \<and>
        sm_run ord (progress q h p' a' b') es1 = Inr (sm, outs) \<and> Decision h 0 \<in> set outs"
    proof (rule Cons.IH [OF _ _ _ _ _ und])
      show "set es \<subseteq> {Proposal h 0, Prevote h 0, Precommit h 0}" using Cons.prems(1) by simp
      show "count_list es (Proposal h 0) = (if p' then 0 else 1)"
        using Cons.prems(2) e by (auto simp: p'_def split: if_splits)
    qed (use Cons.prems(3,4,5) e in \<open>auto simp: a'_def b'_def\<close>)
    then obtain es1 es2 sm outs where "es = es1 @ es2"
      "sm_run ord sm' es1 = Inr (sm, outs)" "Decision h 0 \<in> set outs" unfolding sm' by blast
    then have "e # es = (e # es1) @ es2 \<and>
        sm_run ord (progress q h p a b) (e # es1) = Inr (sm, out @ outs) \<and>
        Decision h 0 \<in> set (out @ outs)" using step by simp
    then show ?thesis by blast
  qed
qed

section \<open>A precommit quorum that the machine does not use\<close>

lemma progress_precommits_only:
  assumes "iteration_order ord" and "1 \<le> q" "q < 2 ^ 32" "b + k + 2 < 2 ^ 32"
  shows "sm_run ord (progress q h False 0 b) (replicate k (Precommit h 0)) =
    Inr (progress q h False 0 (b + k), [])"
  using assms(4)
proof (induction k arbitrary: b)
  case (Suc k)
  have "handle_event ord (progress q h False 0 b) (Precommit h 0) =
      Inr (progress q h False 0 (b + 1), [])"
    using assms(2,3) Suc.prems by (simp add: progress_def run_simps del: of_nat_Suc)
  with Suc.IH [of "b + 1"] Suc.prems show ?case by simp
qed simp

lemma progress_proposal_alone:
  assumes "iteration_order ord" and "2 \<le> q" "q < 2 ^ 32" "b + 2 < 2 ^ 32"
  shows "handle_event ord (progress q h False 0 b) (Proposal h 0) =
    Inr (progress q h True 0 b, [Prevote h 0])"
  using assms(2-4)
  by (simp add: progress_def run_simps leading_vote_single [OF assms(1)] del: of_nat_Suc)

lemma sm_run_append:
  "sm_run ord sm (es @ fs) =
     res_bind (sm_run ord sm es) (\<lambda>(sm, out).
       res_bind (sm_run ord sm fs) (\<lambda>(sm, out'). Inr (sm, out @ out')))"
proof (induction es arbitrary: sm)
  case Nil
  show ?case by (cases "sm_run ord sm fs") auto
next
  case (Cons e es)
  show ?case
  proof (cases "handle_event ord sm e")
    case (Inr r)
    obtain sm1 out1 where r: "r = (sm1, out1)" by (cases r)
    show ?thesis
    proof (cases "sm_run ord sm1 es")
      case (Inr r')
      obtain sm2 out2 where r': "r' = (sm2, out2)" by (cases r')
      show ?thesis using \<open>handle_event ord sm e = Inr r\<close> Inr r r' Cons.IH [of sm1]
        by (cases "sm_run ord sm2 fs") auto
    qed (use Inr r Cons.IH [of sm1] in simp)
  qed simp
qed

section \<open>Evaluation at concrete inputs\<close>

definition key_order :: vote_order where
  "key_order m = sorted_list_of_fset (fmdom m)"

lemma iteration_order_key_order: "iteration_order key_order"
  by (simp add: iteration_order_def key_order_def sorted_list_of_fset.rep_eq)

lemma key_order_singleton [simp]: "key_order (fmupd h c fmempty) = [h]"
  by (rule iteration_order_singleton [OF iteration_order_key_order])

lemmas sm_eval = sm_started_def sm_start_def sm_new_def quorum_size_def
  handle_event_def handle_enqueued_events.simps sm_handler_defs
  send_precommit.simps advance_to_step.simps check_prevote_quorum.simps
  check_precommit_quorum_def leading_vote_def vote_count_def add_vote_def Let_def

lemma one_validator_run:
  "sm_run key_order (sm_started 1) [StartRound (Some 7) 0] =
     Inr (\<lparr>sm_round = 0, sm_step = StepPrecommit, sm_quorum = 1,
        sm_proposals = fmupd 0 7 fmempty,
        sm_prevotes = fmupd 0 (fmupd 7 1 fmempty) fmempty,
        sm_precommits = fmupd 0 (fmupd 7 1 fmempty) fmempty,
        sm_starting_round = False, sm_events_queue = []\<rparr>,
      [Proposal 7 0, Prevote 7 0, Precommit 7 0, Decision 7 0])"
  by (simp add: sm_eval)

section \<open>Properties\<close>

text \<open>
  \<^bold>\<open>C11.\<close> A node votes at most once at each step of a height: whatever events a freshly started
  machine is fed, in whatever order, it returns at most one prevote and at most one precommit.
\<close>

theorem votes_at_most_once:
  assumes "sm_run ord (sm_started n) es = Inr (sm, outs)"
  shows "length (filter is_prevote outs) \<le> 1 \<and> length (filter is_precommit outs) \<le> 1"
  using sm_run_votes_le_one [OF assms] .

theorem votes_at_most_once_witness:
  "\<exists>sm outs. sm_run key_order (sm_started 1) [StartRound (Some 7) 0] = Inr (sm, outs) \<and>
     length (filter is_prevote outs) \<le> 1 \<and> length (filter is_precommit outs) \<le> 1"
  using votes_at_most_once [OF one_validator_run] one_validator_run by blast

text \<open>
  \<^bold>\<open>C6.\<close> No decision without a quorum: if the machine returns a decision for a block hash in a round,
  then among the events it was fed the precommits for that hash and round, with the one it may have
  sent itself, reach the quorum size.
\<close>

theorem decision_needs_quorum:
  assumes "iteration_order ord" and "sm_run ord (sm_started n) es = Inr (sm, outs)"
    and "Decision h r \<in> set outs"
  shows "unat (quorum_size (sm_new n)) \<le> count_list es (Precommit h r) + 1"
proof -
  have "unat (sm_quorum (sm_started n)) \<le> count_list es (Precommit h r)
      + count_list outs (Precommit h r)"
    using sm_run_decision [OF assms] by (simp add: sm_started_def sm_start_def sm_new_def vote_count_def pending_def)
  moreover have "count_list outs (Precommit h r) \<le> n_precommits outs"
    by (induction outs) auto
  moreover have "n_precommits outs \<le> 1" using sm_run_votes_le_one [OF assms(2)] by simp
  ultimately show ?thesis
    by (simp add: quorum_size_def sm_started_def sm_start_def)
qed

theorem decision_needs_quorum_witness:
  "unat (quorum_size (sm_new 1)) \<le> count_list [StartRound (Some 7) 0] (Precommit 7 0) + 1"
  by (rule decision_needs_quorum [OF iteration_order_key_order one_validator_run]) simp

text \<open>
  \<^bold>\<open>C1.\<close> The order of delivery does not matter: a validator that receives the proposal of a height
  once, and prevotes and precommits for it that reach the quorum together with its own, in any order
  and interleaving, returns the decision for that proposal at or before the last of them.
\<close>

theorem decision_any_order:
  assumes "iteration_order ord"
    and "set es \<subseteq> {Proposal h 0, Prevote h 0, Precommit h 0}" and "count_list es (Proposal h 0) = 1"
    and "unat (quorum_size (sm_new n)) \<le> count_list es (Prevote h 0) + 1"
    and "unat (quorum_size (sm_new n)) \<le> count_list es (Precommit h 0) + 1"
    and "length es + 2 < 2 ^ 32"
  shows "\<exists>es1 es2 sm outs. es = es1 @ es2 \<and>
    sm_run ord (sm_started n) (StartRound None 0 # es1) = Inr (sm, outs) \<and> Decision h 0 \<in> set outs"
proof -
  let ?q = "unat (sm_quorum (sm_new n))"
  have "1 \<le> ?q" "?q < 2 ^ 32" using unsigned_less [of "sm_quorum (sm_new n)"] by (simp_all add: unat_quorum)
  then have "\<exists>es1 es2 sm outs. es = es1 @ es2 \<and>
      sm_run ord (progress ?q h False 0 0) es1 = Inr (sm, outs) \<and> Decision h 0 \<in> set outs"
    using assms by (intro progress_decides) (auto simp: quorum_size_def)
  then show ?thesis by (force simp: start_validator [of _ _ h])
qed

theorem decision_any_order_witness:
  "\<exists>es1 es2 sm outs.
    [Precommit 7 0, Precommit 7 0, Prevote 7 0, Proposal 7 0, Prevote 7 0] = es1 @ es2 \<and>
    sm_run key_order (sm_started 3) (StartRound None 0 # es1) = Inr (sm, outs) \<and>
    Decision 7 0 \<in> set outs"
  by (rule decision_any_order) (simp_all add: iteration_order_key_order quorum_size_def sm_new_def)

text \<open>
  The quorum is more than two thirds of the voting weight and never more than all of it, for
  every weight from 1 up to \<open>2\<^sup>3\<^sup>1 - 1\<close>; above that the \<open>u32\<close> product in \<open>new\<close> no longer holds
  twice the weight.
\<close>

theorem quorum_two_thirds:
  assumes "1 \<le> unat n" and "unat n < 2 ^ 31"
  shows "2 * unat n < 3 * unat (quorum_size (sm_new n)) \<and>
    unat (quorum_size (sm_new n)) \<le> unat n"
proof -
  have "unat (quorum_size (sm_new n)) = 2 * unat n div 3 + 1"
    using assms by (simp add: quorum_size_def unat_quorum)
  then show ?thesis using assms(1) by linarith
qed

theorem quorum_two_thirds_witness:
  "2 * unat (4 :: u32) < 3 * unat (quorum_size (sm_new 4)) \<and>
   unat (quorum_size (sm_new 4)) \<le> unat (4 :: u32)"
  by (rule quorum_two_thirds) simp_all

text \<open>
  \<^bold>\<open>C40.\<close> A precommit quorum alone does not decide: when any number of precommits for a block arrive
  before its proposal, and no prevote does, the machine only answers the proposal with its own
  prevote. It checks the precommits it has again only on its way to the \<open>Precommit\<close> step, which needs a prevote quorum.
\<close>

theorem late_proposal_not_decided:
  assumes "iteration_order ord" and "2 \<le> unat (quorum_size (sm_new n))" and "k + 2 < 2 ^ 32"
  shows "\<exists>sm. sm_run ord (sm_started n)
    (StartRound None 0 # replicate k (Precommit h 0) @ [Proposal h 0]) = Inr (sm, [Prevote h 0])"
proof -
  let ?q = "unat (sm_quorum (sm_new n))"
  have q: "2 \<le> ?q" "?q < 2 ^ 32"
    using assms(2) unsigned_less [of "sm_quorum (sm_new n)"] by (simp_all add: quorum_size_def)
  then show ?thesis
    using progress_precommits_only [OF assms(1), of ?q 0 k h] assms(3)
      progress_proposal_alone [OF assms(1) q, of k h]
    by (simp add: start_validator [of _ _ h] sm_run_append)
qed

theorem late_proposal_not_decided_witness:
  "\<exists>sm. sm_run key_order (sm_started 4)
    (StartRound None 0 # replicate 3 (Precommit 7 0) @ [Proposal 7 0]) = Inr (sm, [Prevote 7 0])"
  by (rule late_proposal_not_decided [OF iteration_order_key_order])
    (simp_all add: quorum_size_def sm_new_def)

end
