(* ===== verification/Consensus_Single_Height.thy ===== *)
theory Consensus_Single_Height
  imports Consensus_State_Machine_Props
begin

text \<open>
  One height of consensus: \<open>crates/sequencing/papyrus_consensus/src/single_height_consensus.rs\<close>,
  with the types of \<open>types.rs\<close> and of \<open>crates/papyrus_protobuf/src/consensus.rs\<close>.

  \<open>SingleHeightConsensus\<close> is generic in the block type \<open>'b\<close> and in the chunks \<open>'tx\<close> a block is
  streamed in. The \<open>ConsensusContext\<close> trait object is a record of functions: the channels it
  returns are represented by what they deliver (the list of chunks, and the block or nothing when
  the sender is dropped). What the context is asked to send is appended to \<open>shc_sent\<close>; the other
  fields of \<open>shc\<close> are those of the struct. A returned \<open>Err\<close> and a panic are both failures; the
  caller drops the height's state at either.
\<close>

section \<open>Messages\<close>

type_synonym validator_id = contract_address

datatype vote_type = VtPrevote | VtPrecommit

record vote =
  vote_type :: vote_type
  vote_height :: block_number
  vote_block_hash :: block_hash
  vote_voter :: validator_id

record 'tx proposal =
  prop_height :: block_number
  prop_proposer :: validator_id
  prop_transactions :: "'tx list"
  prop_block_hash :: block_hash

datatype 'tx consensus_message = MsgProposal "'tx proposal" | MsgVote vote

fun msg_height :: "'tx consensus_message \<Rightarrow> block_number" where
  "msg_height (MsgProposal p) = prop_height p"
| "msg_height (MsgVote v) = vote_height v"

record proposal_init =
  init_height :: block_number
  init_proposer :: validator_id

record 'b decision =
  dec_precommits :: "vote list"
  dec_block :: 'b

section \<open>Failures\<close>

text \<open>The message of an \<open>InvalidProposal\<close>, one constructor for each string the code formats.\<close>

datatype proposal_fault =
    FaultHeight block_number block_number
  | FaultProposer validator_id validator_id
  | FaultValidation
  | FaultFin
  | FaultSignature

datatype 'tx consensus_error =
    ErrCanceled
  | ErrInvalidProposal validator_id block_number proposal_fault
  | ErrSend
  | ErrEquivocation block_number "'tx consensus_message" "'tx consensus_message"

datatype shc_panic =
    PanicStateMachine sm_panic
  | PanicProposalMessage      \<comment> \<open>\<open>unimplemented!\<close> in \<open>handle_message\<close>\<close>
  | PanicReproposing          \<comment> \<open>\<open>assert!(block_hash.is_none(), ...)\<close>\<close>
  | PanicPropose              \<comment> \<open>\<open>expect("Failed sending Proposal to Peering")\<close>\<close>
  | PanicBlockBuilding        \<comment> \<open>\<open>expect("Block building failed.")\<close>\<close>
  | PanicProposalFin          \<comment> \<open>\<open>expect("Failed to send ProposalFin to Peering.")\<close>\<close>
  | PanicProposalExists       \<comment> \<open>\<open>assert!(old.is_none(), ...)\<close>\<close>
  | PanicRepeatVote           \<comment> \<open>\<open>panic!("State machine should not send repeat votes...")\<close>\<close>
  | PanicUnknownDecision      \<comment> \<open>\<open>expect("StateMachine arrived at an unknown decision")\<close>\<close>
  | PanicDecisionHash         \<comment> \<open>\<open>assert_eq!(block.id(), block_hash, ...)\<close>\<close>
  | PanicDecisionQuorum       \<comment> \<open>\<open>assert!(supporting_precommits.len() >= ...)\<close>\<close>
  | PanicNetworkClosed        \<comment> \<open>\<open>expect("Network receiver closed unexpectedly")\<close>\<close>
  | PanicParse                \<comment> \<open>\<open>expect("Failed to parse consensus message")\<close>\<close>

datatype 'tx failure = Err "'tx consensus_error" | Panic shc_panic

section \<open>The context\<close>

datatype 'tx net_event =
    Broadcast "'tx consensus_message"
  | Propose proposal_init "'tx list" block_hash

text \<open>
  \<open>ctx_propose\<close> says whether the call succeeded and, if so, whether its task is still there to
  receive the block hash. \<open>ctx_broadcast\<close> may depend on what was sent before.
\<close>

record ('b, 'tx) consensus_context =
  ctx_block_id :: "'b \<Rightarrow> block_hash"
  ctx_build_proposal :: "block_number \<Rightarrow> 'tx list \<times> 'b option"
  ctx_validate_proposal :: "block_number \<Rightarrow> 'tx list \<Rightarrow> 'b option"
  ctx_validators :: "block_number \<Rightarrow> validator_id list"
  ctx_proposer :: "validator_id list \<Rightarrow> block_number \<Rightarrow> validator_id"
  ctx_broadcast :: "'tx net_event list \<Rightarrow> 'tx consensus_message \<Rightarrow> ('tx consensus_error, unit) result"
  ctx_propose :: "proposal_init \<Rightarrow> 'tx list \<Rightarrow> ('tx consensus_error, bool) result"

section \<open>State\<close>

record ('b, 'tx) shc =
  shc_height :: block_number
  shc_validators :: "validator_id list"
  shc_id :: validator_id
  shc_state_machine :: state_machine
  shc_proposals :: "(consensus_round, 'b) fmap"
  shc_prevotes :: "(consensus_round \<times> validator_id, vote) fmap"
  shc_precommits :: "(consensus_round \<times> validator_id, vote) fmap"
  shc_sent :: "'tx net_event list"

type_synonym ('b, 'tx) shc_result =
  "('tx failure, ('b, 'tx) shc \<times> 'b decision option) result"

definition round_zero :: consensus_round where
  "round_zero = 0"

definition shc_new :: "block_number \<Rightarrow> validator_id \<Rightarrow> validator_id list \<Rightarrow> ('b, 'tx) shc" where
  "shc_new height ident validators =
     \<lparr>shc_height = height, shc_validators = validators, shc_id = ident,
      shc_state_machine = sm_new (of_nat (length validators)),
      shc_proposals = fmempty, shc_prevotes = fmempty, shc_precommits = fmempty,
      shc_sent = []\<rparr>"

section \<open>Operations\<close>

text \<open>A call of the state machine; its panics are panics of the caller.\<close>

definition shc_sm_event ::
  "vote_order \<Rightarrow> ('b, 'tx) shc \<Rightarrow> sm_event \<Rightarrow>
   ('tx failure, ('b, 'tx) shc \<times> sm_event list) result" where
  "shc_sm_event ord shc event =
     (case handle_event ord (shc_state_machine shc) event of
        Inl p \<Rightarrow> Inl (Panic (PanicStateMachine p))
      | Inr (sm, events) \<Rightarrow> Inr (shc\<lparr>shc_state_machine := sm\<rparr>, events))"

definition handle_state_machine_start_round ::
  "vote_order \<Rightarrow> ('b, 'tx) consensus_context \<Rightarrow> ('b, 'tx) shc \<Rightarrow> block_hash option \<Rightarrow>
   consensus_round \<Rightarrow> ('tx failure, ('b, 'tx) shc \<times> sm_event list) result" where
  "handle_state_machine_start_round ord ctx shc block_hash rnd =
     (if block_hash \<noteq> None then Inl (Panic PanicReproposing)
      else let proposer_id = ctx_proposer ctx (shc_validators shc) (shc_height shc) in
        if proposer_id \<noteq> shc_id shc then shc_sm_event ord shc (StartRound None rnd)
        else let (content, block_receiver) = ctx_build_proposal ctx (shc_height shc);
                 init = \<lparr>init_height = shc_height shc, init_proposer = shc_id shc\<rparr>
          in case ctx_propose ctx init content of
               Inl e \<Rightarrow> Inl (Panic PanicPropose)
             | Inr fin_alive \<Rightarrow>
                 (case block_receiver of
                    None \<Rightarrow> Inl (Panic PanicBlockBuilding)
                  | Some block \<Rightarrow>
                      let ident = ctx_block_id ctx block in
                      if \<not> fin_alive then Inl (Panic PanicProposalFin)
                      else if fmlookup (shc_proposals shc) rnd \<noteq> None
                      then Inl (Panic PanicProposalExists)
                      else shc_sm_event ord
                        (shc\<lparr>shc_proposals := fmupd rnd block (shc_proposals shc),
                             shc_sent := shc_sent shc @ [Propose init content ident]\<rparr>)
                        (StartRound (Some ident) rnd)))"

definition handle_state_machine_vote ::
  "('b, 'tx) consensus_context \<Rightarrow> ('b, 'tx) shc \<Rightarrow> block_hash \<Rightarrow> consensus_round \<Rightarrow> vote_type \<Rightarrow>
   ('tx failure, ('b, 'tx) shc) result" where
  "handle_state_machine_vote ctx shc block_hash rnd vtype =
     (let votes = (case vtype of VtPrevote \<Rightarrow> shc_prevotes shc | VtPrecommit \<Rightarrow> shc_precommits shc);
          vote = \<lparr>vote_type = vtype, vote_height = shc_height shc, vote_block_hash = block_hash,
                  vote_voter = shc_id shc\<rparr>;
          votes' = fmupd (rnd, shc_id shc) vote votes;
          shc = (case vtype of VtPrevote \<Rightarrow> shc\<lparr>shc_prevotes := votes'\<rparr>
                 | VtPrecommit \<Rightarrow> shc\<lparr>shc_precommits := votes'\<rparr>)
      in if fmlookup votes (rnd, shc_id shc) \<noteq> None then Inl (Panic PanicRepeatVote)
         else case ctx_broadcast ctx (shc_sent shc) (MsgVote vote) of
                Inl e \<Rightarrow> Inl (Err e)
              | Inr _ \<Rightarrow> Inr (shc\<lparr>shc_sent := shc_sent shc @ [Broadcast (MsgVote vote)]\<rparr>))"

definition supporting_precommits :: "('b, 'tx) shc \<Rightarrow> block_hash \<Rightarrow> consensus_round \<Rightarrow> vote list" where
  "supporting_precommits shc block_hash rnd =
     List.map_filter (\<lambda>v. case fmlookup (shc_precommits shc) (rnd, v) of
         None \<Rightarrow> None
       | Some vote \<Rightarrow> if vote_block_hash vote \<noteq> block_hash then None else Some vote)
       (shc_validators shc)"

definition handle_state_machine_decision ::
  "('b, 'tx) consensus_context \<Rightarrow> ('b, 'tx) shc \<Rightarrow> block_hash \<Rightarrow> consensus_round \<Rightarrow>
   ('b, 'tx) shc_result" where
  "handle_state_machine_decision ctx shc block_hash rnd =
     (case fmlookup (shc_proposals shc) rnd of
        None \<Rightarrow> Inl (Panic PanicUnknownDecision)
      | Some block \<Rightarrow>
          let shc = shc\<lparr>shc_proposals := fmdrop rnd (shc_proposals shc)\<rparr> in
          if ctx_block_id ctx block \<noteq> block_hash then Inl (Panic PanicDecisionHash)
          else let precommits = supporting_precommits shc block_hash rnd in
            if length precommits < unat (quorum_size (shc_state_machine shc))
            then Inl (Panic PanicDecisionQuorum)
            else Inr (shc, Some \<lparr>dec_precommits = precommits, dec_block = block\<rparr>))"

text \<open>
  The loop of \<open>handle_state_machine_events\<close> ends because the answer to a \<open>StartRound\<close> never holds
  another one.
\<close>

fun is_start_round :: "sm_event \<Rightarrow> bool" where
  "is_start_round (StartRound _ _) = True"
| "is_start_round _ = False"

lemma internal_no_start_round:
  assumes "handle_event_internal ord sm e = Inr (sm', out)"
  shows "filter is_start_round out = []"
proof (cases e)
  case (Proposal h r)
  let ?sm = "sm\<lparr>sm_proposals := fmupd r h (sm_proposals sm)\<rparr>"
  show ?thesis
  proof (cases ord ?sm rule: advance_to_prevote_cases)
    case prevote
    then show ?thesis using assms Proposal
      by (auto simp: handle_proposal_def Let_def split: if_splits)
  next
    case (precommit h' c)
    then show ?thesis using assms Proposal
      by (cases ord "?sm\<lparr>sm_step := StepPrevote\<rparr>" h' "sm_round ?sm" rule: send_precommit_cases)
        (auto simp: handle_proposal_def Let_def split: if_splits)
  qed
next
  case (Prevote h r)
  then have "handle_prevote ord sm h r = Inr (sm', out)" using assms by simp
  then show ?thesis
  proof (cases rule: handle_prevote_cases)
    case send
    then show ?thesis
      by (cases ord "sm\<lparr>sm_prevotes := add_vote (sm_prevotes sm) r h\<rparr>" h r
          rule: send_precommit_cases) auto
  qed simp
qed (use assms in \<open>auto simp: sm_handler_defs Let_def split: if_splits option.splits\<close>)

lemma enqueued_no_start_round:
  assumes "handle_enqueued_events ord sm q = Inr (sm', out)"
  shows "filter is_start_round out = []"
  using assms
proof (induction rule: enqueued_induct)
  case (decided sm e q s1 es again out)
  then show ?case using internal_no_start_round [OF decided(1)]
      dispatch_filter_le [OF decided(2), of is_start_round] by simp
next
  case (continue sm e q s1 es again sm' out)
  then show ?case using internal_no_start_round [OF continue(1)] by simp
qed simp

lemma handle_event_no_start_round:
  assumes "handle_event ord sm e = Inr (sm', out)"
  shows "filter is_start_round out = []"
  using assms
  by (cases rule: handle_event_cases) (auto dest: enqueued_no_start_round)

lemma start_round_no_start_round:
  assumes "handle_state_machine_start_round ord ctx shc b r = Inr (shc', out)"
  shows "filter is_start_round out = []"
  using assms
  by (auto simp: handle_state_machine_start_round_def shc_sm_event_def Let_def
      split: if_splits prod.splits sum.splits option.splits dest: handle_event_no_start_round)

function handle_state_machine_events ::
  "vote_order \<Rightarrow> ('b, 'tx) consensus_context \<Rightarrow> ('b, 'tx) shc \<Rightarrow> sm_event list \<Rightarrow>
   ('b, 'tx) shc_result" where
  "handle_state_machine_events ord ctx shc [] = Inr (shc, None)"
| "handle_state_machine_events ord ctx shc (event # events) =
     (case event of
        StartRound block_hash rnd \<Rightarrow>
          res_bind (handle_state_machine_start_round ord ctx shc block_hash rnd)
            (\<lambda>(shc, more). handle_state_machine_events ord ctx shc (events @ more))
      | Proposal _ _ \<Rightarrow> handle_state_machine_events ord ctx shc events
      | Decision block_hash rnd \<Rightarrow> handle_state_machine_decision ctx shc block_hash rnd
      | Prevote block_hash rnd \<Rightarrow>
          res_bind (handle_state_machine_vote ctx shc block_hash rnd VtPrevote)
            (\<lambda>shc. handle_state_machine_events ord ctx shc events)
      | Precommit block_hash rnd \<Rightarrow>
          res_bind (handle_state_machine_vote ctx shc block_hash rnd VtPrecommit)
            (\<lambda>shc. handle_state_machine_events ord ctx shc events))"
  by pat_completeness auto
termination
  by (relation "measures [\<lambda>(ord, ctx, shc, es). length (filter is_start_round es),
      \<lambda>(ord, ctx, shc, es). length es]")
    (auto dest: start_round_no_start_round)

definition shc_start ::
  "vote_order \<Rightarrow> ('b, 'tx) consensus_context \<Rightarrow> ('b, 'tx) shc \<Rightarrow> ('b, 'tx) shc_result" where
  "shc_start ord ctx shc =
     (let (sm, events) = sm_start (shc_state_machine shc) in
      handle_state_machine_events ord ctx (shc\<lparr>shc_state_machine := sm\<rparr>) events)"

text \<open>\<open>fin_receiver\<close> is \<open>None\<close> when its sender is dropped before the block hash is sent.\<close>

definition shc_handle_proposal ::
  "vote_order \<Rightarrow> ('b, 'tx) consensus_context \<Rightarrow> ('b, 'tx) shc \<Rightarrow> proposal_init \<Rightarrow> 'tx list \<Rightarrow>
   block_hash option \<Rightarrow> ('b, 'tx) shc_result" where
  "shc_handle_proposal ord ctx shc init content fin_receiver =
     (let proposer_id = ctx_proposer ctx (shc_validators shc) (shc_height shc);
          invalid = (\<lambda>fault. Inl (Err (ErrInvalidProposal proposer_id (shc_height shc) fault)))
      in if init_height init \<noteq> shc_height shc
         then invalid (FaultHeight (shc_height shc) (init_height init))
         else if init_proposer init \<noteq> proposer_id
         then invalid (FaultProposer proposer_id (init_proposer init))
         else case ctx_validate_proposal ctx (shc_height shc) content of
             None \<Rightarrow> invalid FaultValidation
           | Some block \<Rightarrow>
               (case fin_receiver of
                  None \<Rightarrow> invalid FaultFin
                | Some fin \<Rightarrow>
                    if ctx_block_id ctx block \<noteq> fin then invalid FaultSignature
                    else res_bind
                      (shc_sm_event ord
                        (shc\<lparr>shc_proposals := fmupd round_zero block (shc_proposals shc)\<rparr>)
                        (Proposal (ctx_block_id ctx block) round_zero))
                      (\<lambda>(shc, events). handle_state_machine_events ord ctx shc events)))"

definition shc_handle_vote ::
  "vote_order \<Rightarrow> ('b, 'tx) consensus_context \<Rightarrow> ('b, 'tx) shc \<Rightarrow> vote \<Rightarrow> ('b, 'tx) shc_result" where
  "shc_handle_vote ord ctx shc vote =
     (let (votes, sm_vote) =
            (case vote_type vote of
               VtPrevote \<Rightarrow> (shc_prevotes shc, Prevote (vote_block_hash vote) round_zero)
             | VtPrecommit \<Rightarrow> (shc_precommits shc, Precommit (vote_block_hash vote) round_zero))
      in case fmlookup votes (round_zero, vote_voter vote) of
           Some old \<Rightarrow>
             if vote_block_hash old \<noteq> vote_block_hash vote
             then Inl (Err (ErrEquivocation (shc_height shc) (MsgVote old) (MsgVote vote)))
             else Inr (shc, None)
         | None \<Rightarrow>
             let votes' = fmupd (round_zero, vote_voter vote) vote votes;
                 shc = (case vote_type vote of VtPrevote \<Rightarrow> shc\<lparr>shc_prevotes := votes'\<rparr>
                        | VtPrecommit \<Rightarrow> shc\<lparr>shc_precommits := votes'\<rparr>)
             in res_bind (shc_sm_event ord shc sm_vote)
                  (\<lambda>(shc, events). handle_state_machine_events ord ctx shc events))"

fun shc_handle_message ::
  "vote_order \<Rightarrow> ('b, 'tx) consensus_context \<Rightarrow> ('b, 'tx) shc \<Rightarrow> 'tx consensus_message \<Rightarrow>
   ('b, 'tx) shc_result" where
  "shc_handle_message ord ctx shc (MsgProposal p) = Inl (Panic PanicProposalMessage)"
| "shc_handle_message ord ctx shc (MsgVote vote) = shc_handle_vote ord ctx shc vote"

declare handle_state_machine_events.simps [simp del]

end
