(* ===== verification/Consensus_Run.thy ===== *)
theory Consensus_Run
  imports Consensus_Single_Height
begin

text \<open>
  The loop over heights: \<open>run_height\<close> and \<open>run_consensus\<close> of
  \<open>crates/sequencing/papyrus_consensus/src/lib.rs\<close>, and the conversion of a received proposal into
  its stream form from \<open>papyrus_consensus_context.rs\<close>.

  The network receiver is the list of messages it will deliver, a message that cannot be parsed as
  \<open>Inl ()\<close>; reading past its end is the closed receiver. \<open>run_consensus\<close> loops forever, so
  \<open>run_consensus_heights\<close> takes the number of iterations of its loop.

  The properties: what a height decides carries a certificate of precommits of distinct validators
  that reach the quorum, two heights' certificates for different blocks need more than a third of
  the validators to vote for both, the node votes at most once, and no message for a later height is lost.
\<close>

section \<open>Operations\<close>

definition proposal_wrapper_into ::
  "'tx proposal \<Rightarrow> proposal_init \<times> 'tx list \<times> block_hash option" where
  "proposal_wrapper_into p =
     (\<lparr>init_height = prop_height p, init_proposer = prop_proposer p\<rparr>,
      prop_transactions p, Some (prop_block_hash p))"

definition run_height_message ::
  "vote_order \<Rightarrow> ('b, 'tx) consensus_context \<Rightarrow> block_number \<Rightarrow> ('b, 'tx) shc \<Rightarrow>
   'tx consensus_message list \<Rightarrow> 'tx consensus_message \<Rightarrow>
   ('tx failure, ('b, 'tx) shc \<times> 'tx consensus_message list \<times> 'b decision option) result" where
  "run_height_message ord ctx height shc cached_messages message =
     (if msg_height message \<noteq> height
      then Inr (shc,
                if height < msg_height message then cached_messages @ [message]
                else cached_messages,
                None)
      else res_bind
        (case message of
           MsgProposal proposal \<Rightarrow>
             (case proposal_wrapper_into proposal of (init, content, fin) \<Rightarrow>
                shc_handle_proposal ord ctx shc init content fin)
         | MsgVote _ \<Rightarrow> shc_handle_message ord ctx shc message)
        (\<lambda>(shc, maybe_decision). Inr (shc, cached_messages, maybe_decision)))"

type_synonym 'tx network = "(unit, 'tx consensus_message) result list"

type_synonym ('b, 'tx) height_outcome =
  "'b decision \<times> ('b, 'tx) shc \<times> 'tx consensus_message list \<times> 'tx network"

fun run_height_loop ::
  "vote_order \<Rightarrow> ('b, 'tx) consensus_context \<Rightarrow> block_number \<Rightarrow> ('b, 'tx) shc \<Rightarrow>
   'tx consensus_message list \<Rightarrow> 'tx consensus_message list \<Rightarrow> 'tx network \<Rightarrow>
   ('tx failure, ('b, 'tx) height_outcome) result" where
  "run_height_loop ord ctx height shc cached (message # current) network =
     res_bind (run_height_message ord ctx height shc cached message) (\<lambda>(shc, cached, maybe_decision).
       case maybe_decision of
         Some decision \<Rightarrow> Inr (decision, shc, cached, network)
       | None \<Rightarrow> run_height_loop ord ctx height shc cached current network)"
| "run_height_loop ord ctx height shc cached [] [] = Inl (Panic PanicNetworkClosed)"
| "run_height_loop ord ctx height shc cached [] (Inl _ # network) = Inl (Panic PanicParse)"
| "run_height_loop ord ctx height shc cached [] (Inr message # network) =
     res_bind (run_height_message ord ctx height shc cached message) (\<lambda>(shc, cached, maybe_decision).
       case maybe_decision of
         Some decision \<Rightarrow> Inr (decision, shc, cached, network)
       | None \<Rightarrow> run_height_loop ord ctx height shc cached [] network)"

text \<open>\<open>Vec::pop\<close> takes the messages of the current height from the end, hence the \<open>rev\<close>.\<close>

definition run_height ::
  "vote_order \<Rightarrow> ('b, 'tx) consensus_context \<Rightarrow> block_number \<Rightarrow> validator_id \<Rightarrow> 'tx network \<Rightarrow>
   'tx consensus_message list \<Rightarrow> ('tx failure, ('b, 'tx) height_outcome) result" where
  "run_height ord ctx height validator_id network cached_messages =
     res_bind (shc_start ord ctx (shc_new height validator_id (ctx_validators ctx height)))
       (\<lambda>(shc, started). case started of
          Some decision \<Rightarrow> Inr (decision, shc, cached_messages, network)
        | None \<Rightarrow>
            let cached = filter (\<lambda>m. height < msg_height m) cached_messages;
                current_height_messages = filter (\<lambda>m. height = msg_height m) cached_messages
            in run_height_loop ord ctx height shc cached (rev current_height_messages) network)"

primrec run_consensus_heights ::
  "vote_order \<Rightarrow> ('b, 'tx) consensus_context \<Rightarrow> validator_id \<Rightarrow> nat \<Rightarrow> block_number \<Rightarrow>
   'tx network \<Rightarrow> 'tx consensus_message list \<Rightarrow>
   ('tx failure, 'b decision list \<times> block_number \<times> 'tx network \<times> 'tx consensus_message list) result"
where
  "run_consensus_heights ord ctx validator_id 0 current_height network future_messages =
     Inr ([], current_height, network, future_messages)"
| "run_consensus_heights ord ctx validator_id (Suc k) current_height network future_messages =
     res_bind (run_height ord ctx current_height validator_id network future_messages)
       (\<lambda>(decision, _, future_messages, network).
          res_bind (run_consensus_heights ord ctx validator_id k (Suc current_height) network
              future_messages)
            (\<lambda>(ds, rest). Inr (decision # ds, rest)))"

section \<open>What a height keeps\<close>

text \<open>
  Every stored vote is filed under its voter and is of this height, the quorum is the one of the
  validator set, and the votes broadcast or still to be broadcast are at most those the state
  machine has sent.
\<close>

definition votes_wf :: "block_number \<Rightarrow> vote_type \<Rightarrow> (consensus_round \<times> validator_id, vote) fmap \<Rightarrow> bool" where
  "votes_wf height vtype m \<longleftrightarrow>
     (\<forall>r v x. fmlookup m (r, v) = Some x \<longrightarrow>
        vote_voter x = v \<and> vote_type x = vtype \<and> vote_height x = height)"

fun sent_vote :: "vote_type \<Rightarrow> 'tx net_event \<Rightarrow> bool" where
  "sent_vote vtype (Broadcast (MsgVote v)) = (vote_type v = vtype)"
| "sent_vote vtype _ = False"

abbreviation n_sent :: "vote_type \<Rightarrow> 'tx net_event list \<Rightarrow> nat" where
  "n_sent vtype es \<equiv> length (filter (sent_vote vtype) es)"

definition shc_inv ::
  "block_number \<Rightarrow> validator_id list \<Rightarrow> ('b, 'tx) shc \<Rightarrow> sm_event list \<Rightarrow> bool" where
  "shc_inv height validators shc events \<longleftrightarrow>
     shc_height shc = height \<and> shc_validators shc = validators \<and>
     sm_quorum (shc_state_machine shc) = sm_quorum (sm_new (of_nat (length validators))) \<and>
     votes_wf height VtPrevote (shc_prevotes shc) \<and>
     votes_wf height VtPrecommit (shc_precommits shc) \<and>
     n_sent VtPrevote (shc_sent shc) + n_prevotes events \<le> prevoted (shc_state_machine shc) \<and>
     n_sent VtPrecommit (shc_sent shc) + n_precommits events \<le> precommitted (shc_state_machine shc)"

text \<open>A certificate: precommits of distinct validators for one block at one height, a quorum of them.\<close>

definition certificate ::
  "block_number \<Rightarrow> validator_id list \<Rightarrow> block_hash \<Rightarrow> vote list \<Rightarrow> bool" where
  "certificate height validators block_hash votes \<longleftrightarrow>
     (\<forall>v \<in> set votes. vote_type v = VtPrecommit \<and> vote_height v = height \<and>
        vote_block_hash v = block_hash \<and> vote_voter v \<in> set validators) \<and>
     (distinct validators \<longrightarrow> distinct (map vote_voter votes)) \<and>
     unat (quorum_size (sm_new (of_nat (length validators)))) \<le> length votes"

lemma shc_sm_event_inv:
  assumes "iteration_order ord" and "shc_sm_event ord shc e = Inr (shc', out)"
    and "shc_inv height validators shc events"
  shows "shc_inv height validators shc' (events @ out)"
proof -
  from assms(2) obtain sm where ev: "handle_event ord (shc_state_machine shc) e = Inr (sm, out)"
    and shc': "shc' = shc\<lparr>shc_state_machine := sm\<rparr>"
    by (auto simp: shc_sm_event_def split: sum.splits)
  show ?thesis
    using assms(3) handle_event_votes [OF ev] handle_event_frame [OF assms(1) ev, of undefined undefined]
    unfolding shc' shc_inv_def by simp
qed

lemma start_round_inv:
  assumes "iteration_order ord"
    and "handle_state_machine_start_round ord ctx shc b r = Inr (shc', out)"
    and "shc_inv height validators shc events"
  shows "shc_inv height validators shc' (events @ out)"
proof -
  have step: "shc_inv height validators (shc\<lparr>shc_proposals := ps, shc_sent := shc_sent shc @ [Propose i c h]\<rparr>) events"
    for ps i c h using assms(3) by (simp add: shc_inv_def)
  show ?thesis
    using assms(2) shc_sm_event_inv [OF assms(1) _ assms(3)] shc_sm_event_inv [OF assms(1) _ step]
    by (auto simp: handle_state_machine_start_round_def Let_def
        split: if_splits prod.splits sum.splits option.splits)
qed

lemma votes_wf_upd:
  assumes "votes_wf height vtype m" and "vote_voter x = v" "vote_type x = vtype" "vote_height x = height"
  shows "votes_wf height vtype (fmupd (r, v) x m)"
  using assms by (auto simp: votes_wf_def)

lemma sm_vote_inv:
  assumes "handle_state_machine_vote ctx shc h r vtype = Inr shc'"
    and "shc_inv height validators shc (e # events)"
    and "is_prevote e \<longleftrightarrow> vtype = VtPrevote" "is_precommit e \<longleftrightarrow> vtype = VtPrecommit"
  shows "shc_inv height validators shc' events"
  using assms
  by (cases vtype)
    (auto simp: handle_state_machine_vote_def Let_def shc_inv_def intro!: votes_wf_upd
      split: if_splits sum.splits)

lemma supporting_precommits_voters:
  assumes "votes_wf height VtPrecommit (shc_precommits shc)"
  shows "map vote_voter (supporting_precommits shc h r) =
    filter (\<lambda>v. \<exists>x. fmlookup (shc_precommits shc) (r, v) = Some x \<and> vote_block_hash x = h)
      (shc_validators shc)"
proof -
  have "map vote_voter (List.map_filter (\<lambda>v. case fmlookup (shc_precommits shc) (r, v) of
         None \<Rightarrow> None | Some vote \<Rightarrow> if vote_block_hash vote \<noteq> h then None else Some vote) vs) =
    filter (\<lambda>v. \<exists>x. fmlookup (shc_precommits shc) (r, v) = Some x \<and> vote_block_hash x = h) vs" for vs
    using assms by (induction vs) (auto simp: votes_wf_def List.map_filter_simps split: option.splits)
  then show ?thesis by (simp add: supporting_precommits_def)
qed

lemma supporting_precommits_votes:
  assumes "votes_wf height VtPrecommit (shc_precommits shc)"
    and "x \<in> set (supporting_precommits shc h r)"
  shows "vote_type x = VtPrecommit \<and> vote_height x = height \<and> vote_block_hash x = h \<and>
    vote_voter x \<in> set (shc_validators shc)"
  using assms
  by (auto simp: supporting_precommits_def List.map_filter_def votes_wf_def
      split: option.splits if_splits)

lemma sm_decision_certificate:
  assumes "handle_state_machine_decision ctx shc h r = Inr (shc', d)"
    and "shc_inv height validators shc (Decision h r # events)"
  shows "shc_inv height validators shc' events \<and>
    (\<exists>decision. d = Some decision \<and> ctx_block_id ctx (dec_block decision) = h \<and>
       certificate height validators h (dec_precommits decision))"
proof -
  from assms(1) obtain block where
    shc': "shc' = shc\<lparr>shc_proposals := fmdrop r (shc_proposals shc)\<rparr>"
    and d: "d = Some \<lparr>dec_precommits = supporting_precommits shc' h r, dec_block = block\<rparr>"
    and h: "ctx_block_id ctx block = h"
    and q: "unat (quorum_size (shc_state_machine shc')) \<le> length (supporting_precommits shc' h r)"
    by (auto simp: handle_state_machine_decision_def Let_def split: option.splits if_splits)
  have inv: "shc_inv height validators shc' events" using assms(2) unfolding shc' shc_inv_def by simp
  then have wf: "votes_wf height VtPrecommit (shc_precommits shc')"
    and vals: "shc_validators shc' = validators" by (simp_all add: shc_inv_def)
  have "certificate height validators h (supporting_precommits shc' h r)"
    unfolding certificate_def
    using supporting_precommits_votes [OF wf, of _ h r] supporting_precommits_voters [OF wf, of h r] q inv
    by (auto simp: shc_inv_def quorum_size_def vals)
  with inv d h show ?thesis by simp
qed

lemma sm_events_inv:
  assumes ord: "iteration_order ord"
    and "handle_state_machine_events ord ctx shc events = Inr (shc', d)"
    and "shc_inv height validators shc events"
  shows "shc_inv height validators shc' [] \<and>
    (\<forall>decision. d = Some decision \<longrightarrow>
       certificate height validators (ctx_block_id ctx (dec_block decision)) (dec_precommits decision))"
  using assms
proof (induction ord ctx shc events rule: handle_state_machine_events.induct)
  case (1 ord ctx shc)
  then show ?case by (simp add: handle_state_machine_events.simps)
next
  case (2 ord ctx shc event events)
  note run = "2.prems"(2) [unfolded handle_state_machine_events.simps]
  show ?case
  proof (cases event)
    case (StartRound b r)
    with run obtain shc1 more where
      sr: "handle_state_machine_start_round ord ctx shc b r = Inr (shc1, more)"
      and rest: "handle_state_machine_events ord ctx shc1 (events @ more) = Inr (shc', d)"
      by (auto simp: res_simps)
    have "shc_inv height validators shc events" using "2.prems"(3) StartRound
      by (simp add: shc_inv_def)
    from start_round_inv [OF "2.prems"(1) sr this]
    show ?thesis by (rule "2.IH"(1) [OF StartRound sr refl "2.prems"(1) rest])
  next
    case (Proposal h r)
    with run have rest: "handle_state_machine_events ord ctx shc events = Inr (shc', d)" by simp
    show ?thesis using "2.prems"(3) Proposal
      by (intro "2.IH"(2) [OF Proposal "2.prems"(1) rest]) (simp add: shc_inv_def)
  next
    case (Prevote h r)
    with run obtain shc1 where vote: "handle_state_machine_vote ctx shc h r VtPrevote = Inr shc1"
      and rest: "handle_state_machine_events ord ctx shc1 events = Inr (shc', d)"
      by (auto simp: res_simps)
    have "shc_inv height validators shc1 events"
      by (rule sm_vote_inv [OF vote "2.prems"(3)]) (simp_all add: Prevote)
    then show ?thesis by (rule "2.IH"(3) [OF Prevote vote "2.prems"(1) rest])
  next
    case (Precommit h r)
    with run obtain shc1 where vote: "handle_state_machine_vote ctx shc h r VtPrecommit = Inr shc1"
      and rest: "handle_state_machine_events ord ctx shc1 events = Inr (shc', d)"
      by (auto simp: res_simps)
    have "shc_inv height validators shc1 events"
      by (rule sm_vote_inv [OF vote "2.prems"(3)]) (simp_all add: Precommit)
    then show ?thesis by (rule "2.IH"(4) [OF Precommit vote "2.prems"(1) rest])
  next
    case (Decision h r)
    with run have "handle_state_machine_decision ctx shc h r = Inr (shc', d)" by simp
    from sm_decision_certificate [OF this "2.prems"(3) [unfolded Decision]] show ?thesis
      by (auto simp: shc_inv_def)
  qed
qed

definition decision_ok ::
  "('b, 'tx) consensus_context \<Rightarrow> block_number \<Rightarrow> validator_id list \<Rightarrow> 'b decision option \<Rightarrow> bool" where
  "decision_ok ctx height validators d \<longleftrightarrow>
     (\<forall>decision. d = Some decision \<longrightarrow>
        certificate height validators (ctx_block_id ctx (dec_block decision)) (dec_precommits decision))"

lemmas sm_events_ok = sm_events_inv [folded decision_ok_def]

lemma shc_inv_new: "shc_inv height validators (shc_new height ident validators) []"
  by (simp add: shc_inv_def shc_new_def votes_wf_def)

lemma shc_start_inv:
  assumes "iteration_order ord"
    and "shc_start ord ctx (shc_new height ident validators) = Inr (shc', d)"
  shows "shc_inv height validators shc' [] \<and> decision_ok ctx height validators d"
proof -
  let ?sm = "sm_new (of_nat (length validators))"
  let ?shc = "shc_new height ident validators\<lparr>shc_state_machine := ?sm\<lparr>sm_starting_round := True\<rparr>\<rparr>"
  have "handle_state_machine_events ord ctx ?shc [StartRound None (sm_round ?sm)] = Inr (shc', d)"
    using assms(2) by (simp add: shc_start_def sm_start_def shc_new_def)
  moreover have "shc_inv height validators ?shc [StartRound None (sm_round ?sm)]"
    using shc_inv_new [of height validators ident]
    by (simp add: shc_inv_def prevoted_def precommitted_def shc_new_def)
  ultimately show ?thesis by (rule sm_events_ok [OF assms(1)])
qed

lemma shc_sm_then_events_inv:
  assumes "iteration_order ord" and "shc_inv height validators shc []"
    and "res_bind (shc_sm_event ord shc e)
      (\<lambda>(shc, events). handle_state_machine_events ord ctx shc events) = Inr (shc', d)"
  shows "shc_inv height validators shc' [] \<and> decision_ok ctx height validators d"
proof -
  from assms(3) obtain shc1 out where ev: "shc_sm_event ord shc e = Inr (shc1, out)"
    and rest: "handle_state_machine_events ord ctx shc1 out = Inr (shc', d)"
    by (auto simp: res_simps)
  from shc_sm_event_inv [OF assms(1) ev assms(2)] have "shc_inv height validators shc1 out" by simp
  then show ?thesis by (rule sm_events_ok [OF assms(1) rest])
qed

lemma shc_handle_proposal_inv:
  assumes "iteration_order ord" and "shc_inv height validators shc []"
    and "shc_handle_proposal ord ctx shc init content fin = Inr (shc', d)"
  shows "shc_inv height validators shc' [] \<and> decision_ok ctx height validators d"
proof -
  have "shc_inv height validators (shc\<lparr>shc_proposals := ps\<rparr>) []" for ps
    using assms(2) by (simp add: shc_inv_def)
  from shc_sm_then_events_inv [OF assms(1) this] assms(3) show ?thesis
    by (auto simp: shc_handle_proposal_def Let_def split: if_splits option.splits)
qed

lemma shc_handle_vote_inv:
  assumes "iteration_order ord" and "shc_inv height validators shc []"
    and "vote_height v = height" and "shc_handle_vote ord ctx shc v = Inr (shc', d)"
  shows "shc_inv height validators shc' [] \<and> decision_ok ctx height validators d"
proof (cases "vote_type v")
  case VtPrevote
  let ?shc = "shc\<lparr>shc_prevotes := fmupd (round_zero, vote_voter v) v (shc_prevotes shc)\<rparr>"
  have "shc_inv height validators ?shc []"
    using assms(2,3) VtPrevote by (simp add: shc_inv_def votes_wf_upd)
  from shc_sm_then_events_inv [OF assms(1) this] assms(2,4) VtPrevote show ?thesis
    by (auto simp: shc_handle_vote_def Let_def decision_ok_def split: if_splits option.splits)
next
  case VtPrecommit
  let ?shc = "shc\<lparr>shc_precommits := fmupd (round_zero, vote_voter v) v (shc_precommits shc)\<rparr>"
  have "shc_inv height validators ?shc []"
    using assms(2,3) VtPrecommit by (simp add: shc_inv_def votes_wf_upd)
  from shc_sm_then_events_inv [OF assms(1) this] assms(2,4) VtPrecommit show ?thesis
    by (auto simp: shc_handle_vote_def Let_def decision_ok_def split: if_splits option.splits)
qed

section \<open>What a run of a height keeps\<close>

abbreviation future :: "block_number \<Rightarrow> 'tx consensus_message list \<Rightarrow> 'tx consensus_message list" where
  "future height ms \<equiv> filter (\<lambda>m. height < msg_height m) ms"

lemma run_height_message_inv:
  assumes "iteration_order ord" and "shc_inv height validators shc []"
    and "run_height_message ord ctx height shc cached message = Inr (shc', cached', d)"
  shows "shc_inv height validators shc' []" and "decision_ok ctx height validators d"
    and "cached' = cached @ future height [message]"
proof -
  have *: "shc_inv height validators shc' [] \<and> decision_ok ctx height validators d"
  proof (cases "msg_height message = height")
    case True
    show ?thesis
    proof (cases message)
      case (MsgProposal p)
      then show ?thesis using assms(3) True
        by (auto simp: run_height_message_def res_simps
            dest: shc_handle_proposal_inv [OF assms(1,2)] split: prod.splits)
    next
      case (MsgVote v)
      then have "shc_handle_vote ord ctx shc v = Inr (shc', d)" using assms(3) True
        by (auto simp: run_height_message_def res_simps)
      then show ?thesis using shc_handle_vote_inv [OF assms(1,2)] True MsgVote by simp
    qed
  next
    case False
    with assms(2,3) show ?thesis by (auto simp: run_height_message_def decision_ok_def)
  qed
  then show "shc_inv height validators shc' []" "decision_ok ctx height validators d" by auto
  show "cached' = cached @ future height [message]"
    using assms(3) by (auto simp: run_height_message_def res_simps split: if_splits)
qed

lemma run_height_loop_inv:
  assumes "iteration_order ord" and "shc_inv height validators shc []"
    and "run_height_loop ord ctx height shc cached current network = Inr (decision, shc', cached', network')"
    and "\<forall>m \<in> set current. msg_height m = height"
  shows "shc_inv height validators shc' [] \<and> decision_ok ctx height validators (Some decision) \<and>
    (\<exists>consumed. network = map Inr consumed @ network' \<and> cached' = cached @ future height consumed)"
  using assms
proof (induction ord ctx height shc cached current network rule: run_height_loop.induct)
  case (1 ord ctx height shc cached message current network)
  from "1.prems"(3) obtain shc1 cached1 d where
    step: "run_height_message ord ctx height shc cached message = Inr (shc1, cached1, d)"
    by (auto simp: res_simps)
  note inv = run_height_message_inv [OF "1.prems"(1,2) step]
  have c1: "cached1 = cached" using inv(3) "1.prems"(4) by simp
  show ?case
  proof (cases d)
    case None
    from "1.IH" [OF step refl refl None "1.prems"(1) inv(1)] "1.prems"(3,4) step None c1
    show ?thesis by simp
  next
    case (Some d')
    then show ?thesis using "1.prems"(3) step inv c1 by auto
  qed
next
  case (4 ord ctx height shc cached message network)
  from "4.prems"(3) obtain shc1 cached1 d where
    step: "run_height_message ord ctx height shc cached message = Inr (shc1, cached1, d)"
    by (auto simp: res_simps)
  note inv = run_height_message_inv [OF "4.prems"(1,2) step]
  show ?case
  proof (cases d)
    case None
    from "4.IH" [OF step refl refl None "4.prems"(1) inv(1)] "4.prems"(3) step None
    obtain consumed where "shc_inv height validators shc' []"
      "decision_ok ctx height validators (Some decision)"
      "network = map Inr consumed @ network'" "cached' = cached1 @ future height consumed"
      by auto
    moreover from this have "Inr message # network = map Inr (message # consumed) @ network'"
      "cached' = cached @ future height (message # consumed)" using inv(3) by simp_all
    ultimately show ?thesis by blast
  next
    case (Some d')
    with "4.prems"(3) step have eq: "decision = d'" "shc' = shc1" "cached' = cached1"
      "network' = network" by simp_all
    have "Inr message # network = map Inr [message] @ network'" using eq by simp
    with eq inv Some show ?thesis by blast
  qed
qed simp_all

lemma run_height_inv:
  assumes ord: "iteration_order ord"
    and run: "run_height ord ctx height ident network cached = Inr (decision, shc, cached', network')"
  shows "shc_inv height (ctx_validators ctx height) shc [] \<and>
    decision_ok ctx height (ctx_validators ctx height) (Some decision) \<and>
    (\<exists>consumed. network = map Inr consumed @ network' \<and>
       future height cached' = future height (cached @ consumed))"
proof -
  let ?vs = "ctx_validators ctx height"
  from run obtain shc1 d where start: "shc_start ord ctx (shc_new height ident ?vs) = Inr (shc1, d)"
    by (auto simp: run_height_def res_simps)
  note inv = shc_start_inv [OF ord start]
  show ?thesis
  proof (cases d)
    case None
    with run start have "run_height_loop ord ctx height shc1 (future height cached)
        (rev (filter (\<lambda>m. height = msg_height m) cached)) network = Inr (decision, shc, cached', network')"
      by (simp add: run_height_def Let_def)
    from run_height_loop_inv [OF ord conjunct1 [OF inv] this]
    obtain consumed where "shc_inv height ?vs shc []" "decision_ok ctx height ?vs (Some decision)"
      "network = map Inr consumed @ network'" "cached' = future height (cached @ consumed)"
      by auto
    then show ?thesis by (intro conjI exI [of _ consumed]) simp_all
  next
    case (Some d')
    then show ?thesis using run start inv by (auto simp: run_height_def)
  qed
qed

lemma run_consensus_heights_inv:
  assumes "iteration_order ord"
    and "run_consensus_heights ord ctx ident k height network cached = Inr (ds, height', network', cached')"
  shows "height' = height + k \<and> length ds = k \<and>
    (\<forall>i < k. certificate (height + i) (ctx_validators ctx (height + i))
       (ctx_block_id ctx (dec_block (ds ! i))) (dec_precommits (ds ! i)))"
  using assms(2)
proof (induction k arbitrary: height network cached ds)
  case 0
  then show ?case by simp
next
  case (Suc k)
  then obtain d shc cached1 network1 ds1 where
    run: "run_height ord ctx height ident network cached = Inr (d, shc, cached1, network1)"
    and rest: "run_consensus_heights ord ctx ident k (Suc height) network1 cached1 =
      Inr (ds1, height', network', cached')" and ds: "ds = d # ds1"
    by (auto simp: res_simps)
  have "certificate height (ctx_validators ctx height) (ctx_block_id ctx (dec_block d)) (dec_precommits d)"
    using run_height_inv [OF assms(1) run] by (simp add: decision_ok_def)
  with Suc.IH [OF rest] show ?case
    by (auto simp: ds less_Suc_eq_0_disj)
qed

section \<open>Two certificates\<close>

lemma certificate_voters:
  assumes "certificate height vs h votes" and "distinct vs"
  shows "unat (quorum_size (sm_new (of_nat (length vs)))) \<le> card (vote_voter ` set votes)"
    and "vote_voter ` set votes \<subseteq> set vs"
  using assms distinct_card [of "map vote_voter votes"] by (auto simp: certificate_def)

lemma quorum_of_validators:
  assumes "length vs < 2 ^ 31"
  shows "2 * length vs < 3 * unat (quorum_size (sm_new (of_nat (length vs))))"
proof -
  have "unat (of_nat (length vs) :: u32) = length vs" using assms by (simp add: unat_of_nat)
  then have "unat (quorum_size (sm_new (of_nat (length vs)))) = 2 * length vs div 3 + 1"
    using assms by (simp add: quorum_size_def unat_quorum)
  then show ?thesis by linarith
qed

lemma certificates_intersect:
  assumes "certificate height vs h1 votes1" "certificate height vs h2 votes2"
    and "distinct vs" "length vs < 2 ^ 31"
  shows "length vs < 3 * card (vote_voter ` set votes1 \<inter> vote_voter ` set votes2)"
proof -
  let ?A = "vote_voter ` set votes1" and ?B = "vote_voter ` set votes2"
  note A = certificate_voters [OF assms(1,3)] and B = certificate_voters [OF assms(2,3)]
  have "card (?A \<union> ?B) \<le> length vs"
    using A(2) B(2) card_mono [of "set vs" "?A \<union> ?B"] distinct_card [OF assms(3)] by simp
  moreover have "card (?A \<union> ?B) + card (?A \<inter> ?B) = card ?A + card ?B"
    using card_Un_Int [of ?A ?B] by simp
  ultimately show ?thesis using A(1) B(1) quorum_of_validators [OF assms(4)] by linarith
qed

section \<open>Recorded votes\<close>

definition recorded ::
  "('b, 'tx) shc \<Rightarrow> vote_type \<Rightarrow> (consensus_round \<times> validator_id, vote) fmap" where
  "recorded shc vtype = (case vtype of VtPrevote \<Rightarrow> shc_prevotes shc | VtPrecommit \<Rightarrow> shc_precommits shc)"

lemma recorded_simps [simp]:
  "recorded (shc\<lparr>shc_state_machine := sm\<rparr>) t = recorded shc t"
  "recorded (shc\<lparr>shc_proposals := ps\<rparr>) t = recorded shc t"
  "recorded (shc\<lparr>shc_sent := xs\<rparr>) t = recorded shc t"
  "recorded (shc\<lparr>shc_prevotes := m\<rparr>) t = (case t of VtPrevote \<Rightarrow> m | VtPrecommit \<Rightarrow> shc_precommits shc)"
  "recorded (shc\<lparr>shc_precommits := m\<rparr>) t = (case t of VtPrevote \<Rightarrow> shc_prevotes shc | VtPrecommit \<Rightarrow> m)"
  by (simp_all add: recorded_def split: vote_type.split)

lemma shc_sm_event_recorded:
  "shc_sm_event ord shc e = Inr (shc', out) \<Longrightarrow> recorded shc' t = recorded shc t"
  by (auto simp: shc_sm_event_def split: sum.splits)

lemma start_round_recorded:
  "handle_state_machine_start_round ord ctx shc b r = Inr (shc', out) \<Longrightarrow>
   recorded shc' t = recorded shc t"
  by (auto simp: handle_state_machine_start_round_def Let_def dest!: shc_sm_event_recorded [where t = t]
      split: if_splits prod.splits sum.splits option.splits)

lemma sm_vote_recorded:
  assumes "handle_state_machine_vote ctx shc h r vtype = Inr shc'"
  shows "recorded shc t \<subseteq>\<^sub>f recorded shc' t"
  using assms
  by (cases vtype; cases t)
    (auto simp: handle_state_machine_vote_def Let_def recorded_def fmsubset_alt_def
      intro!: fmpredI split: if_splits sum.splits)

lemma sm_decision_recorded:
  "handle_state_machine_decision ctx shc h r = Inr (shc', d) \<Longrightarrow> recorded shc' t = recorded shc t"
  by (auto simp: handle_state_machine_decision_def Let_def split: option.splits if_splits)

lemma fmsubset_trans: "a \<subseteq>\<^sub>f b \<Longrightarrow> b \<subseteq>\<^sub>f c \<Longrightarrow> a \<subseteq>\<^sub>f c"
  by (meson fmpred_mono_strong order.trans fmsubset.rep_eq map_le_trans)

lemma sm_events_recorded:
  assumes "handle_state_machine_events ord ctx shc events = Inr (shc', d)"
  shows "recorded shc t \<subseteq>\<^sub>f recorded shc' t"
  using assms
proof (induction ord ctx shc events rule: handle_state_machine_events.induct)
  case (1 ord ctx shc)
  then show ?case by (simp add: handle_state_machine_events.simps fmsubset.rep_eq)
next
  case (2 ord ctx shc event events)
  note run = "2.prems" [unfolded handle_state_machine_events.simps]
  show ?case
  proof (cases event)
    case (StartRound b r)
    with run obtain shc1 more where
      sr: "handle_state_machine_start_round ord ctx shc b r = Inr (shc1, more)"
      and rest: "handle_state_machine_events ord ctx shc1 (events @ more) = Inr (shc', d)"
      by (auto simp: res_simps)
    from "2.IH"(1) [OF StartRound sr refl rest] start_round_recorded [OF sr, of t]
    show ?thesis by simp
  next
    case (Prevote h r)
    with run obtain shc1 where vote: "handle_state_machine_vote ctx shc h r VtPrevote = Inr shc1"
      and rest: "handle_state_machine_events ord ctx shc1 events = Inr (shc', d)"
      by (auto simp: res_simps)
    show ?thesis
      by (rule fmsubset_trans [OF sm_vote_recorded [OF vote] "2.IH"(3) [OF Prevote vote rest]])
  next
    case (Precommit h r)
    with run obtain shc1 where vote: "handle_state_machine_vote ctx shc h r VtPrecommit = Inr shc1"
      and rest: "handle_state_machine_events ord ctx shc1 events = Inr (shc', d)"
      by (auto simp: res_simps)
    show ?thesis
      by (rule fmsubset_trans [OF sm_vote_recorded [OF vote] "2.IH"(4) [OF Precommit vote rest]])
  next
    case (Decision h r)
    with run have "handle_state_machine_decision ctx shc h r = Inr (shc', d)" by simp
    from sm_decision_recorded [OF this, of t] show ?thesis by (simp add: fmsubset.rep_eq)
  qed (use run "2.IH"(2) in simp)
qed

lemma shc_handle_vote_recorded:
  assumes "shc_handle_vote ord ctx shc v = Inr (shc', d)"
  shows "recorded shc t \<subseteq>\<^sub>f recorded shc' t \<and>
    (\<exists>x. fmlookup (recorded shc' (vote_type v)) (round_zero, vote_voter v) = Some x \<and>
       vote_block_hash x = vote_block_hash v)"
proof (cases "fmlookup (recorded shc (vote_type v)) (round_zero, vote_voter v)")
  case (Some old)
  with assms show ?thesis
    by (cases "vote_type v")
      (auto simp: shc_handle_vote_def recorded_def fmsubset.rep_eq split: if_splits)
next
  case None
  define shc1 where "shc1 = (case vote_type v of
      VtPrevote \<Rightarrow> shc\<lparr>shc_prevotes := fmupd (round_zero, vote_voter v) v (shc_prevotes shc)\<rparr>
    | VtPrecommit \<Rightarrow> shc\<lparr>shc_precommits := fmupd (round_zero, vote_voter v) v (shc_precommits shc)\<rparr>)"
  from None assms obtain shc2 e out where ev: "shc_sm_event ord shc1 e = Inr (shc2, out)"
    and rest: "handle_state_machine_events ord ctx shc2 out = Inr (shc', d)"
    by (cases "vote_type v") (auto simp: shc_handle_vote_def shc1_def recorded_def res_simps)
  have mono: "recorded shc1 t \<subseteq>\<^sub>f recorded shc' t" for t
    using sm_events_recorded [OF rest, of t] shc_sm_event_recorded [OF ev, of t] by simp
  have "recorded shc t \<subseteq>\<^sub>f recorded shc1 t" using None
    by (cases "vote_type v"; cases t)
      (auto simp: shc1_def recorded_def fmsubset_alt_def intro!: fmpredI)
  moreover have "fmlookup (recorded shc1 (vote_type v)) (round_zero, vote_voter v) = Some v"
    by (cases "vote_type v") (simp_all add: shc1_def recorded_def)
  ultimately show ?thesis
    using mono [of t] mono [of "vote_type v"]
    by (auto simp: fmsubset.rep_eq map_le_def dom_def intro: fmsubset_trans)
qed

section \<open>A small network\<close>

text \<open>
  Four validators, blocks that are their own hash and are streamed as one chunk, a transport that
  never fails. Node 2 is not the proposer.
\<close>

definition demo_context :: "(nat, nat) consensus_context" where
  "demo_context =
     \<lparr>ctx_block_id = (\<lambda>b. b), ctx_build_proposal = (\<lambda>height. ([height + 1000], Some (height + 1000))),
      ctx_validate_proposal = (\<lambda>height content. case content of [b] \<Rightarrow> Some b | _ \<Rightarrow> None),
      ctx_validators = (\<lambda>height. [1, 2, 3, 4]), ctx_proposer = (\<lambda>vs height. 1),
      ctx_broadcast = (\<lambda>sent m. Inr ()), ctx_propose = (\<lambda>init content. Inr True)\<rparr>"

definition demo_vote :: "vote_type \<Rightarrow> validator_id \<Rightarrow> vote" where
  "demo_vote vtype voter =
     \<lparr>vote_type = vtype, vote_height = 5, vote_block_hash = 7, vote_voter = voter\<rparr>"

definition demo_proposal :: "nat proposal" where
  "demo_proposal =
     \<lparr>prop_height = 5, prop_proposer = 1, prop_transactions = [7], prop_block_hash = 7\<rparr>"

definition demo_prefix :: "nat network" where
  "demo_prefix = [Inr (MsgProposal demo_proposal), Inr (MsgVote (demo_vote VtPrevote 1)),
     Inr (MsgVote (demo_vote VtPrevote 3))]"

definition demo_network :: "nat network" where
  "demo_network = demo_prefix @ [Inr (MsgVote (demo_vote VtPrecommit 1)),
     Inr (MsgVote \<lparr>vote_type = VtPrevote, vote_height = 6, vote_block_hash = 8, vote_voter = 3\<rparr>),
     Inr (MsgVote (demo_vote VtPrecommit 4))]"

definition demo_network4 :: "nat network" where
  "demo_network4 = demo_prefix @ [Inr (MsgVote (demo_vote VtPrecommit 1)),
     Inr (MsgVote (demo_vote VtPrecommit 2))]"

lemmas shc_eval = run_height_def run_height_message_def proposal_wrapper_into_def
  shc_start_def shc_new_def shc_handle_proposal_def shc_handle_vote_def shc_sm_event_def
  handle_state_machine_events.simps handle_state_machine_start_round_def
  handle_state_machine_vote_def handle_state_machine_decision_def supporting_precommits_def
  round_zero_def
  demo_context_def demo_vote_def demo_proposal_def demo_prefix_def demo_network_def
  demo_network4_def

lemma demo_run:
  "\<exists>d shc cached. run_height key_order demo_context 5 2 demo_network [] = Inr (d, shc, cached, [])"
  by (simp add: shc_eval sm_eval)

lemma demo_run4:
  "\<exists>d shc cached. run_height key_order demo_context 5 4 demo_network4 [] = Inr (d, shc, cached, [])"
  by (simp add: shc_eval sm_eval)

lemma demo_runs:
  "\<exists>out. run_consensus_heights key_order demo_context 2 1 5 demo_network [] = Inr out"
  by (simp add: shc_eval sm_eval)

lemma demo_vote_run:
  "\<exists>shc d. shc_handle_vote key_order demo_context
      (shc_new 5 2 [1, 2, 3, 4]) (demo_vote VtPrevote 3) = Inr (shc, d)"
  by (simp add: shc_eval sm_eval)

section \<open>Properties\<close>

text \<open>
  \<^bold>\<open>C3.\<close> What a height decides is certified: the decision of \<open>run_height\<close> carries precommits for
  the decided block and height, from distinct validators of the height, that reach the quorum.
\<close>

theorem height_decision_certified:
  assumes "iteration_order ord"
    and "run_height ord ctx height ident network cached = Inr (decision, shc, cached', network')"
  shows "certificate height (ctx_validators ctx height) (ctx_block_id ctx (dec_block decision))
    (dec_precommits decision)"
  using run_height_inv [OF assms] by (simp add: decision_ok_def)

theorem height_decision_certified_witness:
  "\<exists>d shc cached. run_height key_order demo_context 5 2 demo_network [] = Inr (d, shc, cached, []) \<and>
     certificate 5 [1, 2, 3, 4] (dec_block d) (dec_precommits d)"
proof -
  obtain d shc cached where
    run: "run_height key_order demo_context 5 2 demo_network [] = Inr (d, shc, cached, [])"
    using demo_run by blast
  show ?thesis
    using run height_decision_certified [OF iteration_order_key_order run]
    by (simp add: demo_context_def)
qed

text \<open>
  \<^bold>\<open>C2.\<close> Agreement: when two nodes with the same validators decide the same height, they decide
  blocks of the same id, or more than a third of the validators have signed precommits of that
  height for two different blocks.
\<close>

theorem height_agreement:
  assumes "iteration_order ord1" "iteration_order ord2"
    and "run_height ord1 ctx1 height ident1 network1 cached1 = Inr (d1, shc1, cached1', network1')"
    and "run_height ord2 ctx2 height ident2 network2 cached2 = Inr (d2, shc2, cached2', network2')"
    and "ctx_validators ctx1 height = vs" "ctx_validators ctx2 height = vs"
    and "distinct vs" "length vs < 2 ^ 31"
  shows "ctx_block_id ctx1 (dec_block d1) = ctx_block_id ctx2 (dec_block d2) \<or>
    length vs < 3 * card {v \<in> set vs. \<exists>x \<in> set (dec_precommits d1). \<exists>y \<in> set (dec_precommits d2).
      vote_voter x = v \<and> vote_voter y = v \<and> vote_height x = height \<and> vote_height y = height \<and>
      vote_block_hash x \<noteq> vote_block_hash y}"
proof (cases "ctx_block_id ctx1 (dec_block d1) = ctx_block_id ctx2 (dec_block d2)")
  case False
  let ?p1 = "dec_precommits d1" and ?p2 = "dec_precommits d2"
  have c1: "certificate height vs (ctx_block_id ctx1 (dec_block d1)) ?p1"
    using run_height_inv [OF assms(1,3)] assms(5) by (simp add: decision_ok_def)
  have c2: "certificate height vs (ctx_block_id ctx2 (dec_block d2)) ?p2"
    using run_height_inv [OF assms(2,4)] assms(6) by (simp add: decision_ok_def)
  have "vote_voter ` set ?p1 \<inter> vote_voter ` set ?p2 \<subseteq> {v \<in> set vs. \<exists>x \<in> set ?p1. \<exists>y \<in> set ?p2.
      vote_voter x = v \<and> vote_voter y = v \<and> vote_height x = height \<and> vote_height y = height \<and>
      vote_block_hash x \<noteq> vote_block_hash y}" (is "_ \<subseteq> ?E")
  proof
    fix v assume "v \<in> vote_voter ` set ?p1 \<inter> vote_voter ` set ?p2"
    then obtain x y where xy: "x \<in> set ?p1" "vote_voter x = v" "y \<in> set ?p2" "vote_voter y = v"
      by auto
    with c1 c2 have "vote_height x = height" "vote_height y = height" "v \<in> set vs"
      "vote_block_hash x = ctx_block_id ctx1 (dec_block d1)"
      "vote_block_hash y = ctx_block_id ctx2 (dec_block d2)"
      by (auto simp: certificate_def)
    with xy False show "v \<in> ?E" by (intro CollectI conjI bexI [of _ x] bexI [of _ y]) simp_all
  qed
  then have "card (vote_voter ` set ?p1 \<inter> vote_voter ` set ?p2) \<le> card ?E"
    by (intro card_mono) simp_all
  with certificates_intersect [OF c1 c2 assms(7,8)] show ?thesis by linarith
qed simp

theorem height_agreement_witness:
  "\<exists>d1 shc1 cached1 d2 shc2 cached2.
     run_height key_order demo_context 5 2 demo_network [] = Inr (d1, shc1, cached1, []) \<and>
     run_height key_order demo_context 5 4 demo_network4 [] = Inr (d2, shc2, cached2, []) \<and>
     (dec_block d1 = dec_block d2 \<or>
      length [1, 2, 3, 4 :: nat] < 3 * card {v \<in> set [1, 2, 3, 4].
        \<exists>x \<in> set (dec_precommits d1). \<exists>y \<in> set (dec_precommits d2).
        vote_voter x = v \<and> vote_voter y = v \<and> vote_height x = 5 \<and> vote_height y = 5 \<and>
        vote_block_hash x \<noteq> vote_block_hash y})"
proof -
  obtain d1 shc1 cached1 where
    run1: "run_height key_order demo_context 5 2 demo_network [] = Inr (d1, shc1, cached1, [])"
    using demo_run by blast
  obtain d2 shc2 cached2 where
    run2: "run_height key_order demo_context 5 4 demo_network4 [] = Inr (d2, shc2, cached2, [])"
    using demo_run4 by blast
  have vs: "ctx_validators demo_context 5 = [1, 2, 3, 4]" by (simp add: demo_context_def)
  have ident: "ctx_block_id demo_context b = b" for b by (simp add: demo_context_def)
  note agree = height_agreement [OF iteration_order_key_order iteration_order_key_order run1 run2 vs vs,
      unfolded ident]
  show ?thesis
    by (rule exI [of _ d1], rule exI [of _ shc1], rule exI [of _ cached1], rule exI [of _ d2],
        rule exI [of _ shc2], rule exI [of _ cached2], intro conjI run1 run2, rule agree) simp_all
qed



text \<open>
  \<^bold>\<open>C28.\<close> No message for a later height is lost: of the messages cached before and received during a
  height, exactly those for later heights are cached after it, in the order they came.
\<close>

theorem future_messages_kept:
  assumes "iteration_order ord"
    and "run_height ord ctx height ident network cached = Inr (decision, shc, cached', network')"
  shows "\<exists>consumed. network = map Inr consumed @ network' \<and>
    filter (\<lambda>m. height < msg_height m) cached' =
    filter (\<lambda>m. height < msg_height m) (cached @ consumed)"
  using run_height_inv [OF assms] by blast

theorem future_messages_kept_witness:
  "\<exists>d shc cached'. run_height key_order demo_context 5 2 demo_network [] = Inr (d, shc, cached', []) \<and>
     (\<exists>consumed. demo_network = map Inr consumed @ [] \<and>
        filter (\<lambda>m. 5 < msg_height m) cached' = filter (\<lambda>m. 5 < msg_height m) ([] @ consumed))"
proof -
  obtain d shc cached' where
    run: "run_height key_order demo_context 5 2 demo_network [] = Inr (d, shc, cached', [])"
    using demo_run by blast
  from run future_messages_kept [OF iteration_order_key_order run] show ?thesis by blast
qed



text \<open>
  A recorded vote is final: handling a vote message never changes or drops a recorded vote,
  and after it the vote recorded for the voter is for the hash of the message. So a replay is
  ignored and a second, different vote of the same voter is never accepted.
\<close>

theorem recorded_votes_final:
  assumes "shc_handle_vote ord ctx shc v = Inr (shc', d)"
  shows "recorded shc t \<subseteq>\<^sub>f recorded shc' t \<and>
    (\<exists>x. fmlookup (recorded shc' (vote_type v)) (round_zero, vote_voter v) = Some x \<and>
       vote_block_hash x = vote_block_hash v)"
  using shc_handle_vote_recorded [OF assms] .

theorem recorded_votes_final_witness:
  "\<exists>shc :: (nat, nat) shc. \<exists>x. fmlookup (recorded shc VtPrevote) (round_zero, 3) = Some x \<and>
     vote_block_hash x = 7"
proof -
  obtain shc d where run: "shc_handle_vote key_order demo_context (shc_new 5 2 [1, 2, 3, 4])
      (demo_vote VtPrevote 3) = Inr (shc, d)" using demo_vote_run by blast
  show ?thesis using recorded_votes_final [OF run, of VtPrevote] by (auto simp: demo_vote_def)
qed


end
