(* ===== verification/Storage_Tables.thy ===== *)
theory Storage_Tables
  imports Prelude "HOL-Library.Product_Lexorder"
begin

text \<open>
  The table interface of the storage crate: the \<open>Table\<close> and \<open>DbCursorTrait\<close> traits of
  \<open>crates/papyrus_storage/src/db/table_types/mod.rs\<close>, as every storage module uses them, and the
  errors of \<open>db/mod.rs\<close>. A table is a finite map over ordered keys; a cursor is a position among the
  keys in increasing order. Each operation does what the trait documents; failures of the database
  library itself (a full disk, a corrupt page) are not represented.

  The locale \<open>ordered_table\<close> is what the modules above rely on: reading back what was written, and
  finding the last entry before a key. It is interpreted on the model's tables at the end.
\<close>

section \<open>Errors\<close>

datatype db_error =
    DbInner
  | DbKeyAlreadyExists string
  | DbInnerDeserialization
  | DbSerialization
  | DbFileDoesNotExist string
  | DbAppend

section \<open>Tables\<close>

type_synonym ('k, 'v) table = "('k, 'v) fmap"

definition tbl_get :: "('k, 'v) table \<Rightarrow> 'k \<Rightarrow> 'v option" where
  "tbl_get t k = fmlookup t k"

definition tbl_upsert :: "('k, 'v) table \<Rightarrow> 'k \<Rightarrow> 'v \<Rightarrow> ('k, 'v) table" where
  "tbl_upsert t k v = fmupd k v t"

definition tbl_insert ::
  "string \<Rightarrow> ('k, 'v) table \<Rightarrow> 'k \<Rightarrow> 'v \<Rightarrow> (db_error, ('k, 'v) table) result" where
  "tbl_insert name t k v =
     (if tbl_get t k \<noteq> None then Inl (DbKeyAlreadyExists name) else Inr (fmupd k v t))"

definition tbl_keys :: "('k :: linorder, 'v) table \<Rightarrow> 'k list" where
  "tbl_keys t = sorted_list_of_fset (fmdom t)"

definition tbl_append ::
  "('k :: linorder, 'v) table \<Rightarrow> 'k \<Rightarrow> 'v \<Rightarrow> (db_error, ('k, 'v) table) result" where
  "tbl_append t k v =
     (if \<forall>k' \<in> set (tbl_keys t). k' \<le> k then Inr (fmupd k v t) else Inl DbAppend)"

definition tbl_delete :: "('k, 'v) table \<Rightarrow> 'k \<Rightarrow> ('k, 'v) table" where
  "tbl_delete t k = fmdrop k t"

text \<open>Tables with a common prefix: the sub-key must be greater than every sub-key of the main key.\<close>

definition tbl_append_greater_sub_key ::
  "('m :: linorder \<times> 's :: linorder, 'v) table \<Rightarrow> 'm \<times> 's \<Rightarrow> 'v \<Rightarrow>
   (db_error, ('m \<times> 's, 'v) table) result" where
  "tbl_append_greater_sub_key t k v =
     (if \<forall>k' \<in> set (tbl_keys t). fst k' = fst k \<longrightarrow> snd k' < snd k then Inr (fmupd k v t)
      else Inl DbAppend)"

section \<open>Cursors\<close>

datatype 'k cursor = CurStart | CurAt 'k | CurEnd

definition tbl_entry :: "('k, 'v) table \<Rightarrow> 'k \<Rightarrow> 'k \<times> 'v" where
  "tbl_entry t k = (k, the (fmlookup t k))"

fun list_last :: "'a list \<Rightarrow> 'a option" where
  "list_last [] = None"
| "list_last (x # xs) = Some (last (x # xs))"

definition cursor_lower_bound ::
  "('k :: linorder, 'v) table \<Rightarrow> 'k \<Rightarrow> 'k cursor \<times> ('k \<times> 'v) option" where
  "cursor_lower_bound t k =
     (case List.find (\<lambda>x. k \<le> x) (tbl_keys t) of
        None \<Rightarrow> (CurEnd, None)
      | Some k' \<Rightarrow> (CurAt k', Some (tbl_entry t k')))"

definition cursor_prev ::
  "('k :: linorder, 'v) table \<Rightarrow> 'k cursor \<Rightarrow> 'k cursor \<times> ('k \<times> 'v) option" where
  "cursor_prev t c =
     (case list_last (filter (\<lambda>x. case c of CurAt k \<Rightarrow> x < k | _ \<Rightarrow> True) (tbl_keys t)) of
        None \<Rightarrow> (c, None)
      | Some k' \<Rightarrow> (CurAt k', Some (tbl_entry t k')))"

definition cursor_next ::
  "('k :: linorder, 'v) table \<Rightarrow> 'k cursor \<Rightarrow> 'k cursor \<times> ('k \<times> 'v) option" where
  "cursor_next t c =
     (case List.find (\<lambda>x. case c of CurStart \<Rightarrow> True | CurAt k \<Rightarrow> k < x | CurEnd \<Rightarrow> False) (tbl_keys t) of
        None \<Rightarrow> (CurEnd, None)
      | Some k' \<Rightarrow> (CurAt k', Some (tbl_entry t k')))"

text \<open>
  \<open>lower_bound\<close> followed by \<open>prev\<close>, the way the code finds the last entry strictly before a key.
\<close>

definition tbl_before :: "('k :: linorder, 'v) table \<Rightarrow> 'k \<Rightarrow> ('k \<times> 'v) option" where
  "tbl_before t k = snd (cursor_prev t (fst (cursor_lower_bound t k)))"

section \<open>Lemmas\<close>

lemma tbl_keys_set [simp]: "set (tbl_keys t) = fset (fmdom t)"
  by (simp add: tbl_keys_def)

lemma tbl_keys_sorted [simp]: "sorted (tbl_keys t)" and tbl_keys_distinct [simp]: "distinct (tbl_keys t)"
  by (simp_all add: tbl_keys_def sorted_list_of_fset.rep_eq)

lemma tbl_keys_empty [simp]: "tbl_keys fmempty = []"
  by (simp add: tbl_keys_def sorted_list_of_fset.rep_eq)

lemma tbl_keys_upd:
  "tbl_keys (fmupd k v t) = (if k \<in> set (tbl_keys t) then tbl_keys t else insort k (tbl_keys t))"
  by (simp add: tbl_keys_def sorted_list_of_fset.rep_eq insert_absorb del: sorted_list_of_set_insert_remove)

lemmas table_defs = tbl_get_def tbl_upsert_def tbl_insert_def tbl_delete_def

lemma fold_tbl_delete:
  "fold (\<lambda>e t. tbl_delete t (f e)) es t = fmfilter (\<lambda>k. k \<notin> f ` set es) t"
proof (induction es arbitrary: t)
  case (Cons e es)
  then show ?case by (intro fmap_ext) (simp add: tbl_delete_def)
qed (simp add: fmap_ext)

lemma find_sorted_eq_Some:
  assumes "sorted xs"
  shows "List.find (\<lambda>x. k \<le> x) xs = Some y \<longleftrightarrow>
    y \<in> set xs \<and> k \<le> y \<and> (\<forall>x \<in> set xs. k \<le> x \<longrightarrow> y \<le> x)"
  using assms by (induction xs) force+

lemma list_last_None [simp]: "list_last xs = None \<longleftrightarrow> xs = []"
  by (cases xs) simp_all

lemma list_last_eq_Some:
  assumes "sorted xs"
  shows "list_last xs = Some y \<longleftrightarrow> y \<in> set xs \<and> (\<forall>x \<in> set xs. x \<le> y)"
proof (cases "xs = []")
  case False
  have "x \<le> last xs" if "x \<in> set xs" for x using that assms
    by (induction xs) auto
  moreover have "list_last xs = Some (last xs)" using False by (cases xs) simp_all
  ultimately show ?thesis using last_in_set [OF False] by (metis antisym option.inject)
qed simp

lemma tbl_before_alt:
  "tbl_before t k =
     map_option (tbl_entry t) (list_last (filter (\<lambda>x. x < k) (tbl_keys t)))"
proof (cases "List.find (\<lambda>x. k \<le> x) (tbl_keys t)")
  case None
  then have "\<forall>x \<in> set (tbl_keys t). x < k" by (auto simp: find_None_iff)
  then have "filter (\<lambda>x. x < k) (tbl_keys t) = tbl_keys t" by (simp add: filter_id_conv)
  with None show ?thesis
    by (simp add: tbl_before_def cursor_lower_bound_def cursor_prev_def split: option.split)
next
  case (Some y)
  then have y: "y \<in> set (tbl_keys t)" "k \<le> y" "\<forall>x \<in> set (tbl_keys t). k \<le> x \<longrightarrow> y \<le> x"
    by (simp_all add: find_sorted_eq_Some)
  have "x < y \<longleftrightarrow> x < k" if "x \<in> set (tbl_keys t)" for x
    using y that by (metis linorder_not_less order.strict_trans2)
  then have "filter (\<lambda>x. x < y) (tbl_keys t) = filter (\<lambda>x. x < k) (tbl_keys t)"
    by (intro filter_cong) auto
  with Some show ?thesis
    by (simp add: tbl_before_def cursor_lower_bound_def cursor_prev_def split: option.split)
qed

lemma list_last_below:
  "list_last (filter (\<lambda>x. x < k) (tbl_keys t)) = Some k' \<longleftrightarrow>
     k' |\<in>| fmdom t \<and> k' < k \<and> (\<forall>x. x |\<in>| fmdom t \<longrightarrow> x < k \<longrightarrow> x \<le> k')"
  using list_last_eq_Some [of "filter (\<lambda>x. x < k) (tbl_keys t)"]
  by (auto simp: sorted_wrt_filter)

lemma tbl_before_eq_Some:
  "tbl_before t k = Some (k', v) \<longleftrightarrow>
     fmlookup t k' = Some v \<and> k' < k \<and> (\<forall>x. x |\<in>| fmdom t \<longrightarrow> x < k \<longrightarrow> x \<le> k')"
  by (auto simp: tbl_before_alt list_last_below tbl_entry_def fmlookup_dom_iff)

lemma tbl_before_eq_None: "tbl_before t k = None \<longleftrightarrow> (\<forall>x. x |\<in>| fmdom t \<longrightarrow> \<not> x < k)"
  by (auto simp: tbl_before_alt filter_empty_conv)

text \<open>Where the cursor stands decides what is left to visit.\<close>

fun cursor_left :: "'k :: linorder cursor \<Rightarrow> 'k \<Rightarrow> bool" where
  "cursor_left CurStart k = True"
| "cursor_left (CurAt k0) k = (k0 < k)"
| "cursor_left CurEnd k = False"

definition cursor_remaining :: "('k :: linorder, 'v) table \<Rightarrow> 'k cursor \<Rightarrow> 'k list" where
  "cursor_remaining t c = filter (cursor_left c) (tbl_keys t)"

lemma find_eq_filter: "List.find P xs = (case filter P xs of [] \<Rightarrow> None | x # _ \<Rightarrow> Some x)"
  by (induction xs) auto

lemma cursor_next_remaining:
  "cursor_next t c =
     (case cursor_remaining t c of
        [] \<Rightarrow> (CurEnd, None)
      | k # _ \<Rightarrow> (CurAt k, Some (tbl_entry t k)))"
proof -
  have "(\<lambda>x. case c of CurStart \<Rightarrow> True | CurAt k \<Rightarrow> k < x | CurEnd \<Rightarrow> False) = cursor_left c"
    by (cases c) auto
  then show ?thesis
    by (simp add: cursor_next_def cursor_remaining_def find_eq_filter split: list.split)
qed

lemma filter_greater_sorted:
  assumes "sorted xs" "distinct xs" "filter P xs = k # ks"
    and "\<And>x y. x \<le> y \<Longrightarrow> P x \<Longrightarrow> P y"
  shows "filter (\<lambda>x. k < x) xs = ks"
  using assms(1-3)
proof (induction xs)
  case (Cons x xs)
  show ?case
  proof (cases "P x")
    case True
    with Cons.prems have k: "k = x" and ks: "filter P xs = ks" by simp_all
    have "x < y \<and> P y" if "y \<in> set xs" for y
      using Cons.prems(1,2) True assms(4) [of x y] that by (auto simp: order.strict_iff_order)
    then show ?thesis using k ks by (auto simp: filter_id_conv)
  next
    case False
    with Cons.prems have *: "filter P xs = k # ks" by simp
    then have "k \<in> set xs" by (metis filter_is_subset list.set_intros(1) subsetD)
    then have "\<not> k < x" using Cons.prems(1) by auto
    with Cons.IH [OF _ _ *] Cons.prems(1,2) show ?thesis by simp
  qed
qed simp

lemma cursor_remaining_at:
  assumes "cursor_remaining t c = k # ks"
  shows "cursor_remaining t (CurAt k) = ks"
proof -
  have "filter (\<lambda>x. k < x) (tbl_keys t) = ks"
    by (rule filter_greater_sorted [OF _ _ assms [unfolded cursor_remaining_def]])
      (cases c; auto)+
  moreover have "cursor_left (CurAt k) = (\<lambda>x. k < x)" by auto
  ultimately show ?thesis by (simp add: cursor_remaining_def)
qed

lemma cursor_lower_bound_remaining:
  "cursor_lower_bound t k =
     (case filter (\<lambda>x. k \<le> x) (tbl_keys t) of
        [] \<Rightarrow> (CurEnd, None)
      | k' # ks \<Rightarrow> (CurAt k', Some (tbl_entry t k')))"
  by (simp add: cursor_lower_bound_def find_eq_filter split: list.split)

lemma lower_bound_remaining_at:
  assumes "filter (\<lambda>x. k \<le> x) (tbl_keys t) = k' # ks"
  shows "cursor_remaining t (CurAt k') = ks"
proof -
  have "filter (\<lambda>x. k' < x) (tbl_keys t) = ks"
    by (rule filter_greater_sorted [OF _ _ assms]) auto
  moreover have "cursor_left (CurAt k') = (\<lambda>x. k' < x)" by auto
  ultimately show ?thesis by (simp add: cursor_remaining_def)
qed

section \<open>The interface\<close>

locale ordered_table =
  fixes get :: "'t \<Rightarrow> 'k :: linorder \<Rightarrow> 'v option"
    and put :: "'t \<Rightarrow> 'k \<Rightarrow> 'v \<Rightarrow> 't"
    and del :: "'t \<Rightarrow> 'k \<Rightarrow> 't"
    and before :: "'t \<Rightarrow> 'k \<Rightarrow> ('k \<times> 'v) option"
  assumes get_put: "get (put t k v) k' = (if k' = k then Some v else get t k')"
    and get_del: "get (del t k) k' = (if k' = k then None else get t k')"
    and before_Some: "before t k = Some (k', v) \<longleftrightarrow>
      get t k' = Some v \<and> k' < k \<and> (\<forall>x. get t x \<noteq> None \<longrightarrow> x < k \<longrightarrow> x \<le> k')"
    and before_None: "before t k = None \<longleftrightarrow> (\<forall>x. get t x \<noteq> None \<longrightarrow> \<not> x < k)"
begin

lemma before_cong:
  assumes "\<And>x. x < k \<Longrightarrow> get t x = get t' x"
  shows "before t k = before t' k"
proof (cases "before t k")
  case None
  then have "before t' k = None" unfolding before_None using assms by metis
  with None show ?thesis by simp
next
  case (Some e)
  then obtain k' v where "before t k = Some (k', v)" by (cases e) auto
  moreover from this have "before t' k = Some (k', v)" unfolding before_Some using assms by metis
  ultimately show ?thesis by simp
qed

lemma before_put_later: "k \<le> k' \<Longrightarrow> before (put t k' v) k = before t k"
  by (rule before_cong) (auto simp: get_put)

lemma before_del_later: "k \<le> k' \<Longrightarrow> before (del t k') k = before t k"
  by (rule before_cong) (auto simp: get_del)

lemma before_put_next:
  assumes "k' < k" and "\<And>x. get t x \<noteq> None \<Longrightarrow> x < k \<Longrightarrow> x \<le> k'"
  shows "before (put t k' v) k = Some (k', v)"
  using assms by (auto simp: before_Some get_put split: if_splits)

lemma before_skip:
  assumes "k' \<le> k" and "\<And>x. get t x \<noteq> None \<Longrightarrow> k' \<le> x \<Longrightarrow> \<not> x < k"
  shows "before t k = before t k'"
proof (cases "before t k'")
  case None
  then have "before t k = None" unfolding before_None using assms(2) by (meson linorder_not_less)
  with None show ?thesis by simp
next
  case (Some e)
  then obtain x v where e: "before t k' = Some (x, v)" by (cases e) auto
  then have *: "get t x = Some v" "x < k'" "\<And>y. get t y \<noteq> None \<Longrightarrow> y < k' \<Longrightarrow> y \<le> x"
    by (simp_all add: before_Some)
  have "y \<le> x" if "get t y \<noteq> None" "y < k" for y
    using that assms(2) [of y] *(3) [of y] linorder_not_less by blast
  then have "before t k = Some (x, v)" unfolding before_Some using * assms(1) by auto
  with e show ?thesis by simp
qed

end

interpretation tbl: ordered_table tbl_get tbl_upsert tbl_delete tbl_before
  by unfold_locales
    (auto simp: table_defs tbl_before_eq_Some tbl_before_eq_None fmlookup_dom_iff)

end
