(* ===== verification/Storage_Txn.thy ===== *)
theory Storage_Txn
  imports Storage_Tables
begin

text \<open>
  The transaction that every storage module works on: \<open>StorageTxn\<close>, \<open>Tables\<close>, \<open>FileHandlers\<close>,
  \<open>MarkerKind\<close>, \<open>StorageError\<close> of \<open>crates/papyrus_storage/src/lib.rs\<close>, and the data the modules
  store. A read-write transaction is the state it would commit: an operation returns the updated
  transaction, or a failure, after which the transaction is dropped (the code consumes \<open>self\<close>).

  \<^item> Every table is a finite map (\<open>Storage_Tables\<close>). \<open>open_table\<close> fails only for the three tables
    that are unused in the state-only scope; the operations below call it exactly for those.
  \<^item> An append-only file is a map from locations to the objects written there and the next free
    offset. The serialized length of an object is a parameter, \<open>serde_sizes\<close>, of the operations
    that append to a file. The byte-level file is in \<open>Storage_Mmap\<close>.
  \<^item> Payloads that the storage only copies (transactions, classes, signatures, commitments) are
    opaque values. An \<open>IndexMap\<close> is its list of entries in insertion order.
\<close>

section \<open>Payloads\<close>

type_synonym class_hash = felt
type_synonym compiled_class_hash = felt
type_synonym nonce = felt
type_synonym storage_key = felt
type_synonym tx_hash = felt
type_synonym block_signature = nat
type_synonym sierra_class = nat
type_synonym cairo0_class = nat
type_synonym casm_class = nat
type_synonym transaction = nat
type_synonym event_content = nat
type_synonym starknet_version = string
type_synonym tx_index = "block_number \<times> nat"

record event =
  ev_from_address :: contract_address
  ev_content :: event_content

record tx_output =
  out_events :: "event list"
  out_rest :: nat

record block_body =
  bb_transactions :: "transaction list"
  bb_transaction_outputs :: "tx_output list"
  bb_transaction_hashes :: "tx_hash list"

record thin_state_diff =
  tsd_deployed_contracts :: "(contract_address \<times> class_hash) list"
  tsd_storage_diffs :: "(contract_address \<times> (storage_key \<times> felt) list) list"
  tsd_declared_classes :: "(class_hash \<times> compiled_class_hash) list"
  tsd_deprecated_declared_classes :: "class_hash list"
  tsd_nonces :: "(contract_address \<times> nonce) list"
  tsd_replaced_classes :: "(contract_address \<times> class_hash) list"

record storage_block_header =
  sbh_block_hash :: block_hash
  sbh_parent_hash :: block_hash
  sbh_block_number :: block_number
  sbh_l1_gas_price :: "nat \<times> nat"
  sbh_l1_data_gas_price :: "nat \<times> nat"
  sbh_state_root :: felt
  sbh_sequencer :: contract_address
  sbh_timestamp :: nat
  sbh_l1_da_mode :: bool
  sbh_state_diff_commitment :: "felt option"
  sbh_transaction_commitment :: "felt option"
  sbh_event_commitment :: "felt option"
  sbh_receipt_commitment :: "felt option"
  sbh_state_diff_length :: "nat option"
  sbh_n_transactions :: nat
  sbh_n_events :: nat

text \<open>\<open>BlockHeader\<close> has the fields of \<open>StorageBlockHeader\<close> and the Starknet version.\<close>

record block_header = storage_block_header +
  bh_starknet_version :: starknet_version

section \<open>Files\<close>

record location_in_file =
  loc_offset :: nat
  loc_len :: nat

definition next_offset :: "location_in_file \<Rightarrow> nat" where
  "next_offset loc = loc_offset loc + loc_len loc"

record 'a file_handler =
  fh_offset :: nat
  fh_objects :: "(location_in_file, 'a) fmap"

definition file_append :: "('a \<Rightarrow> nat) \<Rightarrow> 'a file_handler \<Rightarrow> 'a \<Rightarrow> 'a file_handler \<times> location_in_file" where
  "file_append len f v =
     (let loc = \<lparr>loc_offset = fh_offset f, loc_len = len v\<rparr> in
      (f\<lparr>fh_offset := next_offset loc, fh_objects := fmupd loc v (fh_objects f)\<rparr>, loc))"

definition file_get :: "'a file_handler \<Rightarrow> location_in_file \<Rightarrow> 'a option" where
  "file_get f loc = fmlookup (fh_objects f) loc"

record file_handlers =
  fs_thin_state_diff :: "thin_state_diff file_handler"
  fs_contract_class :: "sierra_class file_handler"
  fs_casm :: "casm_class file_handler"
  fs_deprecated_contract_class :: "cairo0_class file_handler"
  fs_transaction_output :: "tx_output file_handler"
  fs_transaction :: "transaction file_handler"

record serde_sizes =
  sz_thin_state_diff :: "thin_state_diff \<Rightarrow> nat"
  sz_contract_class :: "sierra_class \<Rightarrow> nat"
  sz_casm :: "casm_class \<Rightarrow> nat"
  sz_deprecated_contract_class :: "cairo0_class \<Rightarrow> nat"
  sz_transaction_output :: "tx_output \<Rightarrow> nat"
  sz_transaction :: "transaction \<Rightarrow> nat"

text \<open>A serialized object has at least one byte (its version).\<close>

definition sizes_positive :: "serde_sizes \<Rightarrow> bool" where
  "sizes_positive sz \<longleftrightarrow>
     (\<forall>x. 0 < sz_thin_state_diff sz x) \<and> (\<forall>x. 0 < sz_contract_class sz x) \<and>
     (\<forall>x. 0 < sz_casm sz x) \<and> (\<forall>x. 0 < sz_deprecated_contract_class sz x) \<and>
     (\<forall>x. 0 < sz_transaction_output sz x) \<and> (\<forall>x. 0 < sz_transaction sz x)"

section \<open>Markers, scopes, versions\<close>

datatype marker_kind =
    MkHeader | MkBody | MkEvent | MkState | MkClass | MkCompiledClass | MkBaseLayerBlock

datatype offset_kind =
    OkThinStateDiff | OkContractClass | OkCasm | OkDeprecatedContractClass
  | OkTransactionOutput | OkTransaction

datatype storage_scope = FullArchive | StateOnly

record version =
  ver_major :: u32
  ver_minor :: u32

record transaction_metadata =
  tm_tx_hash :: tx_hash
  tm_tx_location :: location_in_file
  tm_tx_output_location :: location_in_file

record indexed_deprecated_contract_class =
  idc_block_number :: block_number
  idc_location_in_file :: location_in_file

section \<open>Failures\<close>

datatype storage_version_error =
    InconsistentStorageVersion version version
  | InconsistentStorageScope
  | SetLowerVersion version version
  | SetMajorVersion version version

datatype storage_error =
    InnerError db_error
  | MarkerMismatch block_number block_number
  | DBInconsistency string
  | StorageVersionInconsistency storage_version_error
  | ScopeError string storage_scope
  | BlockSignatureForNonExistingBlock block_number block_signature

datatype storage_failure = SErr storage_error | SPanic string

type_synonym 'a sresult = "(storage_failure, 'a) result"

definition db_res :: "(db_error, 'a) result \<Rightarrow> 'a sresult" where
  "db_res r = (case r of Inl e \<Rightarrow> Inl (SErr (InnerError e)) | Inr x \<Rightarrow> Inr x)"

section \<open>The transaction\<close>

record storage_txn =
  tx_block_hash_to_number :: "(block_hash, block_number) table"
  tx_block_signatures :: "(block_number, block_signature) table"
  tx_casms :: "(class_hash, location_in_file) table"
  tx_contract_storage :: "((contract_address \<times> storage_key) \<times> block_number, felt) table"
  tx_declared_classes :: "(class_hash, location_in_file) table"
  tx_declared_classes_block :: "(class_hash, block_number) table"
  tx_deprecated_declared_classes :: "(class_hash, indexed_deprecated_contract_class) table"
  tx_deployed_contracts :: "(contract_address \<times> block_number, class_hash) table"
  tx_events :: "(contract_address \<times> tx_index, unit) table"
  tx_headers :: "(block_number, storage_block_header) table"
  tx_markers :: "(marker_kind, block_number) table"
  tx_nonces :: "(contract_address \<times> block_number, nonce) table"
  tx_file_offsets :: "(offset_kind, nat) table"
  tx_state_diffs :: "(block_number, location_in_file) table"
  tx_transaction_hash_to_idx :: "(tx_hash, tx_index) table"
  tx_transaction_metadata :: "(tx_index, transaction_metadata) table"
  tx_starknet_version :: "(block_number, starknet_version) table"
  tx_storage_version :: "(string, version) table"
  tx_file_handlers :: file_handlers
  tx_scope :: storage_scope

definition unused_tables :: "string list" where
  "unused_tables = [''events'', ''transaction_hash_to_idx'', ''transaction_metadata'']"

definition open_table :: "storage_txn \<Rightarrow> string \<Rightarrow> unit sresult" where
  "open_table txn name =
     (if tx_scope txn = StateOnly \<and> name \<in> set unused_tables
      then Inl (SErr (ScopeError name (tx_scope txn))) else Inr ())"

definition get_marker :: "storage_txn \<Rightarrow> marker_kind \<Rightarrow> block_number" where
  "get_marker txn kind = (case tbl_get (tx_markers txn) kind of None \<Rightarrow> 0 | Some b \<Rightarrow> b)"

definition set_marker :: "storage_txn \<Rightarrow> marker_kind \<Rightarrow> block_number \<Rightarrow> storage_txn" where
  "set_marker txn kind b = txn\<lparr>tx_markers := tbl_upsert (tx_markers txn) kind b\<rparr>"

definition set_file_offset :: "storage_txn \<Rightarrow> offset_kind \<Rightarrow> location_in_file \<Rightarrow> storage_txn" where
  "set_file_offset txn kind loc =
     txn\<lparr>tx_file_offsets := tbl_upsert (tx_file_offsets txn) kind (next_offset loc)\<rparr>"

subsection \<open>Appending to the files\<close>

definition append_thin_state_diff ::
  "serde_sizes \<Rightarrow> storage_txn \<Rightarrow> thin_state_diff \<Rightarrow> storage_txn \<times> location_in_file" where
  "append_thin_state_diff sz txn v =
     (let fs = tx_file_handlers txn;
          (f, loc) = file_append (sz_thin_state_diff sz) (fs_thin_state_diff fs) v
      in (txn\<lparr>tx_file_handlers := fs\<lparr>fs_thin_state_diff := f\<rparr>\<rparr>, loc))"

definition append_contract_class ::
  "serde_sizes \<Rightarrow> storage_txn \<Rightarrow> sierra_class \<Rightarrow> storage_txn \<times> location_in_file" where
  "append_contract_class sz txn v =
     (let fs = tx_file_handlers txn;
          (f, loc) = file_append (sz_contract_class sz) (fs_contract_class fs) v
      in (txn\<lparr>tx_file_handlers := fs\<lparr>fs_contract_class := f\<rparr>\<rparr>, loc))"

definition append_casm_file ::
  "serde_sizes \<Rightarrow> storage_txn \<Rightarrow> casm_class \<Rightarrow> storage_txn \<times> location_in_file" where
  "append_casm_file sz txn v =
     (let fs = tx_file_handlers txn;
          (f, loc) = file_append (sz_casm sz) (fs_casm fs) v
      in (txn\<lparr>tx_file_handlers := fs\<lparr>fs_casm := f\<rparr>\<rparr>, loc))"

definition append_deprecated_contract_class ::
  "serde_sizes \<Rightarrow> storage_txn \<Rightarrow> cairo0_class \<Rightarrow> storage_txn \<times> location_in_file" where
  "append_deprecated_contract_class sz txn v =
     (let fs = tx_file_handlers txn;
          (f, loc) = file_append (sz_deprecated_contract_class sz) (fs_deprecated_contract_class fs) v
      in (txn\<lparr>tx_file_handlers := fs\<lparr>fs_deprecated_contract_class := f\<rparr>\<rparr>, loc))"

definition append_transaction_output ::
  "serde_sizes \<Rightarrow> storage_txn \<Rightarrow> tx_output \<Rightarrow> storage_txn \<times> location_in_file" where
  "append_transaction_output sz txn v =
     (let fs = tx_file_handlers txn;
          (f, loc) = file_append (sz_transaction_output sz) (fs_transaction_output fs) v
      in (txn\<lparr>tx_file_handlers := fs\<lparr>fs_transaction_output := f\<rparr>\<rparr>, loc))"

definition append_transaction ::
  "serde_sizes \<Rightarrow> storage_txn \<Rightarrow> transaction \<Rightarrow> storage_txn \<times> location_in_file" where
  "append_transaction sz txn v =
     (let fs = tx_file_handlers txn;
          (f, loc) = file_append (sz_transaction sz) (fs_transaction fs) v
      in (txn\<lparr>tx_file_handlers := fs\<lparr>fs_transaction := f\<rparr>\<rparr>, loc))"

subsection \<open>Reading from the files\<close>

definition file_get_unchecked :: "string \<Rightarrow> 'a file_handler \<Rightarrow> location_in_file \<Rightarrow> 'a sresult" where
  "file_get_unchecked what f loc =
     (case file_get f loc of
        None \<Rightarrow> Inl (SErr (DBInconsistency what))
      | Some v \<Rightarrow> Inr v)"

definition get_thin_state_diff_unchecked :: "storage_txn \<Rightarrow> location_in_file \<Rightarrow> thin_state_diff sresult" where
  "get_thin_state_diff_unchecked txn =
     file_get_unchecked ''ThinStateDiff'' (fs_thin_state_diff (tx_file_handlers txn))"

definition get_contract_class_unchecked :: "storage_txn \<Rightarrow> location_in_file \<Rightarrow> sierra_class sresult" where
  "get_contract_class_unchecked txn =
     file_get_unchecked ''ContractClass'' (fs_contract_class (tx_file_handlers txn))"

definition get_casm_unchecked :: "storage_txn \<Rightarrow> location_in_file \<Rightarrow> casm_class sresult" where
  "get_casm_unchecked txn =
     file_get_unchecked ''CasmContractClass'' (fs_casm (tx_file_handlers txn))"

definition get_deprecated_contract_class_unchecked ::
  "storage_txn \<Rightarrow> location_in_file \<Rightarrow> cairo0_class sresult" where
  "get_deprecated_contract_class_unchecked txn =
     file_get_unchecked ''DeprecatedContractClass'' (fs_deprecated_contract_class (tx_file_handlers txn))"

definition get_transaction_output_unchecked :: "storage_txn \<Rightarrow> location_in_file \<Rightarrow> tx_output sresult" where
  "get_transaction_output_unchecked txn =
     file_get_unchecked ''TransactionOutput'' (fs_transaction_output (tx_file_handlers txn))"

definition get_transaction_unchecked :: "storage_txn \<Rightarrow> location_in_file \<Rightarrow> transaction sresult" where
  "get_transaction_unchecked txn =
     file_get_unchecked ''Transaction'' (fs_transaction (tx_file_handlers txn))"

subsection \<open>A new storage\<close>

definition empty_file :: "'a file_handler" where
  "empty_file = \<lparr>fh_offset = 0, fh_objects = fmempty\<rparr>"

definition empty_txn :: "storage_scope \<Rightarrow> storage_txn" where
  "empty_txn scope =
     \<lparr>tx_block_hash_to_number = fmempty, tx_block_signatures = fmempty, tx_casms = fmempty,
      tx_contract_storage = fmempty, tx_declared_classes = fmempty,
      tx_declared_classes_block = fmempty, tx_deprecated_declared_classes = fmempty,
      tx_deployed_contracts = fmempty, tx_events = fmempty, tx_headers = fmempty,
      tx_markers = fmempty, tx_nonces = fmempty, tx_file_offsets = fmempty,
      tx_state_diffs = fmempty, tx_transaction_hash_to_idx = fmempty,
      tx_transaction_metadata = fmempty, tx_starknet_version = fmempty,
      tx_storage_version = fmempty,
      tx_file_handlers = \<lparr>fs_thin_state_diff = empty_file, fs_contract_class = empty_file,
        fs_casm = empty_file, fs_deprecated_contract_class = empty_file,
        fs_transaction_output = empty_file, fs_transaction = empty_file\<rparr>,
      tx_scope = scope\<rparr>"

section \<open>Lemmas\<close>

lemma db_res_eq_Inr [res_simps]: "db_res r = Inr x \<longleftrightarrow> r = Inr x"
  by (cases r) (simp_all add: db_res_def)

lemma db_res_simps [simp]: "db_res (Inr x) = Inr x" "db_res (Inl e) = Inl (SErr (InnerError e))"
  by (simp_all add: db_res_def)

lemma tbl_insert_eq_Inr [res_simps]:
  "tbl_insert name t k v = Inr t' \<longleftrightarrow> fmlookup t k = None \<and> t' = fmupd k v t"
  by (auto simp: tbl_insert_def tbl_get_def)

lemma tbl_append_eq_Inr [res_simps]:
  "tbl_append t k v = Inr t' \<longleftrightarrow> (\<forall>k'. k' |\<in>| fmdom t \<longrightarrow> k' \<le> k) \<and> t' = fmupd k v t"
  by (auto simp: tbl_append_def)

lemma tbl_append_greater_eq_Inr [res_simps]:
  "tbl_append_greater_sub_key t k v = Inr t' \<longleftrightarrow>
     (\<forall>k'. k' |\<in>| fmdom t \<longrightarrow> fst k' = fst k \<longrightarrow> snd k' < snd k) \<and> t' = fmupd k v t"
  by (auto simp: tbl_append_greater_sub_key_def)

lemma get_marker_set_marker [simp]:
  "get_marker (set_marker txn k b) k' = (if k' = k then b else get_marker txn k')"
  by (simp add: get_marker_def set_marker_def table_defs)

lemma set_marker_fields [simp]:
  "tx_block_hash_to_number (set_marker txn k b) = tx_block_hash_to_number txn"
  "tx_block_signatures (set_marker txn k b) = tx_block_signatures txn"
  "tx_casms (set_marker txn k b) = tx_casms txn"
  "tx_contract_storage (set_marker txn k b) = tx_contract_storage txn"
  "tx_declared_classes (set_marker txn k b) = tx_declared_classes txn"
  "tx_declared_classes_block (set_marker txn k b) = tx_declared_classes_block txn"
  "tx_deprecated_declared_classes (set_marker txn k b) = tx_deprecated_declared_classes txn"
  "tx_deployed_contracts (set_marker txn k b) = tx_deployed_contracts txn"
  "tx_events (set_marker txn k b) = tx_events txn"
  "tx_headers (set_marker txn k b) = tx_headers txn"
  "tx_nonces (set_marker txn k b) = tx_nonces txn"
  "tx_file_offsets (set_marker txn k b) = tx_file_offsets txn"
  "tx_state_diffs (set_marker txn k b) = tx_state_diffs txn"
  "tx_transaction_hash_to_idx (set_marker txn k b) = tx_transaction_hash_to_idx txn"
  "tx_transaction_metadata (set_marker txn k b) = tx_transaction_metadata txn"
  "tx_starknet_version (set_marker txn k b) = tx_starknet_version txn"
  "tx_storage_version (set_marker txn k b) = tx_storage_version txn"
  "tx_file_handlers (set_marker txn k b) = tx_file_handlers txn"
  "tx_scope (set_marker txn k b) = tx_scope txn"
  by (simp_all add: set_marker_def)

lemma get_marker_empty [simp]: "get_marker (empty_txn scope) k = 0"
  by (simp add: get_marker_def empty_txn_def tbl_get_def)

text \<open>A file whose objects all lie before its offset; appending keeps it and every object.\<close>

definition file_wf :: "'a file_handler \<Rightarrow> bool" where
  "file_wf f \<longleftrightarrow> (\<forall>loc. loc |\<in>| fmdom (fh_objects f) \<longrightarrow> 0 < loc_len loc \<and> next_offset loc \<le> fh_offset f)"

lemma file_append_wf [inv_intros]:
  assumes "file_wf f" and "0 < len v" and "file_append len f v = (f', loc)"
  shows "file_wf f'"
  using assms
  by (auto simp: file_wf_def file_append_def Let_def next_offset_def) (meson order.trans le_add1)

lemma file_append_get:
  assumes "file_append len f v = (f', loc)"
  shows "file_get f' loc = Some v"
  using assms by (auto simp: file_append_def file_get_def Let_def)

lemma file_append_keeps:
  assumes "file_append len f v = (f', loc)" and "file_wf f"
    and "file_get f loc' = Some w"
  shows "file_get f' loc' = Some w"
proof -
  have "0 < loc_len loc'" "next_offset loc' \<le> fh_offset f"
    using assms(2,3) by (auto simp: file_wf_def file_get_def dest: fmdomI)
  then have "loc' \<noteq> \<lparr>loc_offset = fh_offset f, loc_len = len v\<rparr>"
    by (auto simp: next_offset_def)
  then show ?thesis using assms(1,3) by (auto simp: file_append_def file_get_def Let_def)
qed

text \<open>Concrete sizes for the examples of the component theories.\<close>

definition demo_sizes :: serde_sizes where
  "demo_sizes = \<lparr>sz_thin_state_diff = (\<lambda>_. 3), sz_contract_class = (\<lambda>_. 4), sz_casm = (\<lambda>_. 5),
     sz_deprecated_contract_class = (\<lambda>_. 6), sz_transaction_output = (\<lambda>out. 1 + length (out_events out)),
     sz_transaction = (\<lambda>_. 2)\<rparr>"

lemma sizes_positive_demo: "sizes_positive demo_sizes"
  by (simp add: sizes_positive_def demo_sizes_def)

end
