(* ===== verification/Storage_Mmap.thy ===== *)
theory Storage_Mmap
  imports Storage_Txn
begin

text \<open>
  The memory mapped append-only files: \<open>crates/papyrus_storage/src/mmap_file/mod.rs\<close>. A file has its
  bytes in memory (the mapping, of the configured maximal size), the bytes that are on disk, its
  size on disk and the offset of the next object. Serialization of the objects is a parameter.

  \<^item> \<open>mmap_rel\<close>: the byte level file implements the typed file of \<open>Storage_Txn\<close>.
  \<^item> \<open>mmap_inv\<close>: the file on disk always has room for one more object of the configured maximal
    size, so that no write goes past the end of the file.
  \<^item> Flushing makes everything that was appended durable.
  \<^item> A location is stored in ten bytes; the round trip and its limits.
\<close>

section \<open>Configuration\<close>

record mmap_file_config =
  max_size :: nat
  growth_step :: nat
  max_object_size :: nat

definition mmap_default_config :: mmap_file_config where
  "mmap_default_config = \<lparr>max_size = 2 ^ 40, growth_step = 2 ^ 30, max_object_size = 2 ^ 28\<rparr>"

datatype validation_error = MaxSizeBelowGrowthStep | GrowthStepBelowMaxObjectSize

definition validate_config :: "mmap_file_config \<Rightarrow> (validation_error, unit) result" where
  "validate_config config =
     (if max_size config < growth_step config then Inl MaxSizeBelowGrowthStep
      else if growth_step config < max_object_size config then Inl GrowthStepBelowMaxObjectSize
      else Inr ())"

section \<open>The file\<close>

text \<open>\<open>mf_disk\<close> is what the operating system has written for sure; \<open>mf_bytes\<close> is the mapping.\<close>

record mmap_file =
  mf_config :: mmap_file_config
  mf_size :: nat
  mf_bytes :: "nat \<Rightarrow> u8"
  mf_disk :: "nat \<Rightarrow> u8"
  mf_offset :: nat
  mf_should_flush :: bool

datatype mmap_panic = OutOfMapping

definition mmap_flush :: "mmap_file \<Rightarrow> mmap_file" where
  "mmap_flush m = m\<lparr>mf_disk := mf_bytes m, mf_should_flush := False\<rparr>"

definition mmap_grow :: "mmap_file \<Rightarrow> mmap_file" where
  "mmap_grow m =
     (let m = mmap_flush m in m\<lparr>mf_size := mf_size m + growth_step (mf_config m)\<rparr>)"

definition grow_file_if_needed :: "nat \<Rightarrow> mmap_file \<Rightarrow> mmap_file" where
  "grow_file_if_needed offset m =
     (if mf_size m < offset + max_object_size (mf_config m) then mmap_grow m else m)"

text \<open>The file of the operating system: its length and its bytes.\<close>

definition open_file :: "mmap_file_config \<Rightarrow> nat \<times> (nat \<Rightarrow> u8) \<Rightarrow> nat \<Rightarrow> mmap_file" where
  "open_file config os_file offset =
     grow_file_if_needed 0
       \<lparr>mf_config = config, mf_size = fst os_file, mf_bytes = snd os_file, mf_disk = snd os_file,
        mf_offset = offset, mf_should_flush = False\<rparr>"

definition write_bytes :: "(nat \<Rightarrow> u8) \<Rightarrow> nat \<Rightarrow> u8 list \<Rightarrow> nat \<Rightarrow> u8" where
  "write_bytes mem offset bs i =
     (if offset \<le> i \<and> i < offset + length bs then bs ! (i - offset) else mem i)"

definition read_bytes :: "(nat \<Rightarrow> u8) \<Rightarrow> nat \<Rightarrow> nat \<Rightarrow> u8 list" where
  "read_bytes mem offset len = map (\<lambda>i. mem (offset + i)) [0..<len]"

definition mmap_append ::
  "('a \<Rightarrow> u8 list) \<Rightarrow> mmap_file \<Rightarrow> 'a \<Rightarrow> (mmap_panic, mmap_file \<times> location_in_file) result" where
  "mmap_append serialize m v =
     (let serialized = serialize v;
          len = length serialized;
          offset = mf_offset m
      in if max_size (mf_config m) < offset + len then Inl OutOfMapping
         else
           let m = m\<lparr>mf_bytes := write_bytes (mf_bytes m) offset serialized,
                     mf_offset := offset + len, mf_should_flush := True\<rparr>;
               location = \<lparr>loc_offset = offset, loc_len = len\<rparr>
           in Inr (grow_file_if_needed (next_offset location) m, location))"

definition mmap_handler_flush :: "mmap_file \<Rightarrow> mmap_file" where
  "mmap_handler_flush m = (if mf_should_flush m then mmap_flush m else m)"

definition mmap_get :: "(u8 list \<Rightarrow> 'a option) \<Rightarrow> mmap_file \<Rightarrow> location_in_file \<Rightarrow> 'a option" where
  "mmap_get deserialize m loc = deserialize (read_bytes (mf_bytes m) (loc_offset loc) (loc_len loc))"

definition mmap_stats :: "mmap_file \<Rightarrow> nat \<times> nat" where
  "mmap_stats m = (mf_size m, mf_offset m)"

section \<open>Locations as bytes\<close>

definition to_be_bytes :: "nat \<Rightarrow> u8 list" where
  "to_be_bytes x = map (\<lambda>i. of_nat (x div 256 ^ (7 - i))) [0..<8]"

definition from_be_bytes :: "u8 list \<Rightarrow> nat" where
  "from_be_bytes bs = foldl (\<lambda>acc b. acc * 256 + unat b) 0 bs"

definition location_serialize :: "location_in_file \<Rightarrow> u8 list" where
  "location_serialize loc = drop 4 (to_be_bytes (loc_len loc)) @ drop 2 (to_be_bytes (loc_offset loc))"

definition location_deserialize :: "u8 list \<Rightarrow> (location_in_file \<times> u8 list) option" where
  "location_deserialize bs =
     (if length bs < 4 then None
      else let arr = replicate 4 0 @ take 4 bs;
               len = from_be_bytes arr;
               bs = drop 4 bs
           in if length bs < 6 then None
              else let arr = take 2 arr @ take 6 bs;
                       offset = from_be_bytes arr
                   in Some (\<lparr>loc_offset = offset, loc_len = len\<rparr>, drop 6 bs))"

section \<open>Reading and writing bytes\<close>

lemma read_write_same: "read_bytes (write_bytes mem offset bs) offset (length bs) = bs"
  by (rule nth_equalityI) (simp_all add: read_bytes_def write_bytes_def)

lemma read_write_before:
  "offset' + len \<le> offset \<Longrightarrow> read_bytes (write_bytes mem offset bs) offset' len = read_bytes mem offset' len"
  by (simp add: read_bytes_def write_bytes_def)

lemma grow_file_if_needed_simps [simp]:
  "mf_config (grow_file_if_needed off m) = mf_config m"
  "mf_bytes (grow_file_if_needed off m) = mf_bytes m"
  "mf_offset (grow_file_if_needed off m) = mf_offset m"
  by (simp_all add: grow_file_if_needed_def mmap_grow_def mmap_flush_def Let_def)

section \<open>The typed file\<close>

definition mmap_rel :: "('a \<Rightarrow> u8 list) \<Rightarrow> mmap_file \<Rightarrow> 'a file_handler \<Rightarrow> bool" where
  "mmap_rel serialize m f \<longleftrightarrow>
     mf_offset m = fh_offset f \<and> file_wf f \<and>
     (\<forall>loc v. file_get f loc = Some v \<longrightarrow>
        loc_len loc = length (serialize v) \<and>
        read_bytes (mf_bytes m) (loc_offset loc) (loc_len loc) = serialize v)"

lemma mmap_relD:
  assumes "mmap_rel serialize m f" and "file_get f loc = Some v"
  shows "loc_len loc = length (serialize v) \<and>
    read_bytes (mf_bytes m) (loc_offset loc) (loc_len loc) = serialize v"
  using assms unfolding mmap_rel_def by blast

lemma mmap_append_rel:
  assumes rel: "mmap_rel serialize m f" and app: "mmap_append serialize m v = Inr (m', loc)"
    and pos: "serialize v \<noteq> []"
  shows "file_append (length \<circ> serialize) f v =
      (f\<lparr>fh_offset := next_offset loc, fh_objects := fmupd loc v (fh_objects f)\<rparr>, loc) \<and>
    mmap_rel serialize m' (f\<lparr>fh_offset := next_offset loc, fh_objects := fmupd loc v (fh_objects f)\<rparr>)"
proof -
  let ?f = "f\<lparr>fh_offset := next_offset loc, fh_objects := fmupd loc v (fh_objects f)\<rparr>"
  have loc: "loc = \<lparr>loc_offset = mf_offset m, loc_len = length (serialize v)\<rparr>"
    and m': "mf_bytes m' = write_bytes (mf_bytes m) (mf_offset m) (serialize v)"
      "mf_offset m' = mf_offset m + length (serialize v)"
    using app by (auto simp: mmap_append_def Let_def split: if_splits)
  have off: "mf_offset m = fh_offset f" and wf: "file_wf f" using rel by (simp_all add: mmap_rel_def)
  have append: "file_append (length \<circ> serialize) f v = (?f, loc)"
    by (simp add: file_append_def loc off Let_def)
  have wf': "file_wf ?f"
    by (rule file_append_wf [OF wf _ append]) (use pos in simp)
  have "loc_len l = length (serialize w) \<and> read_bytes (mf_bytes m') (loc_offset l) (loc_len l) = serialize w"
    if l: "file_get ?f l = Some w" for l w
  proof (cases "l = loc")
    case True
    then show ?thesis using l by (simp add: file_get_def loc m' read_write_same)
  next
    case False
    then have old: "file_get f l = Some w" using l by (simp add: file_get_def)
    then have "next_offset l \<le> fh_offset f"
      using wf by (auto simp: file_wf_def file_get_def dest: fmdomI)
    then have "read_bytes (mf_bytes m') (loc_offset l) (loc_len l) = read_bytes (mf_bytes m) (loc_offset l) (loc_len l)"
      by (simp add: m' next_offset_def off read_write_before)
    with mmap_relD [OF rel old] show ?thesis by (metis (no_types))
  qed
  moreover have "mf_offset m' = fh_offset ?f" by (simp add: m' loc next_offset_def)
  ultimately show ?thesis using append wf' unfolding mmap_rel_def by blast
qed

lemma mmap_rel_get:
  assumes "mmap_rel serialize m f" and "file_get f loc = Some v" and "\<And>v. deserialize (serialize v) = Some v"
  shows "mmap_get deserialize m loc = Some v"
  using mmap_relD [OF assms(1,2), THEN conjunct2] assms(3) by (simp only: mmap_get_def)

section \<open>Room in the file\<close>

definition mmap_inv :: "mmap_file \<Rightarrow> bool" where
  "mmap_inv m \<longleftrightarrow>
     validate_config (mf_config m) = Inr () \<and>
     mf_offset m + max_object_size (mf_config m) \<le> mf_size m \<and>
     (\<not> mf_should_flush m \<longrightarrow> mf_disk m = mf_bytes m)"

lemma validate_config_ok:
  "validate_config config = Inr () \<longleftrightarrow>
     max_object_size config \<le> growth_step config \<and> growth_step config \<le> max_size config"
  by (auto simp: validate_config_def)

lemma mmap_append_inv:
  assumes inv: "mmap_inv m" and app: "mmap_append serialize m v = Inr (m', loc)"
    and len: "length (serialize v) \<le> max_object_size (mf_config m)"
  shows "mmap_inv m' \<and> next_offset loc \<le> mf_size m"
proof -
  let ?u = "m\<lparr>mf_bytes := write_bytes (mf_bytes m) (mf_offset m) (serialize v),
    mf_offset := mf_offset m + length (serialize v), mf_should_flush := True\<rparr>"
  have m': "m' = grow_file_if_needed (next_offset loc) ?u"
    and loc: "loc = \<lparr>loc_offset = mf_offset m, loc_len = length (serialize v)\<rparr>"
    using app by (auto simp: mmap_append_def Let_def split: if_splits)
  have next_off: "next_offset loc = mf_offset m + length (serialize v)" by (simp add: loc next_offset_def)
  have "mmap_inv m'"
    using inv len unfolding m' next_off
    by (auto simp: mmap_inv_def grow_file_if_needed_def mmap_grow_def mmap_flush_def validate_config_ok Let_def)
  moreover have "next_offset loc \<le> mf_size m" using inv len by (simp add: next_off mmap_inv_def)
  ultimately show ?thesis ..
qed

lemma open_file_inv:
  assumes "validate_config config = Inr ()" and "offset + max_object_size config \<le> fst os_file \<or> offset = 0"
  shows "mmap_inv (open_file config os_file offset)"
  using assms
  by (auto simp: open_file_def mmap_inv_def grow_file_if_needed_def mmap_grow_def mmap_flush_def
      validate_config_ok Let_def)

section \<open>Locations\<close>

lemma from_be_bytes_append:
  "from_be_bytes (bs @ [b]) = from_be_bytes bs * 256 + unat b"
  by (simp add: from_be_bytes_def)

lemma from_be_bytes_zeros: "from_be_bytes (replicate n 0 @ bs) = from_be_bytes bs"
proof -
  have "foldl (\<lambda>acc b. acc * 256 + unat (b :: u8)) 0 (replicate n 0) = (0 :: nat)" by (induction n) simp_all
  then show ?thesis by (simp add: from_be_bytes_def)
qed

text \<open>The low \<open>k\<close> bytes of a number, most significant first.\<close>

fun low_bytes :: "nat \<Rightarrow> nat \<Rightarrow> u8 list" where
  "low_bytes 0 x = []"
| "low_bytes (Suc k) x = low_bytes k (x div 256) @ [of_nat x]"

lemma length_low_bytes [simp]: "length (low_bytes k x) = k"
  by (induction k arbitrary: x) simp_all

lemma from_be_bytes_low_bytes: "from_be_bytes (low_bytes k x) = x mod 256 ^ k"
proof (induction k arbitrary: x)
  case 0
  then show ?case by (simp add: from_be_bytes_def)
next
  case (Suc k)
  have "from_be_bytes (low_bytes (Suc k) x) = (x div 256 mod 256 ^ k) * 256 + x mod 256"
    by (simp add: from_be_bytes_append Suc unat_of_nat)
  then show ?case using mod_mult2_eq [of x 256 "256 ^ k"] by (simp add: mult.commute)
qed

lemma low_bytes_numeral:
  "low_bytes (numeral k) x = low_bytes (pred_numeral k) (x div 256) @ [of_nat x]"
  by (simp only: numeral_eq_Suc [of k] low_bytes.simps)

lemma drop_to_be_bytes:
  "drop 4 (to_be_bytes x) = low_bytes 4 x" "drop 2 (to_be_bytes x) = low_bytes 6 x"
proof -
  have "[0..<8 :: nat] = [0, 1, 2, 3, 4, 5, 6, 7]" by (simp add: upt_rec)
  then have bytes: "to_be_bytes x = map (\<lambda>i. of_nat (x div 256 ^ (7 - i))) [0, 1, 2, 3, 4, 5, 6, 7]"
    by (simp only: to_be_bytes_def)
  show "drop 4 (to_be_bytes x) = low_bytes 4 x" "drop 2 (to_be_bytes x) = low_bytes 6 x"
    by (simp_all add: bytes low_bytes_numeral div_mult2_eq [symmetric])
qed

text \<open>
  Writing a location keeps the low four bytes of its length and the low six of its offset.
\<close>

lemma location_deserialize_serialize:
  "location_deserialize (location_serialize loc @ rest) =
     Some (\<lparr>loc_offset = loc_offset loc mod 2 ^ 48, loc_len = loc_len loc mod 2 ^ 32\<rparr>, rest)"
proof -
  have two: "take 2 (replicate 4 (0 :: u8) @ bs) = replicate 2 0" for bs by simp
  have pow: "(256 :: nat) ^ 4 = 2 ^ 32" "(256 :: nat) ^ 6 = 2 ^ 48" by simp_all
  show ?thesis
    unfolding location_serialize_def drop_to_be_bytes location_deserialize_def Let_def
    by (simp add: two from_be_bytes_zeros from_be_bytes_low_bytes pow del: replicate_Suc)
qed

section \<open>Appending many objects\<close>

fun mmap_append_all ::
  "('a \<Rightarrow> u8 list) \<Rightarrow> mmap_file \<Rightarrow> 'a list \<Rightarrow> (mmap_panic, mmap_file \<times> location_in_file list) result" where
  "mmap_append_all serialize m [] = Inr (m, [])"
| "mmap_append_all serialize m (v # vs) =
     res_bind (mmap_append serialize m v) (\<lambda>(m, loc).
     res_bind (mmap_append_all serialize m vs) (\<lambda>(m, locs). Inr (m, loc # locs)))"

lemma mmap_append_ok:
  assumes "mf_offset m + length (serialize v) \<le> max_size (mf_config m)"
  obtains m' loc where "mmap_append serialize m v = Inr (m', loc)" and "mf_config m' = mf_config m"
    and "mf_offset m' = mf_offset m + length (serialize v)"
  using assms that by (simp add: mmap_append_def Let_def)

lemma mmap_append_all_ok:
  assumes "mmap_inv m" and "mmap_rel serialize m f"
    and "\<And>v. v \<in> set vs \<Longrightarrow> serialize v \<noteq> [] \<and> length (serialize v) \<le> max_object_size (mf_config m)"
    and "mf_offset m + (\<Sum>v\<leftarrow>vs. length (serialize v)) \<le> max_size (mf_config m)"
  shows "\<exists>m' locs f'. mmap_append_all serialize m vs = Inr (m', locs) \<and> mmap_inv m' \<and>
    mmap_rel serialize m' f' \<and> mf_config m' = mf_config m \<and> map (file_get f') locs = map Some vs \<and>
    (\<forall>loc v. file_get f loc = Some v \<longrightarrow> file_get f' loc = Some v)"
  using assms
proof (induction vs arbitrary: m f)
  case Nil
  then show ?case by auto
next
  case (Cons v vs)
  obtain m1 loc where app: "mmap_append serialize m v = Inr (m1, loc)" and cfg: "mf_config m1 = mf_config m"
    and off: "mf_offset m1 = mf_offset m + length (serialize v)"
    using mmap_append_ok [of m serialize v] Cons.prems(4) by auto
  have ne: "serialize v \<noteq> []" and len: "length (serialize v) \<le> max_object_size (mf_config m)"
    using Cons.prems(3) by auto
  obtain f1 where fapp: "file_append (length \<circ> serialize) f v = (f1, loc)" and rel1: "mmap_rel serialize m1 f1"
    using mmap_append_rel [OF Cons.prems(2) app ne] by blast
  have inv1: "mmap_inv m1" using mmap_append_inv [OF Cons.prems(1) app len] by simp
  have "serialize v \<noteq> [] \<and> length (serialize v) \<le> max_object_size (mf_config m1)" if "v \<in> set vs" for v
    using Cons.prems(3) that cfg by simp
  moreover have "mf_offset m1 + (\<Sum>v\<leftarrow>vs. length (serialize v)) \<le> max_size (mf_config m1)"
    using Cons.prems(4) cfg off by simp
  ultimately obtain m2 locs f2 where all: "mmap_append_all serialize m1 vs = Inr (m2, locs)"
    and rest: "mmap_inv m2" "mmap_rel serialize m2 f2" "mf_config m2 = mf_config m1"
      "map (file_get f2) locs = map Some vs"
    and keep: "\<And>l w. file_get f1 l = Some w \<Longrightarrow> file_get f2 l = Some w"
    using Cons.IH [OF inv1 rel1] by blast
  have wf: "file_wf f" using Cons.prems(2) by (simp add: mmap_rel_def)
  have "file_get f2 loc = Some v" by (rule keep [OF file_append_get [OF fapp]])
  moreover have "file_get f2 l = Some w" if "file_get f l = Some w" for l w
    by (rule keep [OF file_append_keeps [OF fapp wf that]])
  ultimately show ?case using app all rest cfg by (intro exI [of _ m2] exI [of _ "loc # locs"] exI [of _ f2]) simp
qed

section \<open>Durability\<close>

text \<open>The file as it is found after the process stops: its size and the bytes that were flushed.\<close>

definition mmap_reopen :: "mmap_file \<Rightarrow> mmap_file" where
  "mmap_reopen m = open_file (mf_config m) (mf_size m, mf_disk m) (mf_offset m)"

lemma mmap_handler_flush_disk:
  assumes "mmap_inv m"
  shows "mf_disk (mmap_handler_flush m) = mf_bytes m" and "mmap_inv (mmap_handler_flush m)"
    and "mf_bytes (mmap_handler_flush m) = mf_bytes m" and "mf_offset (mmap_handler_flush m) = mf_offset m"
  using assms by (simp_all add: mmap_handler_flush_def mmap_flush_def mmap_inv_def)

lemma mmap_reopen_inv: "mmap_inv m \<Longrightarrow> mmap_inv (mmap_reopen m)"
  unfolding mmap_reopen_def by (rule open_file_inv) (simp_all add: mmap_inv_def)

lemma mmap_reopen_rel:
  assumes "mmap_inv m" and "mmap_rel serialize m f"
  shows "mmap_rel serialize (mmap_reopen (mmap_handler_flush m)) f"
proof -
  have "mf_bytes (mmap_reopen (mmap_handler_flush m)) = mf_bytes m"
    "mf_offset (mmap_reopen (mmap_handler_flush m)) = mf_offset m"
    by (simp_all add: mmap_reopen_def open_file_def mmap_handler_flush_disk [OF assms(1)])
  moreover have "mmap_rel serialize m' f" if "mf_bytes m' = mf_bytes m" and "mf_offset m' = mf_offset m" for m'
    using assms(2) unfolding mmap_rel_def that .
  ultimately show ?thesis by blast
qed

text \<open>
  \<^bold>\<open>C33.\<close> Appending objects to a memory mapped file and flushing it makes them durable. If every object
  serializes to at least one and at most the configured maximal number of bytes, and they fit in the
  mapping, then every append succeeds and the file keeps room for one more object; and when the file is
  opened again from the bytes that are on disk, at the same offset, every appended object is read
  back at the location its append returned, every earlier object at its own location, and the
  opened file again has the room.
\<close>

theorem mmap_append_durable:
  assumes "mmap_inv m" and "mmap_rel serialize m f"
    and "\<And>v. v \<in> set vs \<Longrightarrow> serialize v \<noteq> [] \<and> length (serialize v) \<le> max_object_size (mf_config m)"
    and "mf_offset m + (\<Sum>v\<leftarrow>vs. length (serialize v)) \<le> max_size (mf_config m)"
    and serde: "\<And>v. deserialize (serialize v) = Some v"
  shows "\<exists>m' locs. mmap_append_all serialize m vs = Inr (m', locs) \<and> mmap_inv m' \<and>
    (let r = mmap_reopen (mmap_handler_flush m') in
       mmap_inv r \<and> map (mmap_get deserialize r) locs = map Some vs \<and>
       (\<forall>loc v. file_get f loc = Some v \<longrightarrow> mmap_get deserialize r loc = Some v))"
proof -
  obtain m' locs f' where all: "mmap_append_all serialize m vs = Inr (m', locs)" and inv: "mmap_inv m'"
    and rel: "mmap_rel serialize m' f'" and locs: "map (file_get f') locs = map Some vs"
    and keep: "\<And>l w. file_get f l = Some w \<Longrightarrow> file_get f' l = Some w"
    using mmap_append_all_ok [OF assms(1-4)] by blast
  let ?r = "mmap_reopen (mmap_handler_flush m')"
  have get: "mmap_get deserialize ?r l = Some w" if "file_get f' l = Some w" for l w
    by (rule mmap_rel_get [OF mmap_reopen_rel [OF inv rel] that serde])
  have "map (mmap_get deserialize ?r) locs = map Some vs"
    using locs get by (auto simp: list_eq_iff_nth_eq)
  moreover have "mmap_inv ?r" by (rule mmap_reopen_inv [OF mmap_handler_flush_disk(2) [OF inv]])
  ultimately show ?thesis using all inv keep get unfolding Let_def by blast
qed

definition demo_mmap :: mmap_file where
  "demo_mmap = open_file \<lparr>max_size = 64, growth_step = 4, max_object_size = 3\<rparr> (0, \<lambda>_. 0) 0"

lemma demo_mmap_inv: "mmap_inv demo_mmap"
  unfolding demo_mmap_def by (rule open_file_inv) (simp_all add: validate_config_def)

lemma demo_mmap_fields:
  "mf_offset demo_mmap = 0" "mf_config demo_mmap = \<lparr>max_size = 64, growth_step = 4, max_object_size = 3\<rparr>"
  by (simp_all add: demo_mmap_def open_file_def)

lemma demo_mmap_rel: "mmap_rel serialize demo_mmap \<lparr>fh_offset = 0, fh_objects = fmempty\<rparr>"
  by (simp add: mmap_rel_def demo_mmap_fields file_wf_def file_get_def)

theorem mmap_append_durable_witness:
  "\<exists>m' locs. mmap_append_all (\<lambda>b :: u8. [b, b]) demo_mmap [1, 2, 3] = Inr (m', locs) \<and> mmap_inv m' \<and>
     (let r = mmap_reopen (mmap_handler_flush m') in
        mmap_inv r \<and> map (mmap_get (\<lambda>bs. Some (hd bs)) r) locs = map Some [1, 2, 3])"
proof -
  have "\<exists>m' locs. mmap_append_all (\<lambda>b :: u8. [b, b]) demo_mmap [1, 2, 3] = Inr (m', locs) \<and> mmap_inv m' \<and>
    (let r = mmap_reopen (mmap_handler_flush m') in
       mmap_inv r \<and> map (mmap_get (\<lambda>bs. Some (hd bs)) r) locs = map Some [1, 2, 3] \<and>
       (\<forall>loc v. file_get \<lparr>fh_offset = 0, fh_objects = fmempty\<rparr> loc = Some v \<longrightarrow>
          mmap_get (\<lambda>bs. Some (hd bs)) r loc = Some v))"
    by (rule mmap_append_durable [OF demo_mmap_inv demo_mmap_rel]) (simp_all add: demo_mmap_fields)
  then show ?thesis unfolding Let_def by blast
qed

text \<open>
  A location in a file survives being stored: reading the ten bytes that were written for it gives
  it back and leaves the rest of the input, exactly when its length is below 4GB and its offset below
  256TB.
\<close>

theorem location_roundtrip:
  "location_deserialize (location_serialize loc @ rest) = Some (loc, rest) \<longleftrightarrow>
     loc_len loc < 2 ^ 32 \<and> loc_offset loc < 2 ^ 48"
  unfolding location_deserialize_serialize
  by (cases loc) (auto simp: mod_eq_self_iff_div_eq_0 div_eq_0_iff)

end
