(* ===== verification/Storage_Version.thy ===== *)
theory Storage_Version
  imports Storage_Txn
begin

text \<open>
  Opening a storage: the version functions of \<open>crates/papyrus_storage/src/version.rs\<close>, and
  \<open>open_storage\<close>, \<open>open_storage_files\<close>, \<open>set_version_if_needed\<close>, \<open>get_storage_version\<close> and
  \<open>verify_storage_version\<close> of \<open>crates/papyrus_storage/src/lib.rs\<close>.

  A database is the transaction state that was committed last. Opening commits several times, so
  an operation here returns the database after it together with its outcome: what was committed
  before a failure stays.

  \<^item> \<open>open_storage_spec\<close>: when opening succeeds and which versions it leaves.
  \<^item> \<open>state_only_forever\<close>: a storage that was opened in the state-only scope stays in it.
\<close>

section \<open>Versions in the transaction\<close>

definition VERSION_STATE_KEY :: string where
  "VERSION_STATE_KEY = ''storage_version_state''"

definition VERSION_BLOCKS_KEY :: string where
  "VERSION_BLOCKS_KEY = ''storage_version_blocks''"

definition get_state_version :: "storage_txn \<Rightarrow> version option" where
  "get_state_version txn = tbl_get (tx_storage_version txn) VERSION_STATE_KEY"

definition get_blocks_version :: "storage_txn \<Rightarrow> version option" where
  "get_blocks_version txn = tbl_get (tx_storage_version txn) VERSION_BLOCKS_KEY"

definition set_state_version :: "version \<Rightarrow> storage_txn \<Rightarrow> storage_txn sresult" where
  "set_state_version ver txn =
     (let set_it = Inr (txn\<lparr>tx_storage_version := tbl_upsert (tx_storage_version txn) VERSION_STATE_KEY ver\<rparr>) in
      case get_state_version txn of
        None \<Rightarrow> set_it
      | Some cur \<Rightarrow>
          if ver_major cur \<noteq> ver_major ver
          then Inl (SErr (StorageVersionInconsistency (SetMajorVersion ver cur)))
          else if ver_minor ver \<le> ver_minor cur
          then Inl (SErr (StorageVersionInconsistency (SetLowerVersion ver cur)))
          else set_it)"

definition set_blocks_version :: "version \<Rightarrow> storage_txn \<Rightarrow> storage_txn sresult" where
  "set_blocks_version ver txn =
     (let set_it = Inr (txn\<lparr>tx_storage_version := tbl_upsert (tx_storage_version txn) VERSION_BLOCKS_KEY ver\<rparr>) in
      case get_blocks_version txn of
        None \<Rightarrow> set_it
      | Some cur \<Rightarrow>
          if ver_major cur \<noteq> ver_major ver
          then Inl (SErr (StorageVersionInconsistency (SetMajorVersion ver cur)))
          else if ver_minor ver \<le> ver_minor cur
          then Inl (SErr (StorageVersionInconsistency (SetLowerVersion ver cur)))
          else set_it)"

definition delete_blocks_version :: "storage_txn \<Rightarrow> storage_txn" where
  "delete_blocks_version txn =
     txn\<lparr>tx_storage_version := tbl_delete (tx_storage_version txn) VERSION_BLOCKS_KEY\<rparr>"

section \<open>Opening\<close>

definition STORAGE_VERSION_STATE :: version where
  "STORAGE_VERSION_STATE = \<lparr>ver_major = 1, ver_minor = 1\<rparr>"

definition STORAGE_VERSION_BLOCKS :: version where
  "STORAGE_VERSION_BLOCKS = \<lparr>ver_major = 2, ver_minor = 0\<rparr>"

datatype storage_version = FullArchiveVersion version version | StateOnlyVersion version

definition get_storage_version :: "storage_txn \<Rightarrow> storage_version option" where
  "get_storage_version db =
     (case get_state_version db of
        None \<Rightarrow> None
      | Some state_version \<Rightarrow>
          (case get_blocks_version db of
             Some blocks_version \<Rightarrow> Some (FullArchiveVersion state_version blocks_version)
           | None \<Rightarrow> Some (StateOnlyVersion state_version)))"

text \<open>The database after an operation and the outcome of the operation.\<close>

type_synonym db_outcome = "storage_txn \<times> unit sresult"

text \<open>Commit a transaction and go on, or give up with the database as it is.\<close>

definition commit_then :: "storage_txn \<Rightarrow> storage_txn sresult \<Rightarrow> (storage_txn \<Rightarrow> db_outcome) \<Rightarrow> db_outcome" where
  "commit_then db r k = (case r of Inl e \<Rightarrow> (db, Inl e) | Inr db' \<Rightarrow> k db')"

definition upgrade_if_lower ::
  "version \<Rightarrow> version \<Rightarrow> (version \<Rightarrow> storage_txn \<Rightarrow> storage_txn sresult) \<Rightarrow> storage_txn \<Rightarrow> storage_txn sresult" where
  "upgrade_if_lower crate existing set_version wtxn =
     (if ver_major crate = ver_major existing \<and> ver_minor existing < ver_minor crate
      then set_version crate wtxn else Inr wtxn)"

definition update_versions :: "storage_version \<Rightarrow> storage_txn \<Rightarrow> storage_txn sresult" where
  "update_versions existing wtxn =
     (case existing of
        FullArchiveVersion state_version blocks_version \<Rightarrow>
          res_bind (upgrade_if_lower STORAGE_VERSION_STATE state_version set_state_version wtxn)
            (upgrade_if_lower STORAGE_VERSION_BLOCKS blocks_version set_blocks_version)
      | StateOnlyVersion state_version \<Rightarrow>
          upgrade_if_lower STORAGE_VERSION_STATE state_version set_state_version wtxn)"

definition set_version_if_needed :: "storage_txn \<Rightarrow> db_outcome" where
  "set_version_if_needed db =
     (case get_storage_version db of
        None \<Rightarrow>
          commit_then db (set_state_version STORAGE_VERSION_STATE db) (\<lambda>db.
            if tx_scope db = FullArchive
            then commit_then db (set_blocks_version STORAGE_VERSION_BLOCKS db) (\<lambda>db. (db, Inr ()))
            else (db, Inr ()))
      | Some existing \<Rightarrow>
          (case existing of
             FullArchiveVersion _ _ \<Rightarrow>
               let db = (if tx_scope db = StateOnly then delete_blocks_version db else db)
               in commit_then db (update_versions existing db) (\<lambda>db. (db, Inr ()))
           | StateOnlyVersion _ \<Rightarrow>
               if tx_scope db = FullArchive
               then (db, Inl (SErr (StorageVersionInconsistency InconsistentStorageScope)))
               else commit_then db (update_versions existing db) (\<lambda>db. (db, Inr ()))))"

definition verify_storage_version :: "storage_txn \<Rightarrow> unit sresult" where
  "verify_storage_version db =
     (let inconsistent = (\<lambda>crate existing.
            Inl (SErr (StorageVersionInconsistency (InconsistentStorageVersion crate existing)))) in
      case get_storage_version db of
        None \<Rightarrow> Inl (SPanic ''Storage should be initialized.'')
      | Some (FullArchiveVersion state_version blocks_version) \<Rightarrow>
          if STORAGE_VERSION_STATE \<noteq> state_version then inconsistent STORAGE_VERSION_STATE state_version
          else if STORAGE_VERSION_BLOCKS \<noteq> blocks_version then inconsistent STORAGE_VERSION_BLOCKS blocks_version
          else Inr ()
      | Some (StateOnlyVersion state_version) \<Rightarrow>
          if STORAGE_VERSION_STATE \<noteq> state_version then inconsistent STORAGE_VERSION_STATE state_version
          else Inr ())"

text \<open>
  A file is opened at the offset that was committed for it. The objects that end at or before that
  offset are kept; what lies beyond it is overwritten by the next appends and no table refers to it.
\<close>

definition file_reopen :: "nat \<Rightarrow> 'a file_handler \<Rightarrow> 'a file_handler" where
  "file_reopen offset f =
     \<lparr>fh_offset = offset, fh_objects = fmfilter (\<lambda>loc. next_offset loc \<le> offset) (fh_objects f)\<rparr>"

definition open_storage_files :: "storage_txn \<Rightarrow> file_handlers" where
  "open_storage_files db =
     (let fs = tx_file_handlers db;
          offset = (\<lambda>kind. case tbl_get (tx_file_offsets db) kind of None \<Rightarrow> 0 | Some n \<Rightarrow> n)
      in \<lparr>fs_thin_state_diff = file_reopen (offset OkThinStateDiff) (fs_thin_state_diff fs),
          fs_contract_class = file_reopen (offset OkContractClass) (fs_contract_class fs),
          fs_casm = file_reopen (offset OkCasm) (fs_casm fs),
          fs_deprecated_contract_class =
            file_reopen (offset OkDeprecatedContractClass) (fs_deprecated_contract_class fs),
          fs_transaction_output = file_reopen (offset OkTransactionOutput) (fs_transaction_output fs),
          fs_transaction = file_reopen (offset OkTransaction) (fs_transaction fs)\<rparr>)"

definition open_storage :: "storage_scope \<Rightarrow> storage_txn \<Rightarrow> db_outcome" where
  "open_storage scope db =
     (let db = db\<lparr>tx_file_handlers := open_storage_files db, tx_scope := scope\<rparr> in
      case set_version_if_needed db of
        (db, Inl e) \<Rightarrow> (db, Inl e)
      | (db, Inr _) \<Rightarrow> (db, verify_storage_version db))"

section \<open>What opening does\<close>

text \<open>No operation stores a blocks version in a storage that has no state version.\<close>

definition versions_wf :: "storage_txn \<Rightarrow> bool" where
  "versions_wf db \<longleftrightarrow> (get_state_version db = None \<longrightarrow> get_blocks_version db = None)"

definition with_versions :: "storage_txn \<Rightarrow> version option \<Rightarrow> version option \<Rightarrow> storage_txn \<Rightarrow> bool" where
  "with_versions db sv bv db' \<longleftrightarrow>
     get_state_version db' = sv \<and> get_blocks_version db' = bv \<and>
     db' = db\<lparr>tx_storage_version := tx_storage_version db'\<rparr>"

text \<open>When the crate can open a storage with these versions in a scope.\<close>

definition versions_openable :: "storage_scope \<Rightarrow> version option \<Rightarrow> version option \<Rightarrow> bool" where
  "versions_openable scope sv bv \<longleftrightarrow>
     (case sv of
        None \<Rightarrow> True
      | Some v \<Rightarrow>
          ver_major v = ver_major STORAGE_VERSION_STATE \<and> ver_minor v \<le> ver_minor STORAGE_VERSION_STATE \<and>
          (scope = FullArchive \<longrightarrow> bv = Some STORAGE_VERSION_BLOCKS))"

lemma version_key_neq [simp]:
  "VERSION_STATE_KEY \<noteq> VERSION_BLOCKS_KEY" "VERSION_BLOCKS_KEY \<noteq> VERSION_STATE_KEY"
  by (simp_all add: VERSION_STATE_KEY_def VERSION_BLOCKS_KEY_def)

lemmas version_tables =
  get_state_version_def get_blocks_version_def delete_blocks_version_def tbl_get_def tbl_upsert_def tbl_delete_def

lemmas version_ops =
  set_state_version_def set_blocks_version_def upgrade_if_lower_def update_versions_def
  commit_then_def Let_def res_bind_def

text \<open>How each step changes the two versions.\<close>

lemma version_update_simps [simp]:
  "get_state_version (db\<lparr>tx_storage_version := tbl_upsert t VERSION_STATE_KEY v\<rparr>) = Some v"
  "get_blocks_version (db\<lparr>tx_storage_version := tbl_upsert t VERSION_BLOCKS_KEY v\<rparr>) = Some v"
  "get_state_version (db\<lparr>tx_storage_version := tbl_upsert (tx_storage_version db) VERSION_BLOCKS_KEY v\<rparr>) = get_state_version db"
  "get_blocks_version (db\<lparr>tx_storage_version := tbl_upsert (tx_storage_version db) VERSION_STATE_KEY v\<rparr>) = get_blocks_version db"
  "get_state_version (delete_blocks_version db) = get_state_version db"
  "get_blocks_version (delete_blocks_version db) = None"
  "get_state_version (db\<lparr>tx_file_handlers := fs, tx_scope := scope\<rparr>) = get_state_version db"
  "get_blocks_version (db\<lparr>tx_file_handlers := fs, tx_scope := scope\<rparr>) = get_blocks_version db"
  "tx_scope (delete_blocks_version db) = tx_scope db"
  by (simp_all add: version_tables)

lemma no_lower_blocks_version [simp]: "upgrade_if_lower STORAGE_VERSION_BLOCKS v set_blocks_version db = Inr db"
  by (simp add: upgrade_if_lower_def STORAGE_VERSION_BLOCKS_def)

lemma upgrade_state_version:
  assumes "get_state_version db = Some v"
  shows "\<exists>db'. upgrade_if_lower STORAGE_VERSION_STATE v set_state_version db = Inr db' \<and>
    with_versions db
      (Some (if ver_major v = ver_major STORAGE_VERSION_STATE \<and> ver_minor v < ver_minor STORAGE_VERSION_STATE
             then STORAGE_VERSION_STATE else v))
      (get_blocks_version db) db'"
  using assms by (auto simp: upgrade_if_lower_def set_state_version_def with_versions_def Let_def)

lemma update_versions_existing:
  assumes "get_state_version db = Some v" and "existing = FullArchiveVersion v bv \<or> existing = StateOnlyVersion v"
  shows "update_versions existing db = upgrade_if_lower STORAGE_VERSION_STATE v set_state_version db"
  using assms(2) upgrade_state_version [OF assms(1)] by (auto simp: update_versions_def)

lemma with_versions_delete:
  "with_versions (delete_blocks_version db) sv bv db' \<Longrightarrow> with_versions db sv bv db'"
  by (simp add: with_versions_def delete_blocks_version_def)

definition upgraded :: "version \<Rightarrow> version" where
  "upgraded v =
     (if ver_major v = ver_major STORAGE_VERSION_STATE \<and> ver_minor v < ver_minor STORAGE_VERSION_STATE
      then STORAGE_VERSION_STATE else v)"

lemma word_le_one: "(w :: u32) \<le> 1 \<Longrightarrow> w = 0 \<or> w = 1"
proof -
  assume "w \<le> 1"
  then have "unat w = unat (0 :: u32) \<or> unat w = unat (1 :: u32)" by (auto simp: word_le_nat_alt)
  then show ?thesis unfolding word_eq_iff_unsigned [symmetric] .
qed

lemma upgraded_ok:
  "upgraded v = STORAGE_VERSION_STATE \<longleftrightarrow>
   ver_major v = ver_major STORAGE_VERSION_STATE \<and> ver_minor v \<le> ver_minor STORAGE_VERSION_STATE"
  by (cases v) (auto simp: upgraded_def STORAGE_VERSION_STATE_def dest!: word_le_one)

lemma set_version_existing:
  assumes sv: "get_state_version db = Some v"
    and ok: "tx_scope db = FullArchive \<Longrightarrow> get_blocks_version db \<noteq> None"
  shows "\<exists>db'. set_version_if_needed db = (db', Inr ()) \<and>
    with_versions db (Some (upgraded v)) (if tx_scope db = FullArchive then get_blocks_version db else None) db'"
proof -
  let ?db = "if tx_scope db = StateOnly \<and> get_blocks_version db \<noteq> None then delete_blocks_version db else db"
  have sv': "get_state_version ?db = Some v" using sv by simp
  obtain db' where up: "upgrade_if_lower STORAGE_VERSION_STATE v set_state_version ?db = Inr db'"
    and w: "with_versions ?db (Some (upgraded v)) (get_blocks_version ?db) db'"
    using upgrade_state_version [OF sv'] unfolding upgraded_def by blast
  have "set_version_if_needed db = (db', Inr ())"
    using sv sv' ok up
    by (cases "get_blocks_version db"; cases "tx_scope db")
      (auto simp: set_version_if_needed_def get_storage_version_def commit_then_def update_versions_existing Let_def)
  moreover have "with_versions db (Some (upgraded v)) (if tx_scope db = FullArchive then get_blocks_version db else None) db'"
    using w with_versions_delete ok by (cases "tx_scope db"; cases "get_blocks_version db") auto
  ultimately show ?thesis by blast
qed

lemma set_version_refused:
  assumes "get_state_version db = Some v" and "get_blocks_version db = None" and "tx_scope db = FullArchive"
  shows "set_version_if_needed db = (db, Inl (SErr (StorageVersionInconsistency InconsistentStorageScope)))"
  using assms by (simp add: set_version_if_needed_def get_storage_version_def)

lemma set_version_fresh:
  assumes "get_state_version db = None" and "versions_wf db"
  shows "\<exists>db'. set_version_if_needed db = (db', Inr ()) \<and>
    with_versions db (Some STORAGE_VERSION_STATE)
      (if tx_scope db = FullArchive then Some STORAGE_VERSION_BLOCKS else None) db'"
  using assms
  by (auto simp: set_version_if_needed_def get_storage_version_def set_state_version_def set_blocks_version_def
      commit_then_def versions_wf_def with_versions_def Let_def version_tables)

lemma verify_ok:
  assumes "get_state_version db = Some sv"
  shows "verify_storage_version db = Inr () \<longleftrightarrow>
      sv = STORAGE_VERSION_STATE \<and> get_blocks_version db \<in> {None, Some STORAGE_VERSION_BLOCKS}"
    and "verify_storage_version db \<noteq> Inl (SPanic msg)"
  using assms by (auto simp: verify_storage_version_def get_storage_version_def Let_def split: option.splits)

definition opened :: "storage_scope \<Rightarrow> storage_txn \<Rightarrow> storage_txn" where
  "opened scope db = db\<lparr>tx_file_handlers := open_storage_files db, tx_scope := scope\<rparr>"

lemma opened_simps [simp]:
  "get_state_version (opened scope db) = get_state_version db"
  "get_blocks_version (opened scope db) = get_blocks_version db"
  "tx_scope (opened scope db) = scope" "versions_wf (opened scope db) = versions_wf db"
  by (simp_all add: opened_def versions_wf_def)

text \<open>The three ways an opening goes.\<close>

lemma open_storage_cases:
  assumes "versions_wf db"
  shows "(\<exists>v. get_state_version db = Some v \<and> get_blocks_version db = None \<and> scope = FullArchive \<and>
      open_storage scope db = (opened scope db, Inl (SErr (StorageVersionInconsistency InconsistentStorageScope)))) \<or>
    (\<exists>db' v. get_state_version db = Some v \<and> (scope = FullArchive \<longrightarrow> get_blocks_version db \<noteq> None) \<and>
      open_storage scope db = (db', verify_storage_version db') \<and>
      with_versions (opened scope db) (Some (upgraded v)) (if scope = FullArchive then get_blocks_version db else None) db') \<or>
    (\<exists>db'. get_state_version db = None \<and> open_storage scope db = (db', Inr ()) \<and>
      with_versions (opened scope db) (Some STORAGE_VERSION_STATE)
        (if scope = FullArchive then Some STORAGE_VERSION_BLOCKS else None) db')"
proof -
  have os: "open_storage scope db =
      (case set_version_if_needed (opened scope db) of (db, Inl e) \<Rightarrow> (db, Inl e) | (db, Inr _) \<Rightarrow> (db, verify_storage_version db))"
    by (simp add: open_storage_def opened_def Let_def)
  consider (refused) v where "get_state_version db = Some v" "get_blocks_version db = None" "scope = FullArchive"
    | (existing) v where "get_state_version db = Some v" "scope = FullArchive \<longrightarrow> get_blocks_version db \<noteq> None"
    | (fresh) "get_state_version db = None"
    by (cases "get_state_version db"; cases "get_blocks_version db"; cases scope) auto
  then show ?thesis
  proof cases
    case refused
    then show ?thesis using set_version_refused [of "opened scope db" v] os by simp
  next
    case existing
    then obtain db' where "set_version_if_needed (opened scope db) = (db', Inr ())"
      "with_versions (opened scope db) (Some (upgraded v)) (if scope = FullArchive then get_blocks_version db else None) db'"
      using set_version_existing [of "opened scope db" v] by (cases scope) auto
    then show ?thesis using existing by (intro disjI2 disjI1) (simp add: os)
  next
    case fresh
    then obtain db' where db': "set_version_if_needed (opened scope db) = (db', Inr ())"
      "with_versions (opened scope db) (Some STORAGE_VERSION_STATE)
        (if scope = FullArchive then Some STORAGE_VERSION_BLOCKS else None) db'"
      using set_version_fresh [of "opened scope db"] assms by (cases scope) auto
    then have "verify_storage_version db' = Inr ()"
      using verify_ok(1) [of db' STORAGE_VERSION_STATE] by (simp add: with_versions_def)
    then show ?thesis using fresh db' by (intro disjI2) (simp add: os)
  qed
qed

section \<open>Properties\<close>

lemma with_versions_wf: "with_versions db (Some sv) bv db' \<Longrightarrow> versions_wf db'"
  by (simp add: with_versions_def versions_wf_def)

lemma open_storage_wf:
  assumes "versions_wf db"
  shows "versions_wf (fst (open_storage scope db))"
  using open_storage_cases [OF assms, of scope] assms by (auto dest: with_versions_wf)

text \<open>
  \<^bold>\<open>C34.\<close> Opening a storage in a scope never panics, and it succeeds exactly when the storage is new, or its
  state version has the major version of the crate and not a higher minor one, and, for the
  full-archive scope, its blocks version is the one of the crate. Then the storage has the state
  version of the crate, and the blocks version of the crate exactly in the full-archive scope, and
  nothing else in the database has changed but that the files were opened at the committed offsets.
\<close>

theorem open_storage_spec:
  assumes "versions_wf db" and "open_storage scope db = (db', r)"
  shows "(r = Inr () \<longleftrightarrow> versions_openable scope (get_state_version db) (get_blocks_version db)) \<and>
    (r = Inr () \<longrightarrow> with_versions (opened scope db) (Some STORAGE_VERSION_STATE)
       (if scope = FullArchive then Some STORAGE_VERSION_BLOCKS else None) db') \<and>
    (\<forall>msg. r \<noteq> Inl (SPanic msg))"
  using open_storage_cases [OF assms(1), of scope]
proof (elim disjE exE conjE)
  fix v
  assume "get_state_version db = Some v" "get_blocks_version db = None" "scope = FullArchive"
    "open_storage scope db = (opened scope db, Inl (SErr (StorageVersionInconsistency InconsistentStorageScope)))"
  then show ?thesis using assms(2) by (auto simp: versions_openable_def)
next
  fix db1 v
  let ?bv = "if scope = FullArchive then get_blocks_version db else None"
  assume sv: "get_state_version db = Some v" and bv: "scope = FullArchive \<longrightarrow> get_blocks_version db \<noteq> None"
    and op: "open_storage scope db = (db1, verify_storage_version db1)"
    and w: "with_versions (opened scope db) (Some (upgraded v)) ?bv db1"
  have "get_state_version db1 = Some (upgraded v)" "get_blocks_version db1 = ?bv"
    using w by (simp_all add: with_versions_def)
  then have ver: "verify_storage_version db1 = Inr () \<longleftrightarrow>
      upgraded v = STORAGE_VERSION_STATE \<and> ?bv \<in> {None, Some STORAGE_VERSION_BLOCKS}"
    and np: "\<And>msg. verify_storage_version db1 \<noteq> Inl (SPanic msg)"
    using verify_ok [of db1] by simp_all
  have dr: "db' = db1" "r = verify_storage_version db1" using op assms(2) by simp_all
  have "r = Inr () \<longleftrightarrow> versions_openable scope (get_state_version db) (get_blocks_version db)"
    using ver bv sv unfolding dr by (auto simp: versions_openable_def upgraded_ok)
  moreover have "with_versions (opened scope db) (Some STORAGE_VERSION_STATE)
      (if scope = FullArchive then Some STORAGE_VERSION_BLOCKS else None) db'" if "r = Inr ()"
    using that w bv unfolding dr ver by (cases scope) (auto split: if_splits)
  ultimately show ?thesis using np dr(2) by simp
next
  fix db1
  assume "get_state_version db = None" "open_storage scope db = (db1, Inr ())"
    "with_versions (opened scope db) (Some STORAGE_VERSION_STATE)
      (if scope = FullArchive then Some STORAGE_VERSION_BLOCKS else None) db1"
  then show ?thesis using assms(2) by (simp add: versions_openable_def)
qed

lemma empty_versions:
  "get_state_version (empty_txn FullArchive) = None" "get_blocks_version (empty_txn FullArchive) = None" "versions_wf (empty_txn FullArchive)"
  by (simp_all add: empty_txn_def version_tables versions_wf_def)

theorem open_storage_spec_witness:
  "versions_wf (empty_txn FullArchive) \<and> snd (open_storage FullArchive (empty_txn FullArchive)) = Inr () \<and>
   get_blocks_version (fst (open_storage FullArchive (empty_txn FullArchive))) = Some STORAGE_VERSION_BLOCKS"
  using open_storage_spec [OF empty_versions(3), of FullArchive]
  by (cases "open_storage FullArchive (empty_txn FullArchive)")
    (auto simp: empty_versions versions_openable_def with_versions_def)

definition state_only :: "storage_txn \<Rightarrow> bool" where
  "state_only db \<longleftrightarrow> versions_wf db \<and> get_state_version db \<noteq> None \<and> get_blocks_version db = None"

lemma state_only_open:
  assumes "state_only db"
  shows "state_only (fst (open_storage scope db))"
  using open_storage_cases [of db scope] open_storage_wf [of db scope] assms
  by (auto simp: with_versions_def state_only_def)

lemma state_only_fold:
  "state_only db \<Longrightarrow> state_only (fold (\<lambda>scope db. fst (open_storage scope db)) scopes db)"
  by (induction scopes arbitrary: db) (simp_all add: state_only_open)

lemma state_only_refused:
  "state_only db \<Longrightarrow>
   snd (open_storage FullArchive db) = Inl (SErr (StorageVersionInconsistency InconsistentStorageScope))"
  using open_storage_cases [of db FullArchive] by (auto simp: state_only_def)

text \<open>
  A storage that has once been opened in the state-only scope, successfully or not, can never be
  opened in the full-archive scope again: whatever openings come after, in any scopes, opening it in
  the full-archive scope is refused as an inconsistent scope. In particular an opening that fails
  because the versions do not fit has removed the blocks version for good.
\<close>

theorem state_only_forever:
  assumes "versions_wf db" and "get_state_version db \<noteq> None"
  shows "snd (open_storage FullArchive
      (fold (\<lambda>scope db. fst (open_storage scope db)) scopes (fst (open_storage StateOnly db)))) =
    Inl (SErr (StorageVersionInconsistency InconsistentStorageScope))"
proof -
  have "state_only (fst (open_storage StateOnly db))"
    using open_storage_cases [OF assms(1), of StateOnly] assms(2) open_storage_wf [OF assms(1), of StateOnly]
    by (auto simp: with_versions_def state_only_def)
  then have "state_only (fold (\<lambda>scope db. fst (open_storage scope db)) scopes (fst (open_storage StateOnly db)))"
    by (rule state_only_fold)
  then show ?thesis by (rule state_only_refused)
qed

theorem state_only_forever_witness:
  "snd (open_storage FullArchive (fst (open_storage StateOnly (fst (open_storage FullArchive (empty_txn FullArchive)))))) =
     Inl (SErr (StorageVersionInconsistency InconsistentStorageScope))"
proof -
  have "get_state_version (fst (open_storage FullArchive (empty_txn FullArchive))) \<noteq> None"
    using open_storage_cases [OF empty_versions(3), of FullArchive]
    by (auto simp: empty_versions with_versions_def)
  then show ?thesis
    using state_only_forever [OF open_storage_wf [OF empty_versions(3)], of FullArchive "[]"] by simp
qed

end
