(* ===== verification/Storage_Body.thy ===== *)
theory Storage_Body
  imports Storage_Txn
begin

text \<open>
  Block bodies: \<open>crates/papyrus_storage/src/body/mod.rs\<close>. Transactions and their outputs go to
  append-only files; the metadata table maps (block, offset) to their locations, and two index
  tables map a transaction hash to its position and a contract address to the transactions in which
  it emitted events.

  The abstract view is the list of stored blocks, each a list of transactions with their outputs
  and hashes. \<open>body_rel\<close> relates a transaction to it; appending a body appends a block, reverting
  removes the last one, and every reader returns what the list says.
\<close>

section \<open>Reading\<close>

definition get_body_marker :: "storage_txn \<Rightarrow> block_number" where
  "get_body_marker txn = get_marker txn MkBody"

definition get_transaction :: "storage_txn \<Rightarrow> tx_index \<Rightarrow> transaction option sresult" where
  "get_transaction txn idx =
     res_bind (open_table txn ''transaction_metadata'') (\<lambda>_.
       case tbl_get (tx_transaction_metadata txn) idx of
         None \<Rightarrow> Inr None
       | Some md \<Rightarrow> res_bind (get_transaction_unchecked txn (tm_tx_location md)) (\<lambda>tx. Inr (Some tx)))"

definition get_transaction_output :: "storage_txn \<Rightarrow> tx_index \<Rightarrow> tx_output option sresult" where
  "get_transaction_output txn idx =
     res_bind (open_table txn ''transaction_metadata'') (\<lambda>_.
       case tbl_get (tx_transaction_metadata txn) idx of
         None \<Rightarrow> Inr None
       | Some md \<Rightarrow>
           res_bind (get_transaction_output_unchecked txn (tm_tx_output_location md)) (\<lambda>out. Inr (Some out)))"

definition get_transaction_idx_by_hash :: "storage_txn \<Rightarrow> tx_hash \<Rightarrow> tx_index option sresult" where
  "get_transaction_idx_by_hash txn h =
     res_bind (open_table txn ''transaction_hash_to_idx'') (\<lambda>_.
       Inr (tbl_get (tx_transaction_hash_to_idx txn) h))"

definition get_transaction_hash_by_idx :: "storage_txn \<Rightarrow> tx_index \<Rightarrow> tx_hash option sresult" where
  "get_transaction_hash_by_idx txn idx =
     res_bind (open_table txn ''transaction_metadata'') (\<lambda>_.
       case tbl_get (tx_transaction_metadata txn) idx of
         None \<Rightarrow> Inr None
       | Some md \<Rightarrow> Inr (Some (tm_tx_hash md)))"

text \<open>The \<open>while let\<close> loop of \<open>get_vector_of_transaction_objects\<close>; it ends because the cursor moves on.\<close>

function collect_objects ::
  "(tx_index, transaction_metadata) table \<Rightarrow> (transaction_metadata \<Rightarrow> 'a sresult) \<Rightarrow> block_number \<Rightarrow>
   tx_index cursor \<Rightarrow> (tx_index \<times> transaction_metadata) option \<Rightarrow> 'a list \<Rightarrow> 'a list sresult" where
  "collect_objects t f b c None res = Inr res"
| "collect_objects t f b c (Some ((cur_b, _), md)) res =
     (if cur_b \<noteq> b then Inr res
      else res_bind (f md) (\<lambda>x.
        collect_objects t f b (fst (cursor_next t c)) (snd (cursor_next t c)) (res @ [x])))"
  by pat_completeness auto
termination
proof (relation "measure (\<lambda>(t, f, b, c, current, res).
    length (cursor_remaining t c) + (if current = None then 0 else 1))", goal_cases)
  case (2 t f b c cur_b i md res x)
  show ?case
    by (cases "cursor_remaining t c")
      (auto simp: cursor_next_remaining cursor_remaining_at, simp add: cursor_remaining_def)
qed simp

definition get_vector_of_transaction_objects ::
  "storage_txn \<Rightarrow> block_number \<Rightarrow> (transaction_metadata \<Rightarrow> 'a sresult) \<Rightarrow> 'a list option sresult" where
  "get_vector_of_transaction_objects txn b f =
     (if get_body_marker txn \<le> b then Inr None
      else case cursor_lower_bound (tx_transaction_metadata txn) (b, 0) of (c, current) \<Rightarrow>
        res_bind (collect_objects (tx_transaction_metadata txn) f b c current []) (\<lambda>res. Inr (Some res)))"

definition get_block_transactions :: "storage_txn \<Rightarrow> block_number \<Rightarrow> transaction list option sresult" where
  "get_block_transactions txn b =
     res_bind (open_table txn ''transaction_metadata'') (\<lambda>_.
       get_vector_of_transaction_objects txn b (\<lambda>md. get_transaction_unchecked txn (tm_tx_location md)))"

definition get_block_transaction_hashes :: "storage_txn \<Rightarrow> block_number \<Rightarrow> tx_hash list option sresult" where
  "get_block_transaction_hashes txn b =
     res_bind (open_table txn ''transaction_metadata'') (\<lambda>_.
       get_vector_of_transaction_objects txn b (\<lambda>md. Inr (tm_tx_hash md)))"

definition get_block_transaction_outputs :: "storage_txn \<Rightarrow> block_number \<Rightarrow> tx_output list option sresult" where
  "get_block_transaction_outputs txn b =
     res_bind (open_table txn ''transaction_metadata'') (\<lambda>_.
       get_vector_of_transaction_objects txn b
         (\<lambda>md. get_transaction_output_unchecked txn (tm_tx_output_location md)))"

definition get_block_transactions_count :: "storage_txn \<Rightarrow> block_number \<Rightarrow> nat option sresult" where
  "get_block_transactions_count txn b =
     (if get_body_marker txn \<le> b then Inr None
      else res_bind (open_table txn ''transaction_metadata'') (\<lambda>_.
        case bn_next b of
          None \<Rightarrow> Inr None
        | Some next_block_number \<Rightarrow>
            (case tbl_before (tx_transaction_metadata txn) (next_block_number, 0) of
               None \<Rightarrow> Inr (Some 0)
             | Some ((received_block_number, last_tx_index), _) \<Rightarrow>
                 if received_block_number \<noteq> b then Inr (Some 0) else Inr (Some (last_tx_index + 1)))))"

section \<open>Writing\<close>

definition body_update_marker :: "storage_txn \<Rightarrow> block_number \<Rightarrow> storage_txn sresult" where
  "body_update_marker txn b =
     (if get_marker txn MkBody \<noteq> b then Inl (SErr (MarkerMismatch (get_marker txn MkBody) b))
      else if get_marker txn MkEvent \<noteq> b then Inl (SErr (MarkerMismatch (get_marker txn MkEvent) b))
      else Inr (set_marker (set_marker txn MkBody (Suc b)) MkEvent (Suc b)))"

text \<open>
  The contract addresses of a transaction's events are collected in a \<open>HashSet\<close>; the order in which
  it is iterated makes no difference (\<open>write_events_order\<close> below).
\<close>

definition write_event :: "tx_index \<Rightarrow> contract_address \<Rightarrow> storage_txn \<Rightarrow> storage_txn sresult" where
  "write_event idx a txn =
     res_bind (db_res (tbl_append_greater_sub_key (tx_events txn) (a, idx) ()))
       (\<lambda>t. Inr (txn\<lparr>tx_events := t\<rparr>))"

definition write_events :: "tx_output \<Rightarrow> tx_index \<Rightarrow> storage_txn \<Rightarrow> storage_txn sresult" where
  "write_events out idx txn =
     fold_res (write_event idx) (remdups (map ev_from_address (out_events out))) txn"

definition write_transaction ::
  "serde_sizes \<Rightarrow> block_number \<Rightarrow> nat \<Rightarrow> nat \<times> (transaction \<times> tx_output) \<times> tx_hash \<Rightarrow>
   storage_txn \<Rightarrow> storage_txn sresult" where
  "write_transaction sz b n_txs entry txn =
     (case entry of (index, (tx, out), h) \<Rightarrow>
        let idx = (b, index);
            (txn, tx_location) = append_transaction sz txn tx;
            (txn, tx_output_location) = append_transaction_output sz txn out
        in res_bind (write_events out idx txn) (\<lambda>txn.
           res_bind (db_res (tbl_insert ''transaction_hash_to_idx''
               (tx_transaction_hash_to_idx txn) h idx)) (\<lambda>t1.
           let txn = txn\<lparr>tx_transaction_hash_to_idx := t1\<rparr> in
           res_bind (db_res (tbl_append (tx_transaction_metadata txn) idx
               \<lparr>tm_tx_hash = h, tm_tx_location = tx_location, tm_tx_output_location = tx_output_location\<rparr>))
             (\<lambda>t2.
           let txn = txn\<lparr>tx_transaction_metadata := t2\<rparr> in
           Inr (if index = n_txs - 1
                then set_file_offset (set_file_offset txn OkTransaction tx_location)
                       OkTransactionOutput tx_output_location
                else txn)))))"

definition write_transactions ::
  "serde_sizes \<Rightarrow> block_body \<Rightarrow> block_number \<Rightarrow> storage_txn \<Rightarrow> storage_txn sresult" where
  "write_transactions sz body b txn =
     fold_res (write_transaction sz b (length (bb_transactions body)))
       (enumerate 0 (zip (zip (bb_transactions body) (bb_transaction_outputs body))
          (bb_transaction_hashes body))) txn"

definition append_body :: "serde_sizes \<Rightarrow> storage_txn \<Rightarrow> block_number \<Rightarrow> block_body \<Rightarrow> storage_txn sresult" where
  "append_body sz txn b body =
     res_bind (body_update_marker txn b) (\<lambda>txn.
       if tx_scope txn \<noteq> StateOnly then
         res_bind (open_table txn ''events'') (\<lambda>_.
         res_bind (open_table txn ''transaction_hash_to_idx'') (\<lambda>_.
         res_bind (open_table txn ''transaction_metadata'') (\<lambda>_.
           write_transactions sz body b txn)))
       else Inr txn)"

definition delete_transaction ::
  "block_number \<Rightarrow> nat \<times> tx_hash \<times> tx_output \<Rightarrow> storage_txn \<Rightarrow> storage_txn" where
  "delete_transaction b entry txn =
     (case entry of (offset, h, out) \<Rightarrow>
        let idx = (b, offset);
            txn = fold (\<lambda>e txn. txn\<lparr>tx_events := tbl_delete (tx_events txn) (ev_from_address e, idx)\<rparr>)
                    (out_events out) txn;
            txn = txn\<lparr>tx_transaction_hash_to_idx := tbl_delete (tx_transaction_hash_to_idx txn) h\<rparr>
        in txn\<lparr>tx_transaction_metadata := tbl_delete (tx_transaction_metadata txn) idx\<rparr>)"

type_synonym reverted_block_body = "transaction list \<times> tx_output list \<times> tx_hash list"

definition revert_body ::
  "storage_txn \<Rightarrow> block_number \<Rightarrow> (storage_txn \<times> reverted_block_body option) sresult" where
  "revert_body txn b =
     (if (case bn_next b of None \<Rightarrow> True | Some next_b \<Rightarrow> get_body_marker txn \<noteq> next_b)
      then Inr (txn, None)
      else
        let finish = (\<lambda>(txn, reverted).
              Inr (set_marker (set_marker txn MkBody b) MkEvent b, reverted))
        in if tx_scope txn = StateOnly then finish (txn, None)
           else res_bind (get_block_transactions txn b) (\<lambda>transactions.
             case transactions of None \<Rightarrow> Inl (SPanic ''Missing transactions'') | Some transactions \<Rightarrow>
             res_bind (get_block_transaction_outputs txn b) (\<lambda>outputs.
             case outputs of None \<Rightarrow> Inl (SPanic ''Missing transaction outputs'') | Some outputs \<Rightarrow>
             res_bind (get_block_transaction_hashes txn b) (\<lambda>hashes.
             case hashes of None \<Rightarrow> Inl (SPanic ''Missing transaction hashes'') | Some hashes \<Rightarrow>
             finish (fold (delete_transaction b) (enumerate 0 (zip hashes outputs)) txn,
                     Some (transactions, outputs, hashes))))))"

section \<open>Collecting the objects of a block\<close>

lemma collect_objects_spec:
  assumes "current = (case ks of [] \<Rightarrow> None | k # _ \<Rightarrow> Some (tbl_entry t k))"
    and "ks \<noteq> [] \<Longrightarrow> cursor_remaining t c = tl ks"
  shows "collect_objects t f b c current res =
    res_bind (map_res (\<lambda>k. f (the (fmlookup t k))) (takeWhile (\<lambda>k. fst k = b) ks)) (\<lambda>xs. Inr (res @ xs))"
  using assms
proof (induction ks arbitrary: c current res)
  case (Cons k ks)
  obtain kb ki where k: "k = (kb, ki)" by (cases k)
  have rem: "cursor_remaining t c = ks" using Cons.prems(2) by simp
  have next_eq: "snd (cursor_next t c) = (case ks of [] \<Rightarrow> None | k # _ \<Rightarrow> Some (tbl_entry t k))"
    by (simp add: cursor_next_remaining rem split: list.split)
  have next_rem: "cursor_remaining t (fst (cursor_next t c)) = tl ks" if "ks \<noteq> []"
    using that cursor_remaining_at [of t c] rem
    by (cases ks) (auto simp: cursor_next_remaining)
  note IH = Cons.IH [OF next_eq next_rem]
  show ?case
  proof (cases "kb = b")
    case True
    show ?thesis
    proof (cases "f (the (fmlookup t k))")
      case (Inr x)
      with IH [of "res @ [x]"] True k Cons.prems(1) show ?thesis
        by (cases "map_res (\<lambda>k. f (the (fmlookup t k))) (takeWhile (\<lambda>k. fst k = b) ks)")
          (simp_all add: tbl_entry_def)
    qed (use True k Cons.prems(1) in \<open>simp add: tbl_entry_def\<close>)
  qed (use k Cons.prems(1) in \<open>simp add: tbl_entry_def\<close>)
qed simp

lemma takeWhile_block:
  assumes "sorted xs"
  shows "takeWhile (\<lambda>k. fst k = b) (filter (\<lambda>x. (b, 0) \<le> x) xs) =
    filter (\<lambda>k :: nat \<times> nat. fst k = b) xs"
  using assms
proof (induction xs)
  case (Cons x xs)
  obtain xb xi where x: "x = (xb, xi)" by (cases x)
  show ?case
  proof (cases xb b rule: linorder_cases)
    case greater
    then have "\<forall>y \<in> set xs. fst y \<noteq> b" using Cons.prems x by fastforce
    then show ?thesis using greater x by (simp add: filter_False)
  qed (use Cons x in \<open>simp_all add: less_eq_prod_def\<close>)
qed simp

lemma get_vector_spec:
  "get_vector_of_transaction_objects txn b f =
     (if get_body_marker txn \<le> b then Inr None
      else res_bind (map_res (\<lambda>k. f (the (fmlookup (tx_transaction_metadata txn) k)))
          (filter (\<lambda>k. fst k = b) (tbl_keys (tx_transaction_metadata txn)))) (\<lambda>res. Inr (Some res)))"
proof -
  let ?t = "tx_transaction_metadata txn"
  define ks where "ks = filter (\<lambda>x. (b, 0) \<le> x) (tbl_keys ?t)"
  obtain c current where lb: "cursor_lower_bound ?t (b, 0) = (c, current)"
    by (cases "cursor_lower_bound ?t (b, 0)")
  have cur: "current = (case ks of [] \<Rightarrow> None | k # _ \<Rightarrow> Some (tbl_entry ?t k))"
    and c: "ks \<noteq> [] \<Longrightarrow> c = CurAt (hd ks)"
    using lb by (auto simp: cursor_lower_bound_remaining ks_def split: list.splits)
  have "cursor_remaining ?t c = tl ks" if "ks \<noteq> []"
    using that c lower_bound_remaining_at [of "(b, 0)" ?t "hd ks" "tl ks"] by (simp add: ks_def)
  from collect_objects_spec [OF cur this, of f b "[]"]
  have "collect_objects ?t f b c current [] =
      map_res (\<lambda>k. f (the (fmlookup ?t k))) (filter (\<lambda>k. fst k = b) (tbl_keys ?t))"
    using takeWhile_block [of "tbl_keys ?t" b]
    by (cases "map_res (\<lambda>k. f (the (fmlookup ?t k))) (filter (\<lambda>k. fst k = b) (tbl_keys ?t))")
      (simp_all add: ks_def)
  then show ?thesis by (simp add: get_vector_of_transaction_objects_def lb)
qed

lemma block_keys:
  assumes "\<And>i. (b, i) |\<in>| fmdom t \<longleftrightarrow> i < n"
  shows "filter (\<lambda>k. fst k = b) (tbl_keys t) = map (Pair b) [0..<n]"
proof (rule sorted_distinct_set_unique)
  show "sorted (filter (\<lambda>k. fst k = b) (tbl_keys t))" by (rule sorted_wrt_filter) simp
  show "sorted (map (Pair b) [0..<n])"
    by (simp add: sorted_iff_nth_mono less_eq_prod_def)
  have "k \<in> set (filter (\<lambda>k. fst k = b) (tbl_keys t)) \<longleftrightarrow> k \<in> set (map (Pair b) [0..<n])" for k
    using assms [of "snd k"] by (cases k) auto
  then show "set (filter (\<lambda>k. fst k = b) (tbl_keys t)) = set (map (Pair b) [0..<n])" by blast
  show "distinct (map (Pair b) [0..<n])" by (simp add: distinct_map inj_on_def)
qed simp

section \<open>The abstract view\<close>

type_synonym stored_tx = "(transaction \<times> tx_output) \<times> tx_hash"

definition event_addresses :: "tx_output \<Rightarrow> contract_address set" where
  "event_addresses out = ev_from_address ` set (out_events out)"

definition stored_as :: "storage_txn \<Rightarrow> transaction_metadata \<Rightarrow> stored_tx \<Rightarrow> bool" where
  "stored_as txn md e \<longleftrightarrow>
     tm_tx_hash md = snd e \<and>
     file_get (fs_transaction (tx_file_handlers txn)) (tm_tx_location md) = Some (fst (fst e)) \<and>
     file_get (fs_transaction_output (tx_file_handlers txn)) (tm_tx_output_location md) = Some (snd (fst e))"

text \<open>The tables hold exactly the transactions of \<open>A\<close>, a map from positions.\<close>

definition body_tables :: "storage_txn \<Rightarrow> (tx_index \<rightharpoonup> stored_tx) \<Rightarrow> bool" where
  "body_tables txn A \<longleftrightarrow>
     (\<forall>idx. rel_option (stored_as txn) (fmlookup (tx_transaction_metadata txn) idx) (A idx)) \<and>
     (\<forall>h idx. fmlookup (tx_transaction_hash_to_idx txn) h = Some idx \<longleftrightarrow> (\<exists>e. A idx = Some (e, h))) \<and>
     (\<forall>a idx. (a, idx) |\<in>| fmdom (tx_events txn) \<longleftrightarrow>
        (\<exists>e. A idx = Some e \<and> a \<in> event_addresses (snd (fst e)))) \<and>
     file_wf (fs_transaction (tx_file_handlers txn)) \<and>
     file_wf (fs_transaction_output (tx_file_handlers txn))"

definition tx_at :: "stored_tx list list \<Rightarrow> tx_index \<Rightarrow> stored_tx option" where
  "tx_at bs idx = (case idx of (b, i) \<Rightarrow>
     if b < length bs \<and> i < length (bs ! b) then Some (bs ! b ! i) else None)"

definition body_rel :: "storage_txn \<Rightarrow> stored_tx list list \<Rightarrow> bool" where
  "body_rel txn bs \<longleftrightarrow>
     tx_scope txn = FullArchive \<and> get_marker txn MkBody = length bs \<and>
     get_marker txn MkEvent = length bs \<and> body_tables txn (tx_at bs)"

lemma body_tablesI:
  assumes "\<And>idx. rel_option (stored_as txn) (fmlookup (tx_transaction_metadata txn) idx) (A idx)"
    and "\<And>h idx. fmlookup (tx_transaction_hash_to_idx txn) h = Some idx \<longleftrightarrow> (\<exists>e. A idx = Some (e, h))"
    and "\<And>a idx. (a, idx) |\<in>| fmdom (tx_events txn) \<longleftrightarrow>
        (\<exists>e. A idx = Some e \<and> a \<in> event_addresses (snd (fst e)))"
    and "file_wf (fs_transaction (tx_file_handlers txn))"
    and "file_wf (fs_transaction_output (tx_file_handlers txn))"
  shows "body_tables txn A"
  unfolding body_tables_def using assms by blast

lemma body_tablesD:
  assumes "body_tables txn A"
  shows "rel_option (stored_as txn) (fmlookup (tx_transaction_metadata txn) idx) (A idx)"
    and "fmlookup (tx_transaction_hash_to_idx txn) h = Some idx \<longleftrightarrow> (\<exists>e. A idx = Some (e, h))"
    and "(a, idx) |\<in>| fmdom (tx_events txn) \<longleftrightarrow>
        (\<exists>e. A idx = Some e \<and> a \<in> event_addresses (snd (fst e)))"
    and "file_wf (fs_transaction (tx_file_handlers txn))"
    and "file_wf (fs_transaction_output (tx_file_handlers txn))"
  using assms unfolding body_tables_def by blast+

section \<open>Reading back\<close>

lemma body_rel_marker: "body_rel txn bs \<Longrightarrow> get_body_marker txn = length bs"
  by (simp add: body_rel_def get_body_marker_def)

lemma body_rel_open [simp]: "body_rel txn bs \<Longrightarrow> open_table txn name = Inr ()"
  by (simp add: body_rel_def open_table_def)

lemma tx_at_eq_Some: "tx_at bs (b, i) = Some e \<longleftrightarrow> b < length bs \<and> i < length (bs ! b) \<and> e = bs ! b ! i"
  by (auto simp: tx_at_def)

lemma body_tables_lookup:
  assumes "body_tables txn A"
  shows "fmlookup (tx_transaction_metadata txn) idx = None \<longleftrightarrow> A idx = None"
    and "A idx = Some e \<Longrightarrow> \<exists>md. fmlookup (tx_transaction_metadata txn) idx = Some md \<and> stored_as txn md e"
  using body_tablesD(1) [OF assms, of idx] by (auto simp: option_rel_Some2 elim: option.rel_cases)

lemma body_rel_keys:
  assumes "body_rel txn bs" and "b < length bs"
  shows "filter (\<lambda>k. fst k = b) (tbl_keys (tx_transaction_metadata txn)) =
    map (Pair b) [0..<length (bs ! b)]"
proof (rule block_keys)
  fix i
  have "body_tables txn (tx_at bs)" using assms(1) by (simp add: body_rel_def)
  from body_tables_lookup(1) [OF this, of "(b, i)"]
  show "(b, i) |\<in>| fmdom (tx_transaction_metadata txn) \<longleftrightarrow> i < length (bs ! b)"
    using assms(2) by (auto simp: tx_at_def fmlookup_dom_iff split: if_splits)
qed

lemma body_rel_vector:
  assumes "body_rel txn bs"
    and "\<And>md e. stored_as txn md e \<Longrightarrow> f md = Inr (g e)"
  shows "get_vector_of_transaction_objects txn b f =
    Inr (if b < length bs then Some (map g (bs ! b)) else None)"
proof (cases "b < length bs")
  case True
  let ?t = "tx_transaction_metadata txn"
  have tables: "body_tables txn (tx_at bs)" using assms(1) by (simp add: body_rel_def)
  have "map_res (\<lambda>k. f (the (fmlookup ?t k))) (map (Pair b) [0..<length (bs ! b)]) =
      Inr (map (\<lambda>k. g (bs ! b ! snd k)) (map (Pair b) [0..<length (bs ! b)]))"
  proof (rule map_res_Inr)
    fix k assume "k \<in> set (map (Pair b) [0..<length (bs ! b)])"
    then obtain i where k: "k = (b, i)" "i < length (bs ! b)" by auto
    then have "tx_at bs k = Some (bs ! b ! i)" using True by (simp add: tx_at_eq_Some)
    from body_tables_lookup(2) [OF tables this] obtain md
      where "fmlookup ?t k = Some md" and "stored_as txn md (bs ! b ! i)" by blast
    then show "f (the (fmlookup ?t k)) = Inr (g (bs ! b ! snd k))"
      using k by (simp add: assms(2))
  qed
  moreover have "map (\<lambda>k. g (bs ! b ! snd k)) (map (Pair b) [0..<length (bs ! b)]) = map g (bs ! b)"
    by (rule nth_equalityI) simp_all
  ultimately show ?thesis
    using True body_rel_keys [OF assms(1) True] body_rel_marker [OF assms(1)] by (simp add: get_vector_spec)
qed (use body_rel_marker [OF assms(1)] in \<open>simp add: get_vector_spec\<close>)

lemma stored_as_reads:
  assumes "stored_as txn md e"
  shows "get_transaction_unchecked txn (tm_tx_location md) = Inr (fst (fst e))"
    and "get_transaction_output_unchecked txn (tm_tx_output_location md) = Inr (snd (fst e))"
    and "tm_tx_hash md = snd e"
  using assms
  by (simp_all add: stored_as_def get_transaction_unchecked_def get_transaction_output_unchecked_def
      file_get_unchecked_def)

lemma body_rel_block_reads:
  assumes "body_rel txn bs"
  shows "get_block_transactions txn b =
      Inr (if b < length bs then Some (map (fst \<circ> fst) (bs ! b)) else None)"
    and "get_block_transaction_outputs txn b =
      Inr (if b < length bs then Some (map (snd \<circ> fst) (bs ! b)) else None)"
    and "get_block_transaction_hashes txn b =
      Inr (if b < length bs then Some (map snd (bs ! b)) else None)"
  using assms
  by (simp_all add: get_block_transactions_def get_block_transaction_outputs_def
      get_block_transaction_hashes_def body_rel_vector [OF assms] stored_as_reads)

lemma body_rel_tx_reads:
  assumes "body_rel txn bs"
  shows "get_transaction txn idx = Inr (map_option (fst \<circ> fst) (tx_at bs idx))"
    and "get_transaction_output txn idx = Inr (map_option (snd \<circ> fst) (tx_at bs idx))"
    and "get_transaction_hash_by_idx txn idx = Inr (map_option snd (tx_at bs idx))"
proof -
  have tables: "body_tables txn (tx_at bs)" using assms by (simp add: body_rel_def)
  note lookup = body_tables_lookup [OF tables, of idx]
  show "get_transaction txn idx = Inr (map_option (fst \<circ> fst) (tx_at bs idx))"
    and "get_transaction_output txn idx = Inr (map_option (snd \<circ> fst) (tx_at bs idx))"
    and "get_transaction_hash_by_idx txn idx = Inr (map_option snd (tx_at bs idx))"
    using lookup assms
    by (cases "tx_at bs idx"; auto simp: get_transaction_def get_transaction_output_def
        get_transaction_hash_by_idx_def tbl_get_def stored_as_reads)+
qed

lemma body_rel_count:
  assumes "body_rel txn bs" and "b < u64_max"
  shows "get_block_transactions_count txn b = Inr (if b < length bs then Some (length (bs ! b)) else None)"
proof (cases "b < length bs")
  case True
  let ?t = "tx_transaction_metadata txn"
  have dom: "(b', i) |\<in>| fmdom ?t \<longleftrightarrow> b' < length bs \<and> i < length (bs ! b')" for b' i
  proof -
    have "body_tables txn (tx_at bs)" using assms(1) by (simp add: body_rel_def)
    from body_tables_lookup(1) [OF this, of "(b', i)"] show ?thesis
      by (auto simp: tx_at_def fmlookup_dom_iff split: if_splits)
  qed
  have "(case tbl_before ?t (Suc b, 0) of None \<Rightarrow> Inr (Some 0)
      | Some ((b', i), _) \<Rightarrow> if b' \<noteq> b then Inr (Some 0) else Inr (Some (i + 1))) =
      (Inr (Some (length (bs ! b))) :: nat option sresult)"
  proof (cases "bs ! b = []")
    case True
    have "b' \<noteq> b" if "tbl_before ?t (Suc b, 0) = Some ((b', i), md)" for b' i md
      using that dom [of b' i] True by (auto simp: tbl_before_eq_Some dest: fmdomI)
    then show ?thesis using True by (auto split: option.split prod.split)
  next
    case False
    let ?i = "length (bs ! b) - 1"
    have in_dom: "(b, ?i) |\<in>| fmdom ?t" using \<open>b < length bs\<close> False dom by simp
    then obtain md where "fmlookup ?t (b, ?i) = Some md" by (auto simp: fmlookup_dom_iff)
    moreover have "x \<le> (b, ?i)" if "x |\<in>| fmdom ?t" "x < (Suc b, 0)" for x
      using that dom [of "fst x" "snd x"]
      by (cases x; cases "fst x = b") (auto simp: less_prod_def less_eq_prod_def)
    ultimately have "tbl_before ?t (Suc b, 0) = Some ((b, ?i), md)"
      by (auto simp: tbl_before_eq_Some less_prod_def)
    then show ?thesis using False by simp
  qed
  then show ?thesis using True assms body_rel_marker [OF assms(1)]
    by (simp add: get_block_transactions_count_def bn_next_def)
qed (use body_rel_marker [OF assms(1)] in \<open>simp add: get_block_transactions_count_def\<close>)

section \<open>Appending\<close>

text \<open>Indexing the events of a transaction: only the events table changes, by the addresses.\<close>

lemma write_event_eq_Inr:
  "write_event idx a txn = Inr txn' \<longleftrightarrow>
     (\<forall>i. (a, i) |\<in>| fmdom (tx_events txn) \<longrightarrow> i < idx) \<and>
     txn' = txn\<lparr>tx_events := fmupd (a, idx) () (tx_events txn)\<rparr>"
  by (auto simp: write_event_def res_simps)

lemma write_event_fold:
  assumes "fold_res (write_event idx) as txn = Inr txn'"
  shows "\<exists>t. txn' = txn\<lparr>tx_events := t\<rparr> \<and>
    (\<forall>k. k |\<in>| fmdom t \<longleftrightarrow> k |\<in>| fmdom (tx_events txn) \<or> (fst k \<in> set as \<and> snd k = idx))"
  using assms
proof (induction as arbitrary: txn)
  case Nil
  then show ?case by (intro exI [of _ "tx_events txn"]) simp
next
  case (Cons a as)
  define u where "u = fmupd (a, idx) () (tx_events txn)"
  have "fold_res (write_event idx) as (txn\<lparr>tx_events := u\<rparr>) = Inr txn'"
    using Cons.prems by (auto simp: res_bind_eq_Inr write_event_eq_Inr u_def)
  from Cons.IH [OF this] obtain t where t: "txn' = txn\<lparr>tx_events := t\<rparr>"
    "\<And>k. k |\<in>| fmdom t \<longleftrightarrow> k |\<in>| fmdom u \<or> (fst k \<in> set as \<and> snd k = idx)"
    by auto
  show ?case
  proof (intro exI [of _ t] conjI allI)
    fix k show "k |\<in>| fmdom t \<longleftrightarrow> k |\<in>| fmdom (tx_events txn) \<or> (fst k \<in> set (a # as) \<and> snd k = idx)"
      using t(2) [of k] by (cases k) (auto simp: u_def)
  qed (rule t(1))
qed

lemma write_events_Inr:
  assumes "write_events out idx txn = Inr txn'"
  shows "\<exists>t. txn' = txn\<lparr>tx_events := t\<rparr> \<and>
    (\<forall>k. k |\<in>| fmdom t \<longleftrightarrow> k |\<in>| fmdom (tx_events txn) \<or> (fst k \<in> event_addresses out \<and> snd k = idx))"
  using write_event_fold [OF assms [unfolded write_events_def]] by (simp add: event_addresses_def)

lemma write_event_fold_ok:
  assumes "distinct as" and "\<And>a i. a \<in> set as \<Longrightarrow> (a, i) |\<in>| fmdom (tx_events txn) \<Longrightarrow> i < idx"
  shows "\<exists>txn'. fold_res (write_event idx) as txn = Inr txn'"
  using assms
proof (induction as arbitrary: txn)
  case (Cons a as)
  define u where "u = fmupd (a, idx) () (tx_events txn)"
  have step: "write_event idx a txn = Inr (txn\<lparr>tx_events := u\<rparr>)"
    using Cons.prems(2) [of a] by (simp add: write_event_eq_Inr u_def)
  have "\<exists>txn'. fold_res (write_event idx) as (txn\<lparr>tx_events := u\<rparr>) = Inr txn'"
  proof (rule Cons.IH)
    fix a' i assume "a' \<in> set as" and "(a', i) |\<in>| fmdom (tx_events (txn\<lparr>tx_events := u\<rparr>))"
    then show "i < idx" using Cons.prems(1) Cons.prems(2) [of a' i] by (auto simp: u_def)
  qed (use Cons.prems in simp)
  then show ?case by (simp add: step)
qed simp

text \<open>One transaction.\<close>

lemma write_transaction_unfold:
  assumes "file_append (sz_transaction sz) (fs_transaction (tx_file_handlers txn)) tx = (f1, l1)"
    and "file_append (sz_transaction_output sz) (fs_transaction_output (tx_file_handlers txn)) out = (f2, l2)"
  shows "write_transaction sz b n (i, (tx, out), h) txn =
    res_bind (write_events out (b, i)
      (txn\<lparr>tx_file_handlers := (tx_file_handlers txn)\<lparr>fs_transaction := f1, fs_transaction_output := f2\<rparr>\<rparr>))
      (\<lambda>txn1.
    res_bind (db_res (tbl_insert ''transaction_hash_to_idx'' (tx_transaction_hash_to_idx txn1) h (b, i)))
      (\<lambda>t1. res_bind (db_res (tbl_append (tx_transaction_metadata txn1) (b, i)
          \<lparr>tm_tx_hash = h, tm_tx_location = l1, tm_tx_output_location = l2\<rparr>)) (\<lambda>t2.
        let u = txn1\<lparr>tx_transaction_hash_to_idx := t1, tx_transaction_metadata := t2\<rparr> in
        Inr (if i = n - 1 then set_file_offset (set_file_offset u OkTransaction l1) OkTransactionOutput l2
             else u))))"
  using assms
  by (simp add: write_transaction_def append_transaction_def append_transaction_output_def Let_def)

lemma write_transaction_tables:
  assumes step: "write_transaction sz b n (i, (tx, out), h) txn = Inr txn'"
    and tables: "body_tables txn A" and fresh: "A (b, i) = None" and sz: "sizes_positive sz"
  shows "body_tables txn' (A((b, i) \<mapsto> ((tx, out), h))) \<and>
    tx_scope txn' = tx_scope txn \<and> tx_markers txn' = tx_markers txn"
proof -
  obtain f1 l1 where a1: "file_append (sz_transaction sz) (fs_transaction (tx_file_handlers txn)) tx = (f1, l1)"
    by fastforce
  obtain f2 l2 where a2:
    "file_append (sz_transaction_output sz) (fs_transaction_output (tx_file_handlers txn)) out = (f2, l2)"
    by fastforce
  define fs where "fs = (tx_file_handlers txn)\<lparr>fs_transaction := f1, fs_transaction_output := f2\<rparr>"
  define md where "md = \<lparr>tm_tx_hash = h, tm_tx_location = l1, tm_tx_output_location = l2\<rparr>"
  note step' = step [unfolded write_transaction_unfold [OF a1 a2], folded fs_def md_def]
  from step' obtain txn1 where ev: "write_events out (b, i) (txn\<lparr>tx_file_handlers := fs\<rparr>) = Inr txn1"
    by (auto simp: res_bind_eq_Inr)
  note rest = step' [unfolded ev res_bind_Inr]
  obtain t where t: "txn1 = txn\<lparr>tx_file_handlers := fs, tx_events := t\<rparr>"
    and dom: "\<And>k. k |\<in>| fmdom t \<longleftrightarrow> k |\<in>| fmdom (tx_events txn) \<or> (fst k \<in> event_addresses out \<and> snd k = (b, i))"
    using write_events_Inr [OF ev] by auto
  have h: "fmlookup (tx_transaction_hash_to_idx txn) h = None"
    using rest by (auto simp: res_bind_eq_Inr db_res_eq_Inr tbl_insert_eq_Inr t)
  have txn': "tx_transaction_hash_to_idx txn' = fmupd h (b, i) (tx_transaction_hash_to_idx txn)"
    "tx_transaction_metadata txn' = fmupd (b, i) md (tx_transaction_metadata txn)"
    "tx_events txn' = t" "tx_file_handlers txn' = fs"
    "tx_scope txn' = tx_scope txn" "tx_markers txn' = tx_markers txn"
    using rest
    by (clarsimp simp: res_bind_eq_Inr db_res_eq_Inr tbl_insert_eq_Inr tbl_append_eq_Inr t Let_def
        set_file_offset_def split: if_splits)+
  note D = body_tablesD [OF tables]
  have new: "stored_as txn' md ((tx, out), h)"
    by (simp add: stored_as_def md_def txn' fs_def file_append_get [OF a1] file_append_get [OF a2])
  have old: "stored_as txn' md' e" if "stored_as txn md' e" for md' e
    using that file_append_keeps [OF a1 D(4)] file_append_keeps [OF a2 D(5)]
    by (simp add: stored_as_def txn' fs_def)
  have pos: "0 < sz_transaction sz tx" "0 < sz_transaction_output sz out"
    using sz by (simp_all add: sizes_positive_def)
  have "body_tables txn' (A((b, i) \<mapsto> ((tx, out), h)))"
  proof (rule body_tablesI)
    fix idx
    show "rel_option (stored_as txn') (fmlookup (tx_transaction_metadata txn') idx)
        ((A((b, i) \<mapsto> ((tx, out), h))) idx)"
      using D(1) [of idx] new by (cases "idx = (b, i)") (auto simp: txn' intro: old option.rel_mono_strong)
  next
    fix h' idx
    have "A idx \<noteq> Some (e, h)" for e using D(2) [of h idx] h by (cases e) auto
    then show "fmlookup (tx_transaction_hash_to_idx txn') h' = Some idx \<longleftrightarrow>
        (\<exists>e. (A((b, i) \<mapsto> ((tx, out), h))) idx = Some (e, h'))"
      using D(2) [of h' idx] fresh by (auto simp: txn')
  next
    fix a idx
    show "(a, idx) |\<in>| fmdom (tx_events txn') \<longleftrightarrow>
        (\<exists>e. (A((b, i) \<mapsto> ((tx, out), h))) idx = Some e \<and> a \<in> event_addresses (snd (fst e)))"
      using D(3) [of a idx] fresh dom [of "(a, idx)"] by (auto simp: txn')
  next
    show "file_wf (fs_transaction (tx_file_handlers txn'))"
      using file_append_wf [where len = "sz_transaction sz", OF D(4) pos(1) a1] by (simp add: txn' fs_def)
    show "file_wf (fs_transaction_output (tx_file_handlers txn'))"
      using file_append_wf [where len = "sz_transaction_output sz", OF D(5) pos(2) a2] by (simp add: txn' fs_def)
  qed
  then show ?thesis by (simp add: txn')
qed

text \<open>The loop over the block's transactions.\<close>

lemma tx_at_snoc:
  "tx_at (bs @ [cur @ [e]]) = (tx_at (bs @ [cur]))((length bs, length cur) \<mapsto> e)"
  by (auto simp: tx_at_def fun_eq_iff nth_append split: prod.splits)

lemma tx_at_empty_block: "tx_at (bs @ [[]]) = tx_at bs"
  by (auto simp: tx_at_def fun_eq_iff nth_append split: prod.splits)

lemma write_transaction_fold:
  assumes "fold_res (write_transaction sz (length bs) n) (enumerate (length cur) es) txn = Inr txn'"
    and "body_tables txn (tx_at (bs @ [cur]))" and "sizes_positive sz"
  shows "body_tables txn' (tx_at (bs @ [cur @ es])) \<and>
    tx_scope txn' = tx_scope txn \<and> tx_markers txn' = tx_markers txn"
  using assms
proof (induction es arbitrary: cur txn)
  case (Cons e es)
  obtain tx out h where e: "e = ((tx, out), h)" by (cases e) auto
  obtain u where u: "write_transaction sz (length bs) n (length cur, (tx, out), h) txn = Inr u"
    and rest: "fold_res (write_transaction sz (length bs) n) (enumerate (length (cur @ [e])) es) u = Inr txn'"
    using Cons.prems(1) by (auto simp: e res_bind_eq_Inr)
  have "tx_at (bs @ [cur]) (length bs, length cur) = None" by (simp add: tx_at_def)
  note step = write_transaction_tables [OF u Cons.prems(2) this Cons.prems(3)]
  then have "body_tables u (tx_at (bs @ [cur @ [e]]))" by (simp only: tx_at_snoc e)
  from Cons.IH [OF rest this Cons.prems(3)] step show ?case by simp
qed simp

definition body_block :: "block_body \<Rightarrow> stored_tx list" where
  "body_block body = zip (zip (bb_transactions body) (bb_transaction_outputs body)) (bb_transaction_hashes body)"

lemma set_marker_body_tables [simp]: "body_tables (set_marker txn k b) A = body_tables txn A"
  by (simp add: body_tables_def stored_as_def [abs_def] set_marker_def)

lemma open_table_set_marker [simp]: "open_table (set_marker txn k b) name = open_table txn name"
  by (simp add: open_table_def)

lemma get_marker_cong: "tx_markers txn = tx_markers txn' \<Longrightarrow> get_marker txn k = get_marker txn' k"
  by (simp add: get_marker_def)

lemma append_body_rel:
  assumes append: "append_body sz txn b body = Inr txn'" and rel: "body_rel txn bs"
    and sz: "sizes_positive sz"
  shows "b = length bs \<and> body_rel txn' (bs @ [body_block body])"
proof -
  define u where "u = set_marker (set_marker txn MkBody (Suc b)) MkEvent (Suc b)"
  have scope: "tx_scope txn = FullArchive" using rel by (simp add: body_rel_def)
  have b: "b = length bs" and w: "write_transactions sz body b u = Inr txn'"
    using append rel
    by (auto simp: append_body_def body_update_marker_def u_def body_rel_def open_table_def
        res_bind_eq_Inr split: if_splits)
  have "body_tables u (tx_at (bs @ [[]]))"
    using rel by (simp add: u_def tx_at_empty_block body_rel_def)
  from write_transaction_fold [of sz bs _ "[]", OF _ this sz] w
  have step: "body_tables txn' (tx_at (bs @ [body_block body]))" "tx_scope txn' = tx_scope u"
    "tx_markers txn' = tx_markers u"
    by (simp_all add: write_transactions_def b body_block_def)
  have "get_marker txn' k = get_marker u k" for k by (rule get_marker_cong) (rule step(3))
  then show ?thesis using b step scope by (simp add: body_rel_def u_def)
qed

section \<open>When appending succeeds\<close>

lemma write_transaction_ok:
  assumes tables: "body_tables txn (tx_at (bs @ [cur]))"
    and h: "fmlookup (tx_transaction_hash_to_idx txn) h = None"
  shows "\<exists>txn'. write_transaction sz (length bs) n (length cur, (tx, out), h) txn = Inr txn'"
proof -
  let ?idx = "(length bs, length cur)"
  have before: "idx < ?idx" if "tx_at (bs @ [cur]) idx = Some e" for idx e
    using that by (cases idx) (auto simp: tx_at_eq_Some less_prod_def nth_append split: if_splits)
  note D = body_tablesD [OF tables]
  have events: "i < ?idx" if "(a, i) |\<in>| fmdom (tx_events txn)" for a i
    using that D(3) [of a i] before [of i] by blast
  have keys: "k \<le> ?idx" if "k |\<in>| fmdom (tx_transaction_metadata txn)" for k
  proof -
    have "tx_at (bs @ [cur]) k \<noteq> None"
      using that body_tables_lookup(1) [OF tables, of k] by (auto simp: fmlookup_dom_iff)
    then show ?thesis using before [of k] by fastforce
  qed
  obtain f1 l1 where a1: "file_append (sz_transaction sz) (fs_transaction (tx_file_handlers txn)) tx = (f1, l1)"
    by fastforce
  obtain f2 l2 where a2:
    "file_append (sz_transaction_output sz) (fs_transaction_output (tx_file_handlers txn)) out = (f2, l2)"
    by fastforce
  define fs where "fs = (tx_file_handlers txn)\<lparr>fs_transaction := f1, fs_transaction_output := f2\<rparr>"
  have "\<exists>t. write_events out ?idx (txn\<lparr>tx_file_handlers := fs\<rparr>) = Inr t"
    unfolding write_events_def by (rule write_event_fold_ok) (use events in simp_all)
  then obtain v where v: "write_events out ?idx (txn\<lparr>tx_file_handlers := fs\<rparr>) = Inr v" ..
  from write_events_Inr [OF v] obtain t where t: "v = txn\<lparr>tx_file_handlers := fs, tx_events := t\<rparr>"
    by auto
  have "tbl_insert ''transaction_hash_to_idx'' (tx_transaction_hash_to_idx v) h ?idx =
      Inr (fmupd h ?idx (tx_transaction_hash_to_idx txn))"
    using h by (simp add: tbl_insert_eq_Inr t)
  moreover have "tbl_append (tx_transaction_metadata v) ?idx md =
      Inr (fmupd ?idx md (tx_transaction_metadata txn))" for md
    using keys by (simp add: tbl_append_eq_Inr t)
  ultimately show ?thesis
    by (simp add: write_transaction_unfold [OF a1 a2, folded fs_def] v Let_def)
qed

definition stored_hashes :: "stored_tx list list \<Rightarrow> tx_hash list" where
  "stored_hashes bs = map snd (concat bs)"

lemma stored_hashes_tx_at: "h \<in> set (stored_hashes bs) \<longleftrightarrow> (\<exists>idx e. tx_at bs idx = Some (e, h))"
proof
  assume "h \<in> set (stored_hashes bs)"
  then obtain blk e where "blk \<in> set bs" "(e, h) \<in> set blk" by (auto simp: stored_hashes_def)
  then obtain b i where "b < length bs" "bs ! b = blk" "i < length blk" "blk ! i = (e, h)"
    by (metis in_set_conv_nth)
  then have "tx_at bs (b, i) = Some (e, h)" by (simp add: tx_at_def)
  then show "\<exists>idx e. tx_at bs idx = Some (e, h)" by blast
next
  assume "\<exists>idx e. tx_at bs idx = Some (e, h)"
  then obtain idx e where "tx_at bs idx = Some (e, h)" by blast
  then obtain b i where "b < length bs" "i < length (bs ! b)" "bs ! b ! i = (e, h)"
    by (cases idx) (auto simp: tx_at_eq_Some)
  then have "bs ! b \<in> set bs" "(e, h) \<in> set (bs ! b)" by (auto simp: in_set_conv_nth)
  then show "h \<in> set (stored_hashes bs)" by (force simp: stored_hashes_def)
qed

lemma distinct_stored_hashes:
  assumes "\<And>idx idx' e e' h. tx_at bs idx = Some (e, h) \<Longrightarrow> tx_at bs idx' = Some (e', h) \<Longrightarrow> idx = idx'"
  shows "distinct (stored_hashes bs)"
  using assms
proof (induction bs rule: rev_induct)
  case (snoc blk bs)
  have old: "tx_at (bs @ [blk]) idx = Some x" if "tx_at bs idx = Some x" for idx x
    using that by (cases idx) (auto simp: tx_at_eq_Some nth_append)
  have new: "tx_at (bs @ [blk]) (length bs, i) = Some (blk ! i)" if "i < length blk" for i
    using that by (simp add: tx_at_def)
  have "distinct (stored_hashes bs)"
    by (rule snoc.IH) (rule snoc.prems [OF old old])
  moreover have "distinct (map snd blk)"
  proof (subst distinct_conv_nth, intro allI impI)
    fix i j assume i: "i < length (map snd blk)" and j: "j < length (map snd blk)" and "i \<noteq> j"
    have "(length bs, i) = (length bs, j)" if "snd (blk ! i) = snd (blk ! j)"
    proof (rule snoc.prems)
      show "tx_at (bs @ [blk]) (length bs, i) = Some (fst (blk ! i), snd (blk ! i))" using new i by simp
      show "tx_at (bs @ [blk]) (length bs, j) = Some (fst (blk ! j), snd (blk ! i))"
        using new j that by simp
    qed
    then show "map snd blk ! i \<noteq> map snd blk ! j" using i j \<open>i \<noteq> j\<close> by auto
  qed
  moreover have "set (stored_hashes bs) \<inter> snd ` set blk = {}"
  proof (rule ccontr)
    assume "set (stored_hashes bs) \<inter> snd ` set blk \<noteq> {}"
    then obtain x where "x \<in> set blk" "snd x \<in> set (stored_hashes bs)" by blast
    then obtain i where i: "i < length blk" "snd (blk ! i) \<in> set (stored_hashes bs)"
      by (metis in_set_conv_nth)
    then obtain idx e where idx: "tx_at bs idx = Some (e, snd (blk ! i))"
      by (auto simp: stored_hashes_tx_at)
    have "idx = (length bs, i)"
      using snoc.prems [OF old [OF idx], of "(length bs, i)" "fst (blk ! i)"] new i by simp
    with idx show False by (simp add: tx_at_def)
  qed
  ultimately show ?case by (simp add: stored_hashes_def)
qed (simp add: stored_hashes_def)

lemma body_rel_distinct:
  assumes "body_rel txn bs"
  shows "distinct (stored_hashes bs)"
proof (rule distinct_stored_hashes)
  fix idx idx' e e' h
  assume "tx_at bs idx = Some (e, h)" and "tx_at bs idx' = Some (e', h)"
  moreover have tables: "body_tables txn (tx_at bs)" using assms by (simp add: body_rel_def)
  ultimately have "fmlookup (tx_transaction_hash_to_idx txn) h = Some idx"
    "fmlookup (tx_transaction_hash_to_idx txn) h = Some idx'"
    using body_tablesD(2) [OF tables] by blast+
  then show "idx = idx'" by simp
qed

lemma write_transaction_fold_ok:
  assumes "body_tables txn (tx_at (bs @ [cur]))" and "sizes_positive sz"
    and "distinct (stored_hashes (bs @ [cur @ es]))"
  shows "\<exists>txn'. fold_res (write_transaction sz (length bs) n) (enumerate (length cur) es) txn = Inr txn'"
  using assms
proof (induction es arbitrary: cur txn)
  case (Cons e es)
  obtain tx out h where e: "e = ((tx, out), h)" by (cases e) auto
  have "h \<notin> set (stored_hashes (bs @ [cur]))"
    using Cons.prems(3) by (auto simp: stored_hashes_def e)
  then have "tx_at (bs @ [cur]) idx \<noteq> Some (e, h)" for idx e using stored_hashes_tx_at by blast
  then have "fmlookup (tx_transaction_hash_to_idx txn) h \<noteq> Some idx" for idx
    using body_tablesD(2) [OF Cons.prems(1)] by blast
  then have h: "fmlookup (tx_transaction_hash_to_idx txn) h = None" by (cases "fmlookup (tx_transaction_hash_to_idx txn) h") auto
  obtain u where u: "write_transaction sz (length bs) n (length cur, (tx, out), h) txn = Inr u"
    using write_transaction_ok [OF Cons.prems(1) h] by blast
  have "tx_at (bs @ [cur]) (length bs, length cur) = None" by (simp add: tx_at_def)
  from write_transaction_tables [OF u Cons.prems(1) this Cons.prems(2)]
  have "body_tables u (tx_at (bs @ [cur @ [e]]))" by (simp only: tx_at_snoc e)
  from Cons.IH [OF this Cons.prems(2)] Cons.prems(3) show ?case by (simp add: u e)
qed simp

lemma append_body_ok:
  assumes rel: "body_rel txn bs" and sz: "sizes_positive sz"
    and distinct: "distinct (stored_hashes (bs @ [body_block body]))"
  shows "\<exists>txn'. append_body sz txn (length bs) body = Inr txn'"
proof -
  define u where "u = set_marker (set_marker txn MkBody (Suc (length bs))) MkEvent (Suc (length bs))"
  have "body_tables u (tx_at (bs @ [[]]))"
    using rel by (simp add: u_def tx_at_empty_block body_rel_def)
  from write_transaction_fold_ok [OF this sz, of "body_block body"] distinct
  have "\<exists>txn'. write_transactions sz body (length bs) u = Inr txn'"
    by (simp add: write_transactions_def body_block_def)
  then show ?thesis using rel
    by (simp add: append_body_def body_update_marker_def body_rel_def open_table_def u_def)
qed

section \<open>Reverting\<close>

lemma fold_tx_events:
  "fold (\<lambda>e txn. txn\<lparr>tx_events := g e (tx_events txn)\<rparr>) es txn =
     txn\<lparr>tx_events := fold g es (tx_events txn)\<rparr>"
  by (induction es arbitrary: txn) simp_all

lemma delete_events_fold:
  "fold (\<lambda>e txn. txn\<lparr>tx_events := tbl_delete (tx_events txn) (ev_from_address e, idx)\<rparr>) es txn =
     txn\<lparr>tx_events := fmfilter (\<lambda>k. k \<notin> (\<lambda>e. (ev_from_address e, idx)) ` set es) (tx_events txn)\<rparr>"
  by (simp add: fold_tx_events [where g = "\<lambda>e t. tbl_delete t (ev_from_address e, idx)"]
      fold_tbl_delete [where f = "\<lambda>e. (ev_from_address e, idx)"])

lemma delete_transaction_tables:
  assumes tables: "body_tables txn A" and at: "A (b, i) = Some ((tx, out), h)"
  shows "body_tables (delete_transaction b (i, h, out) txn) (A((b, i) := None)) \<and>
    tx_scope (delete_transaction b (i, h, out) txn) = tx_scope txn \<and>
    tx_markers (delete_transaction b (i, h, out) txn) = tx_markers txn"
proof -
  let ?t = "delete_transaction b (i, h, out) txn"
  have t: "tx_transaction_metadata ?t = fmdrop (b, i) (tx_transaction_metadata txn)"
    "tx_transaction_hash_to_idx ?t = fmdrop h (tx_transaction_hash_to_idx txn)"
    "tx_events ?t =
      fmfilter (\<lambda>k. k \<notin> (\<lambda>e. (ev_from_address e, (b, i))) ` set (out_events out)) (tx_events txn)"
    "tx_file_handlers ?t = tx_file_handlers txn" "tx_scope ?t = tx_scope txn" "tx_markers ?t = tx_markers txn"
    unfolding delete_transaction_def prod.case Let_def delete_events_fold
    unfolding tbl_delete_def by simp_all
  note D = body_tablesD [OF tables]
  have same: "stored_as ?t = stored_as txn" by (simp add: stored_as_def [abs_def] t(4))
  have "body_tables ?t (A((b, i) := None))"
  proof (rule body_tablesI)
    fix idx
    show "rel_option (stored_as ?t) (fmlookup (tx_transaction_metadata ?t) idx) ((A((b, i) := None)) idx)"
      using D(1) [of idx] by (simp add: t(1) same)
  next
    fix h' idx
    have "A idx \<noteq> Some (e, h)" if "idx \<noteq> (b, i)" for e
    proof
      assume "A idx = Some (e, h)"
      with that show False
        using at D(2) [of h idx] D(2) [of h "(b, i)"] by auto
    qed
    then show "fmlookup (tx_transaction_hash_to_idx ?t) h' = Some idx \<longleftrightarrow>
        (\<exists>e. (A((b, i) := None)) idx = Some (e, h'))"
      using D(2) [of h' idx] at by (cases "h' = h"; cases "idx = (b, i)") (auto simp: t(2))
  next
    fix a idx
    show "(a, idx) |\<in>| fmdom (tx_events ?t) \<longleftrightarrow>
        (\<exists>e. (A((b, i) := None)) idx = Some e \<and> a \<in> event_addresses (snd (fst e)))"
      using D(3) [of a idx] at
      by (cases "idx = (b, i)") (auto simp: t(3) event_addresses_def)
  qed (use D(4,5) t(4) in simp_all)
  then show ?thesis using t by simp
qed

lemma delete_transaction_fold:
  assumes "body_tables txn A"
    and "\<And>j. j < length es \<Longrightarrow> A (b, i + j) = Some (fst (es ! j), snd (es ! j))"
  shows "body_tables (fold (delete_transaction b) (enumerate i (map (\<lambda>e. (snd e, snd (fst e))) es)) txn)
      (\<lambda>idx. if fst idx = b \<and> i \<le> snd idx \<and> snd idx < i + length es then None else A idx) \<and>
    tx_scope (fold (delete_transaction b) (enumerate i (map (\<lambda>e. (snd e, snd (fst e))) es)) txn) = tx_scope txn \<and>
    tx_markers (fold (delete_transaction b) (enumerate i (map (\<lambda>e. (snd e, snd (fst e))) es)) txn) = tx_markers txn"
  using assms
proof (induction es arbitrary: i txn A)
  case (Cons e es)
  obtain tx out h where e: "e = ((tx, out), h)" by (cases e) auto
  define u where "u = delete_transaction b (i, h, out) txn"
  have "A (b, i) = Some ((tx, out), h)" using Cons.prems(2) [of 0] by (simp add: e)
  from delete_transaction_tables [OF Cons.prems(1) this]
  have u: "body_tables u (A((b, i) := None))" "tx_scope u = tx_scope txn" "tx_markers u = tx_markers txn"
    by (simp_all add: u_def)
  have "(A((b, i) := None)) (b, Suc i + j) = Some (fst (es ! j), snd (es ! j))" if "j < length es" for j
    using Cons.prems(2) [of "Suc j"] that by simp
  note IH = Cons.IH [OF u(1) this]
  have "(\<lambda>idx. if fst idx = b \<and> Suc i \<le> snd idx \<and> snd idx < Suc i + length es then None
        else (A((b, i) := None)) idx) =
      (\<lambda>idx. if fst idx = b \<and> i \<le> snd idx \<and> snd idx < i + length (e # es) then None else A idx)"
    by (auto simp: fun_eq_iff)
  with IH show ?case by (simp add: u_def [symmetric] e u)
next
  case Nil
  have "(\<lambda>idx. if fst idx = b \<and> i \<le> snd idx \<and> snd idx < i + length [] then None else A idx) = A"
    by (auto simp: fun_eq_iff)
  with Nil.prems(1) show ?case by simp
qed

lemma revert_body_rel:
  assumes rel: "body_rel txn (bs @ [blk])" and bound: "length bs < u64_max"
  shows "\<exists>txn'. revert_body txn (length bs) =
      Inr (txn', Some (map (fst \<circ> fst) blk, map (snd \<circ> fst) blk, map snd blk)) \<and> body_rel txn' bs"
proof -
  let ?b = "length bs"
  define u where "u = fold (delete_transaction ?b) (enumerate 0 (map (\<lambda>e. (snd e, snd (fst e))) blk)) txn"
  have zip: "zip (map snd blk) (map (snd \<circ> fst) blk) = map (\<lambda>e. (snd e, snd (fst e))) blk"
    by (simp add: zip_map_map zip_same_conv_map)
  have marker: "get_body_marker txn = Suc ?b" using body_rel_marker [OF rel] by simp
  have "body_tables txn (tx_at (bs @ [blk]))" using rel by (simp add: body_rel_def)
  moreover have "tx_at (bs @ [blk]) (?b, 0 + j) = Some (fst (blk ! j), snd (blk ! j))" if "j < length blk" for j
    using that by (simp add: tx_at_def)
  ultimately have "body_tables u (\<lambda>idx. if fst idx = ?b \<and> 0 \<le> snd idx \<and> snd idx < 0 + length blk then None
      else tx_at (bs @ [blk]) idx)"
    and frame: "tx_scope u = tx_scope txn" "tx_markers u = tx_markers txn"
    using delete_transaction_fold [of txn "tx_at (bs @ [blk])" blk ?b 0] by (simp_all only: u_def)
  moreover have "(\<lambda>idx. if fst idx = ?b \<and> 0 \<le> snd idx \<and> snd idx < 0 + length blk then None
      else tx_at (bs @ [blk]) idx) = tx_at bs"
    by (auto simp: fun_eq_iff tx_at_def nth_append)
  ultimately have tables: "body_tables u (tx_at bs)" by simp
  define txn' where "txn' = set_marker (set_marker u MkBody ?b) MkEvent ?b"
  have "body_rel txn' bs"
    using tables frame rel by (simp add: body_rel_def txn'_def)
  moreover have "revert_body txn ?b =
      Inr (txn', Some (map (fst \<circ> fst) blk, map (snd \<circ> fst) blk, map snd blk))"
    using bound rel marker zip body_rel_block_reads [OF rel, of ?b]
    by (simp add: revert_body_def bn_next_def body_rel_def txn'_def u_def Let_def)
  ultimately show ?thesis by blast
qed

section \<open>Order of the event addresses\<close>

lemma write_event_fold_ok_iff:
  assumes "distinct as"
  shows "(\<exists>txn'. fold_res (write_event idx) as txn = Inr txn') \<longleftrightarrow>
    (\<forall>a i. a \<in> set as \<longrightarrow> (a, i) |\<in>| fmdom (tx_events txn) \<longrightarrow> i < idx)"
proof
  assume "\<exists>txn'. fold_res (write_event idx) as txn = Inr txn'"
  then obtain txn' where "fold_res (write_event idx) as txn = Inr txn'" ..
  then show "\<forall>a i. a \<in> set as \<longrightarrow> (a, i) |\<in>| fmdom (tx_events txn) \<longrightarrow> i < idx"
  proof (induction as arbitrary: txn)
    case (Cons a as)
    then show ?case by (fastforce simp: res_bind_eq_Inr write_event_eq_Inr)
  qed simp
qed (use write_event_fold_ok [OF assms] in blast)

lemma write_events_order:
  assumes "distinct as" and "set as = ev_from_address ` set (out_events out)"
    and "write_events out idx txn = Inr txn'"
  shows "fold_res (write_event idx) as txn = Inr txn'"
proof -
  let ?bs = "remdups (map ev_from_address (out_events out))"
  have w: "fold_res (write_event idx) ?bs txn = Inr txn'" using assms(3) by (simp add: write_events_def)
  then have "\<exists>u. fold_res (write_event idx) as txn = Inr u"
    using write_event_fold_ok_iff [OF assms(1), of idx txn] write_event_fold_ok_iff [of ?bs idx txn] assms(2)
    by auto
  then obtain u where u: "fold_res (write_event idx) as txn = Inr u" ..
  from write_event_fold [OF u] write_event_fold [OF w] obtain t t'
    where t: "u = txn\<lparr>tx_events := t\<rparr>" "txn' = txn\<lparr>tx_events := t'\<rparr>" "\<And>k. k |\<in>| fmdom t \<longleftrightarrow> k |\<in>| fmdom t'"
    using assms(2) by auto
  have "fmlookup t k = fmlookup t' k" for k
    using t(3) [of k] by (cases "fmlookup t k"; cases "fmlookup t' k") (auto simp: fmlookup_dom_iff)
  then have "t = t'" by (rule fmap_ext)
  with u t show ?thesis by simp
qed

section \<open>Properties\<close>

lemma body_rel_empty: "body_rel (empty_txn FullArchive) []"
  unfolding body_rel_def
  by (simp add: body_tables_def tx_at_def file_wf_def split: prod.split) (simp add: empty_txn_def empty_file_def)


definition demo_body :: block_body where
  "demo_body = \<lparr>bb_transactions = [100, 101],
     bb_transaction_outputs = [\<lparr>out_events = [\<lparr>ev_from_address = 7, ev_content = 1\<rparr>,
       \<lparr>ev_from_address = 7, ev_content = 2\<rparr>, \<lparr>ev_from_address = 8, ev_content = 3\<rparr>], out_rest = 0\<rparr>,
       \<lparr>out_events = [], out_rest = 1\<rparr>],
     bb_transaction_hashes = [1000, 1001]\<rparr>"

lemma append_demo_body: "\<exists>txn'. append_body demo_sizes (empty_txn FullArchive) 0 demo_body = Inr txn'"
  using append_body_ok [OF body_rel_empty sizes_positive_demo, of demo_body]
  by (simp add: stored_hashes_def body_block_def demo_body_def)




text \<open>
  Reverting the last body undoes appending it: \<open>revert_body\<close> returns the transactions,
  outputs and hashes that were appended and leaves the blocks that were stored before, index entries
  included, without a failure.
\<close>

theorem body_revert_roundtrip:
  assumes "body_rel txn bs" and "sizes_positive sz" and "b < u64_max"
    and "append_body sz txn b body = Inr txn'"
    and "length (bb_transaction_outputs body) = length (bb_transactions body)"
    and "length (bb_transaction_hashes body) = length (bb_transactions body)"
  shows "\<exists>u. revert_body txn' b =
      Inr (u, Some (bb_transactions body, bb_transaction_outputs body, bb_transaction_hashes body)) \<and>
    body_rel u bs"
proof -
  from append_body_rel [OF assms(4,1,2)] have b: "b = length bs"
    and rel: "body_rel txn' (bs @ [body_block body])" by simp_all
  have "map (fst \<circ> fst) (body_block body) = bb_transactions body"
    "map (snd \<circ> fst) (body_block body) = bb_transaction_outputs body"
    "map snd (body_block body) = bb_transaction_hashes body"
    using assms(5,6) by (simp_all add: body_block_def flip: map_map)
  with revert_body_rel [OF rel] assms(3) b show ?thesis by simp
qed

theorem body_revert_roundtrip_witness:
  "\<exists>txn' u. append_body demo_sizes (empty_txn FullArchive) 0 demo_body = Inr txn' \<and>
     revert_body txn' 0 = Inr (u, Some ([100, 101], bb_transaction_outputs demo_body, [1000, 1001])) \<and>
     body_rel u []"
proof -
  obtain txn where txn: "append_body demo_sizes (empty_txn FullArchive) 0 demo_body = Inr txn"
    using append_demo_body by blast
  from body_revert_roundtrip [OF body_rel_empty sizes_positive_demo _ this] txn show ?thesis
    by (simp add: u64_max_def demo_body_def)
qed

end
