(* ===== verification/Storage_Events.thy ===== *)
theory Storage_Events
  imports Storage_Body
begin

text \<open>
  Iterating over the stored events: \<open>crates/papyrus_storage/src/body/events.rs\<close>. An iterator is a
  state; its \<open>next\<close> returns the new state together with the outcome, so that the state after a
  failure is the one the code leaves behind.

  \<^item> The locale \<open>event_iterator\<close> is the contract of an iterator: a list that is still to come. It is
    interpreted on the iterator by event index, the iterator by contract address, and the wrapper
    of the two.
  \<^item> \<open>events_by_index\<close> and \<open>events_by_address\<close>: what a whole iteration returns, in which order.
  \<^item> \<open>events_skipped\<close>: the events that are missed when the start is not a stored transaction.
\<close>

section \<open>Iterators\<close>

type_synonym event_index = "tx_index \<times> nat"
type_synonym event_item = "(contract_address \<times> event_index) \<times> event_content"

definition get_events_from_tx ::
  "event list \<Rightarrow> tx_index \<Rightarrow> contract_address \<Rightarrow> nat \<Rightarrow> event_item list" where
  "get_events_from_tx events_list tx_index contract_address start_index =
     map (\<lambda>(i, event). ((contract_address, (tx_index, i)), ev_content event))
       (filter (\<lambda>(i, event). ev_from_address event = contract_address)
         (drop start_index (enumerate 0 events_list)))"

record by_contract_iter =
  bc_next_entry :: "(contract_address \<times> tx_index) option"
  bc_queue :: "event_item list"
  bc_cursor :: "(contract_address \<times> tx_index) cursor"

definition read_tx_output :: "storage_txn \<Rightarrow> tx_index \<Rightarrow> tx_output sresult" where
  "read_tx_output txn tx_index =
     (case tbl_get (tx_transaction_metadata txn) tx_index of
        None \<Rightarrow> Inl (SPanic ''Transaction metadata not found'')
      | Some md \<Rightarrow> get_transaction_output_unchecked txn (tm_tx_output_location md))"

definition bc_pop :: "by_contract_iter \<Rightarrow> by_contract_iter \<times> event_item option sresult" where
  "bc_pop it =
     (case bc_queue it of
        [] \<Rightarrow> (it, Inl (SPanic ''events_queue should not be empty.''))
      | x # xs \<Rightarrow> (it\<lparr>bc_queue := xs\<rparr>, Inr (Some x)))"

definition by_contract_next ::
  "storage_txn \<Rightarrow> by_contract_iter \<Rightarrow> by_contract_iter \<times> event_item option sresult" where
  "by_contract_next txn it =
     (if bc_queue it = [] then
        case bc_next_entry it of
          None \<Rightarrow> (it, Inr None)
        | Some (contract_address, tx_index) \<Rightarrow>
            let it = it\<lparr>bc_next_entry := None\<rparr> in
            case read_tx_output txn tx_index of
              Inl e \<Rightarrow> (it, Inl e)
            | Inr tx_output \<Rightarrow>
                let (cursor, entry) = cursor_next (tx_events txn) (bc_cursor it)
                in bc_pop (it\<lparr>bc_queue := get_events_from_tx (out_events tx_output) tx_index contract_address 0,
                     bc_cursor := cursor, bc_next_entry := map_option fst entry\<rparr>)
      else bc_pop it)"

record by_index_iter =
  bi_tx_current :: "(tx_index \<times> tx_output) option"
  bi_cursor :: "tx_index cursor"
  bi_event_index :: nat
  bi_to_block :: block_number

function find_next_event_by_event_index ::
  "storage_txn \<Rightarrow> by_index_iter \<Rightarrow> by_index_iter \<times> unit sresult" where
  "find_next_event_by_event_index txn it =
     (case bi_tx_current it of
        None \<Rightarrow> (it, Inr ())
      | Some (tx_index, tx_output) \<Rightarrow>
          if bi_to_block it < fst tx_index then (it\<lparr>bi_tx_current := None\<rparr>, Inr ())
          else if bi_event_index it < length (out_events tx_output) then (it, Inr ())
          else case snd (cursor_next (tx_transaction_metadata txn) (bi_cursor it)) of
            None \<Rightarrow> (it\<lparr>bi_cursor := CurEnd, bi_tx_current := None\<rparr>, Inr ())
          | Some (tx_index, md) \<Rightarrow>
              let it = it\<lparr>bi_cursor := CurAt tx_index\<rparr> in
              case get_transaction_output_unchecked txn (tm_tx_output_location md) of
                Inl e \<Rightarrow> (it, Inl e)
              | Inr tx_output \<Rightarrow>
                  find_next_event_by_event_index txn
                    (it\<lparr>bi_tx_current := Some (tx_index, tx_output), bi_event_index := 0\<rparr>))"
  by pat_completeness auto
termination
proof (relation "measure (\<lambda>(txn, it). length (cursor_remaining (tx_transaction_metadata txn) (bi_cursor it)))",
    goal_cases)
  case (2 txn it x tx_index tx_output y tx_index' md it' out')
  then show ?case
    by (cases "cursor_remaining (tx_transaction_metadata txn) (bi_cursor it)")
      (auto simp: cursor_next_remaining cursor_remaining_at tbl_entry_def)
qed simp

definition by_index_next ::
  "storage_txn \<Rightarrow> by_index_iter \<Rightarrow> by_index_iter \<times> event_item option sresult" where
  "by_index_next txn it =
     (case bi_tx_current it of
        None \<Rightarrow> (it, Inr None)
      | Some (tx_index, tx_output) \<Rightarrow>
          if length (out_events tx_output) \<le> bi_event_index it then (it, Inr None)
          else
            let event = out_events tx_output ! bi_event_index it;
                key = (ev_from_address event, (tx_index, bi_event_index it));
                (it, r) = find_next_event_by_event_index txn (it\<lparr>bi_event_index := bi_event_index it + 1\<rparr>)
            in case r of Inl e \<Rightarrow> (it, Inl e) | Inr _ \<Rightarrow> (it, Inr (Some (key, ev_content event))))"

definition iter_events_by_contract_address ::
  "storage_txn \<Rightarrow> contract_address \<times> event_index \<Rightarrow> by_contract_iter sresult" where
  "iter_events_by_contract_address txn key =
     res_bind (open_table txn ''transaction_metadata'') (\<lambda>_.
     res_bind (open_table txn ''events'') (\<lambda>_.
       let (cursor, first) = cursor_lower_bound (tx_events txn) (fst key, fst (snd key)) in
       res_bind
         (case first of
            None \<Rightarrow> Inr []
          | Some ((contract_address, tx_index), _) \<Rightarrow>
              res_bind (read_tx_output txn tx_index) (\<lambda>tx_output.
                let start_event_index = (if tx_index = fst (snd key) then snd (snd key) else 0)
                in Inr (get_events_from_tx (out_events tx_output) tx_index contract_address start_event_index)))
         (\<lambda>events_queue.
            let (cursor, entry) = cursor_next (tx_events txn) cursor
            in Inr \<lparr>bc_next_entry = map_option fst entry, bc_queue = events_queue, bc_cursor = cursor\<rparr>)))"

definition iter_events_by_event_index ::
  "storage_txn \<Rightarrow> event_index \<Rightarrow> block_number \<Rightarrow> by_index_iter sresult" where
  "iter_events_by_event_index txn event_index to_block_number =
     res_bind (open_table txn ''transaction_metadata'') (\<lambda>_.
       let (tx_cursor, first) = cursor_lower_bound (tx_transaction_metadata txn) (fst event_index) in
       res_bind
         (case first of
            None \<Rightarrow> Inr None
          | Some (tx_index, md) \<Rightarrow>
              res_bind (get_transaction_output_unchecked txn (tm_tx_output_location md)) (\<lambda>tx_output.
                Inr (Some (tx_index, tx_output))))
         (\<lambda>first_relevant_transaction.
            let (it, r) = find_next_event_by_event_index txn
                  \<lparr>bi_tx_current = first_relevant_transaction, bi_cursor = tx_cursor,
                   bi_event_index = snd event_index, bi_to_block = to_block_number\<rparr>
            in res_bind r (\<lambda>_. Inr it)))"

datatype event_iter = ByContractAddress by_contract_iter | ByEventIndex by_index_iter

text \<open>\<open>unwrap_or(None)\<close>: the wrapper ends the iteration at an error; a panic goes through.\<close>

definition unwrap_or_none :: "'a option sresult \<Rightarrow> 'a option sresult" where
  "unwrap_or_none r = (case r of Inl (SErr _) \<Rightarrow> Inr None | _ \<Rightarrow> r)"

fun event_iter_next :: "storage_txn \<Rightarrow> event_iter \<Rightarrow> event_iter \<times> event_item option sresult" where
  "event_iter_next txn (ByContractAddress it) =
     (let (it, r) = by_contract_next txn it in (ByContractAddress it, unwrap_or_none r))"
| "event_iter_next txn (ByEventIndex it) =
     (let (it, r) = by_index_next txn it in (ByEventIndex it, unwrap_or_none r))"

definition iter_events ::
  "storage_txn \<Rightarrow> contract_address option \<Rightarrow> event_index \<Rightarrow> block_number \<Rightarrow> event_iter sresult" where
  "iter_events txn optional_address event_index to_block_number =
     (case optional_address of
        Some address \<Rightarrow>
          res_bind (iter_events_by_contract_address txn (address, event_index)) (\<lambda>it. Inr (ByContractAddress it))
      | None \<Rightarrow>
          res_bind (iter_events_by_event_index txn event_index to_block_number) (\<lambda>it. Inr (ByEventIndex it)))"

section \<open>The contract of an iterator\<close>

text \<open>At most \<open>n\<close> calls of \<open>next\<close>, until it returns nothing.\<close>

fun collect_items :: "('it \<Rightarrow> 'it \<times> 'x option sresult) \<Rightarrow> nat \<Rightarrow> 'it \<Rightarrow> 'x list sresult" where
  "collect_items step 0 it = Inr []"
| "collect_items step (Suc n) it =
     (case step it of
        (_, Inl e) \<Rightarrow> Inl e
      | (_, Inr None) \<Rightarrow> Inr []
      | (it, Inr (Some x)) \<Rightarrow> res_bind (collect_items step n it) (\<lambda>xs. Inr (x # xs)))"

locale event_iterator =
  fixes step :: "'it \<Rightarrow> 'it \<times> 'x option sresult" and ok :: "'it \<Rightarrow> bool" and rest :: "'it \<Rightarrow> 'x list"
  assumes step_end: "ok it \<Longrightarrow> rest it = [] \<Longrightarrow> \<exists>it'. step it = (it', Inr None) \<and> ok it' \<and> rest it' = []"
    and step_item: "ok it \<Longrightarrow> rest it = x # xs \<Longrightarrow> \<exists>it'. step it = (it', Inr (Some x)) \<and> ok it' \<and> rest it' = xs"
begin

lemma collect_rest: "ok it \<Longrightarrow> collect_items step n it = Inr (take n (rest it))"
proof (induction n arbitrary: it)
  case (Suc n)
  show ?case
  proof (cases "rest it")
    case Nil
    then show ?thesis using step_end [OF Suc.prems] by auto
  next
    case (Cons x xs)
    then obtain it' where "step it = (it', Inr (Some x))" "ok it'" "rest it' = xs"
      using step_item [OF Suc.prems] by blast
    then show ?thesis using Suc.IH [of it'] Cons by simp
  qed
qed simp

end

declare find_next_event_by_event_index.simps [simp del]

section \<open>The stored events\<close>

definition tx_events_at :: "stored_tx list list \<Rightarrow> tx_index \<Rightarrow> event list" where
  "tx_events_at bs tx = (case tx_at bs tx of None \<Rightarrow> [] | Some e \<Rightarrow> out_events (snd (fst e)))"

definition event_stored :: "stored_tx list list \<Rightarrow> event_item \<Rightarrow> bool" where
  "event_stored bs item \<longleftrightarrow>
     (case item of ((a, (tx, j)), c) \<Rightarrow>
        j < length (tx_events_at bs tx) \<and> tx_events_at bs tx ! j = \<lparr>ev_from_address = a, ev_content = c\<rparr>)"

text \<open>The events of one transaction from a position on, and those of one contract in it.\<close>

definition tx_items :: "stored_tx list list \<Rightarrow> tx_index \<Rightarrow> nat \<Rightarrow> event_item list" where
  "tx_items bs tx s =
     map (\<lambda>j. ((ev_from_address (tx_events_at bs tx ! j), (tx, j)), ev_content (tx_events_at bs tx ! j)))
       [s..<length (tx_events_at bs tx)]"

definition contract_items :: "stored_tx list list \<Rightarrow> contract_address \<times> tx_index \<Rightarrow> nat \<Rightarrow> event_item list" where
  "contract_items bs k s = get_events_from_tx (tx_events_at bs (snd k)) (snd k) (fst k) s"

lemma tx_items_set: "item \<in> set (tx_items bs tx s) \<longleftrightarrow>
    event_stored bs item \<and> fst (snd (fst item)) = tx \<and> s \<le> snd (snd (fst item))"
proof -
  obtain a tx' j c where item: "item = ((a, (tx', j)), c)" by (metis surj_pair)
  show ?thesis
    unfolding item tx_items_def event_stored_def
    by (cases "tx_events_at bs tx ! j") (auto simp: image_iff Bex_def)
qed

lemma contract_items_eq:
  "contract_items bs (a, tx) s = filter (\<lambda>item. fst (fst item) = a) (tx_items bs tx s)"
proof -
  let ?evs = "tx_events_at bs tx"
  have "drop s (enumerate 0 ?evs) = map (\<lambda>j. (j, ?evs ! j)) [s..<length ?evs]"
    by (rule nth_equalityI) (simp_all add: nth_enumerate_eq)
  then show ?thesis
    by (simp add: contract_items_def get_events_from_tx_def tx_items_def filter_map o_def)
qed

lemma contract_items_set: "item \<in> set (contract_items bs k s) \<longleftrightarrow>
    event_stored bs item \<and> fst (fst item) = fst k \<and> fst (snd (fst item)) = snd k \<and> s \<le> snd (snd (fst item))"
  by (cases k) (auto simp: contract_items_eq tx_items_set)

lemma tx_items_sorted: "sorted_wrt (\<lambda>x y. snd (fst x) < snd (fst y)) (tx_items bs tx s)"
  by (simp add: tx_items_def sorted_wrt_map)

lemma contract_items_sorted: "sorted_wrt (\<lambda>x y. fst x < fst y) (contract_items bs k s)"
proof -
  have "sorted_wrt (\<lambda>x y. snd (fst x) < snd (fst y)) (contract_items bs k s)"
    by (cases k) (simp add: contract_items_eq tx_items_sorted sorted_wrt_filter)
  then show ?thesis
    by (rule sorted_wrt_mono_rel [rotated]) (auto simp: contract_items_set less_prod_def)
qed

text \<open>Runs of items, one for each of a sorted list of keys, are sorted.\<close>

lemma concat_sorted_wrt:
  assumes "sorted_wrt (<) (ks :: 'k :: linorder list)"
    and "\<And>k. k \<in> set ks \<Longrightarrow> sorted_wrt R (f k)"
    and "\<And>k k' x y. k < k' \<Longrightarrow> x \<in> set (f k) \<Longrightarrow> y \<in> set (f k') \<Longrightarrow> R x y"
  shows "sorted_wrt R (concat (map f ks))"
  using assms(1,2) by (induction ks) (auto simp: sorted_wrt_append intro: assms(3))

lemma tbl_keys_strict: "sorted_wrt (<) (tbl_keys t)"
  by (simp add: strict_sorted_iff)

lemma body_rel_tables: "body_rel txn bs \<Longrightarrow> body_tables txn (tx_at bs)"
  by (simp add: body_rel_def)

lemma metadata_dom:
  "body_rel txn bs \<Longrightarrow> tx |\<in>| fmdom (tx_transaction_metadata txn) \<longleftrightarrow> tx_at bs tx \<noteq> None"
  using body_tables_lookup(1) [OF body_rel_tables, of txn bs tx] by (auto simp: fmlookup_dom_iff)

lemma events_dom:
  "body_rel txn bs \<Longrightarrow> (a, tx) |\<in>| fmdom (tx_events txn) \<longleftrightarrow> a \<in> ev_from_address ` set (tx_events_at bs tx)"
  using body_tablesD(3) [OF body_rel_tables, of txn bs a tx]
  by (cases "tx_at bs tx") (auto simp: tx_events_at_def event_addresses_def)

lemma read_output:
  assumes "body_rel txn bs" and "tx |\<in>| fmdom (tx_transaction_metadata txn)"
  obtains e where "tx_at bs tx = Some e" "tx_events_at bs tx = out_events (snd (fst e))"
    "read_tx_output txn tx = Inr (snd (fst e))"
    "get_transaction_output_unchecked txn (tm_tx_output_location (the (fmlookup (tx_transaction_metadata txn) tx)))
      = Inr (snd (fst e))"
proof -
  obtain e where e: "tx_at bs tx = Some e" using assms by (auto simp: metadata_dom)
  then obtain md where "fmlookup (tx_transaction_metadata txn) tx = Some md" "stored_as txn md e"
    using body_tables_lookup(2) [OF body_rel_tables [OF assms(1)]] by blast
  then show ?thesis
    using that [OF e] e by (simp add: tx_events_at_def read_tx_output_def tbl_get_def stored_as_reads)
qed

section \<open>By event index\<close>

definition by_index_rest :: "storage_txn \<Rightarrow> stored_tx list list \<Rightarrow> by_index_iter \<Rightarrow> event_item list" where
  "by_index_rest txn bs it =
     (case bi_tx_current it of
        None \<Rightarrow> []
      | Some (tx, _) \<Rightarrow>
          if bi_to_block it < fst tx then []
          else tx_items bs tx (bi_event_index it) @
            concat (map (\<lambda>k. tx_items bs k 0)
              (filter (\<lambda>k. fst k \<le> bi_to_block it) (cursor_remaining (tx_transaction_metadata txn) (bi_cursor it)))))"

definition by_index_wf :: "storage_txn \<Rightarrow> stored_tx list list \<Rightarrow> by_index_iter \<Rightarrow> bool" where
  "by_index_wf txn bs it \<longleftrightarrow> body_rel txn bs \<and>
     (case bi_tx_current it of
        None \<Rightarrow> True
      | Some (tx, out) \<Rightarrow> bi_cursor it = CurAt tx \<and> tx_at bs tx \<noteq> None \<and> out_events out = tx_events_at bs tx)"

definition by_index_ok :: "storage_txn \<Rightarrow> stored_tx list list \<Rightarrow> by_index_iter \<Rightarrow> bool" where
  "by_index_ok txn bs it \<longleftrightarrow> by_index_wf txn bs it \<and>
     (case bi_tx_current it of
        None \<Rightarrow> True
      | Some (tx, out) \<Rightarrow> fst tx \<le> bi_to_block it \<and> bi_event_index it < length (out_events out))"

lemma cursor_remaining_greater:
  assumes "cursor_remaining t (CurAt k0) = k # ks" and "x \<in> set (k # ks)"
  shows "k0 < k" and "k \<le> x" and "x |\<in>| fmdom t"
proof -
  have "sorted (cursor_remaining t (CurAt k0))" by (simp add: cursor_remaining_def sorted_wrt_filter)
  then show "k \<le> x" using assms by auto
  have "x \<in> set (cursor_remaining t (CurAt k0))" "k \<in> set (cursor_remaining t (CurAt k0))" using assms by auto
  then show "k0 < k" "x |\<in>| fmdom t" by (simp_all add: cursor_remaining_def)
qed

lemma find_next_spec:
  assumes "by_index_wf txn bs it"
  shows "\<exists>it'. find_next_event_by_event_index txn it = (it', Inr ()) \<and> by_index_ok txn bs it' \<and>
    by_index_rest txn bs it' = by_index_rest txn bs it"
  using assms
proof (induction txn it rule: find_next_event_by_event_index.induct)
  case (1 txn it)
  let ?m = "tx_transaction_metadata txn"
  note find = find_next_event_by_event_index.simps [of txn it]
  show ?case
  proof (cases "bi_tx_current it")
    case None
    then show ?thesis using 1(2) by (auto simp: find by_index_ok_def)
  next
    case (Some cur)
    obtain tx out where cur: "cur = (tx, out)" by (cases cur)
    have wf: "body_rel txn bs" "bi_cursor it = CurAt tx" "out_events out = tx_events_at bs tx"
      using 1(2) Some cur by (simp_all add: by_index_wf_def)
    show ?thesis
    proof (cases "bi_to_block it < fst tx \<or> bi_event_index it < length (out_events out)")
      case True
      then show ?thesis
        using 1(2) Some cur by (auto simp: find by_index_ok_def by_index_wf_def by_index_rest_def)
    next
      case False
      then have items: "tx_items bs tx (bi_event_index it) = []" by (simp add: tx_items_def wf(3))
      show ?thesis
      proof (cases "cursor_remaining ?m (bi_cursor it)")
        case Nil
        then show ?thesis
          using Some cur False items wf(1)
          by (auto simp: find cursor_next_remaining by_index_ok_def by_index_wf_def by_index_rest_def)
      next
        case (Cons k ks)
        note greater = cursor_remaining_greater [OF Cons [unfolded wf(2)]]
        have kdom: "k |\<in>| fmdom ?m" using greater(3) by simp
        obtain e where e: "tx_at bs k = Some e" "tx_events_at bs k = out_events (snd (fst e))"
          "get_transaction_output_unchecked txn (tm_tx_output_location (the (fmlookup ?m k))) = Inr (snd (fst e))"
          using read_output [OF wf(1) kdom] by blast
        let ?it = "it\<lparr>bi_cursor := CurAt k, bi_tx_current := Some (k, snd (fst e)), bi_event_index := 0\<rparr>"
        have step: "find_next_event_by_event_index txn it = find_next_event_by_event_index txn ?it"
          using Some cur False Cons e by (subst find) (simp add: cursor_next_remaining tbl_entry_def Let_def)
        have wf': "by_index_wf txn bs ?it" using wf(1) e by (cases e) (auto simp: by_index_wf_def)
        have none: "filter (\<lambda>k. fst k \<le> bi_to_block it) ks = []" if "bi_to_block it < fst k"
        proof -
          have "fst k \<le> fst x" if "x \<in> set ks" for x
            using greater(2) [of x] that by (auto simp: less_eq_prod_def)
          then show ?thesis using that by (force simp: filter_empty_conv)
        qed
        have rest: "by_index_rest txn bs ?it = by_index_rest txn bs it"
          using Some cur False items Cons none
          by (auto simp: by_index_rest_def cursor_remaining_at [OF Cons])
        show ?thesis
          unfolding step rest [symmetric]
          by (rule 1(1) [OF Some cur [symmetric] _ _ _ refl refl e(3) wf'])
            (use False Cons in \<open>simp_all add: cursor_next_remaining tbl_entry_def\<close>)
      qed
    qed
  qed
qed

lemma by_index_next_end:
  assumes "by_index_ok txn bs it" and "by_index_rest txn bs it = []"
  shows "by_index_next txn it = (it, Inr None)"
proof (cases "bi_tx_current it")
  case (Some cur)
  obtain tx out where "cur = (tx, out)" by (cases cur)
  then show ?thesis
    using assms Some by (auto simp: by_index_ok_def by_index_wf_def by_index_rest_def tx_items_def)
qed (simp add: by_index_next_def)

lemma by_index_next_item:
  assumes ok: "by_index_ok txn bs it" and rest: "by_index_rest txn bs it = x # xs"
  shows "\<exists>it'. by_index_next txn it = (it', Inr (Some x)) \<and> by_index_ok txn bs it' \<and> by_index_rest txn bs it' = xs"
proof (cases "bi_tx_current it")
  case None
  then show ?thesis using rest by (simp add: by_index_rest_def)
next
  case (Some cur)
  obtain tx out where cur: "cur = (tx, out)" by (cases cur)
  let ?j = "bi_event_index it" and ?it = "it\<lparr>bi_event_index := bi_event_index it + 1\<rparr>"
  have out: "out_events out = tx_events_at bs tx" "?j < length (out_events out)" "\<not> bi_to_block it < fst tx"
    using ok Some cur by (auto simp: by_index_ok_def by_index_wf_def)
  have items: "tx_items bs tx ?j =
      ((ev_from_address (out_events out ! ?j), (tx, ?j)), ev_content (out_events out ! ?j)) # tx_items bs tx (?j + 1)"
    using out by (simp add: tx_items_def upt_conv_Cons)
  have x: "x = ((ev_from_address (out_events out ! ?j), (tx, ?j)), ev_content (out_events out ! ?j))"
    and xs: "by_index_rest txn bs ?it = xs"
    using rest Some cur out(3) items by (simp_all add: by_index_rest_def)
  have "by_index_wf txn bs ?it" using ok Some cur by (simp add: by_index_ok_def by_index_wf_def)
  from find_next_spec [OF this] obtain it' where
    "find_next_event_by_event_index txn ?it = (it', Inr ())" "by_index_ok txn bs it'" "by_index_rest txn bs it' = xs"
    unfolding xs by blast
  then show ?thesis using Some cur out(2) x by (simp add: by_index_next_def Let_def)
qed

interpretation by_index: event_iterator "by_index_next txn" "by_index_ok txn bs" "by_index_rest txn bs" for txn bs
  by unfold_locales (auto dest: by_index_next_end by_index_next_item)

lemma iter_by_index_spec:
  assumes rel: "body_rel txn bs"
  shows "\<exists>it. iter_events_by_event_index txn (tx0, j0) to = Inr it \<and> by_index_ok txn bs it \<and>
    by_index_rest txn bs it =
      (case filter (\<lambda>k. tx0 \<le> k) (tbl_keys (tx_transaction_metadata txn)) of
         [] \<Rightarrow> []
       | k # ks \<Rightarrow> concat (map (\<lambda>k'. tx_items bs k' (if k' = k then j0 else 0)) (filter (\<lambda>k. fst k \<le> to) (k # ks))))"
proof (cases "filter (\<lambda>k. tx0 \<le> k) (tbl_keys (tx_transaction_metadata txn))")
  case Nil
  then show ?thesis
    using rel by (simp add: iter_events_by_event_index_def cursor_lower_bound_remaining
        find_next_event_by_event_index.simps by_index_ok_def by_index_wf_def by_index_rest_def)
next
  case (Cons k ks)
  let ?m = "tx_transaction_metadata txn"
  have strict: "sorted_wrt (<) (k # ks)"
    using sorted_wrt_filter [OF tbl_keys_strict, of "\<lambda>k. tx0 \<le> k" ?m] Cons by simp
  have "k \<in> set (filter (\<lambda>k. tx0 \<le> k) (tbl_keys ?m))" using Cons by simp
  then have kdom: "k |\<in>| fmdom ?m" by simp
  obtain e where e: "tx_at bs k = Some e" "tx_events_at bs k = out_events (snd (fst e))"
    "get_transaction_output_unchecked txn (tm_tx_output_location (the (fmlookup ?m k))) = Inr (snd (fst e))"
    using read_output [OF rel kdom] by blast
  let ?it = "\<lparr>bi_tx_current = Some (k, snd (fst e)), bi_cursor = CurAt k, bi_event_index = j0, bi_to_block = to\<rparr>"
  have "by_index_wf txn bs ?it" using rel e by (cases e) (auto simp: by_index_wf_def)
  from find_next_spec [OF this] obtain it where it: "find_next_event_by_event_index txn ?it = (it, Inr ())"
    "by_index_ok txn bs it" "by_index_rest txn bs it = by_index_rest txn bs ?it" by blast
  have later: "k < x" "fst k \<le> fst x" if "x \<in> set ks" for x
    using strict that by (auto simp: less_prod_def)
  have "by_index_rest txn bs ?it =
      concat (map (\<lambda>k'. tx_items bs k' (if k' = k then j0 else 0)) (filter (\<lambda>k. fst k \<le> to) (k # ks)))"
  proof (cases "to < fst k")
    case True
    then have "filter (\<lambda>k. fst k \<le> to) ks = []" using later(2) by (force simp: filter_empty_conv)
    then show ?thesis using True by (simp add: by_index_rest_def)
  next
    case False
    have "map (\<lambda>k'. tx_items bs k' (if k' = k then j0 else 0)) (filter (\<lambda>k. fst k \<le> to) ks) =
        map (\<lambda>k'. tx_items bs k' 0) (filter (\<lambda>k. fst k \<le> to) ks)"
      by (rule map_cong) (use later(1) in auto)
    then have "concat (map (\<lambda>k'. tx_items bs k' (if k' = k then j0 else 0)) (filter (\<lambda>k. fst k \<le> to) ks)) =
        concat (map (\<lambda>k'. tx_items bs k' 0) (filter (\<lambda>k. fst k \<le> to) ks))" by (rule arg_cong)
    then show ?thesis using False by (simp add: by_index_rest_def lower_bound_remaining_at [OF Cons])
  qed
  then show ?thesis
    using rel Cons e it
    by (simp add: iter_events_by_event_index_def cursor_lower_bound_remaining tbl_entry_def)
qed

section \<open>By contract address\<close>

definition by_contract_rest :: "storage_txn \<Rightarrow> stored_tx list list \<Rightarrow> by_contract_iter \<Rightarrow> event_item list" where
  "by_contract_rest txn bs it =
     bc_queue it @
     (case bc_next_entry it of
        None \<Rightarrow> []
      | Some k \<Rightarrow> concat (map (\<lambda>k. contract_items bs k 0) (k # cursor_remaining (tx_events txn) (bc_cursor it))))"

definition by_contract_ok :: "storage_txn \<Rightarrow> stored_tx list list \<Rightarrow> by_contract_iter \<Rightarrow> bool" where
  "by_contract_ok txn bs it \<longleftrightarrow> body_rel txn bs \<and>
     (case bc_next_entry it of None \<Rightarrow> True | Some k \<Rightarrow> bc_cursor it = CurAt k \<and> k |\<in>| fmdom (tx_events txn))"

lemma events_entry:
  assumes rel: "body_rel txn bs" and k: "k |\<in>| fmdom (tx_events txn)"
  shows "\<exists>out. read_tx_output txn (snd k) = Inr out \<and>
      get_events_from_tx (out_events out) (snd k) (fst k) s = contract_items bs k s"
    and "contract_items bs k 0 \<noteq> []"
proof -
  obtain a tx where k': "k = (a, tx)" by (cases k)
  then have a: "a \<in> ev_from_address ` set (tx_events_at bs tx)" using events_dom [OF rel] k by simp
  then have "tx_at bs tx \<noteq> None" by (cases "tx_at bs tx") (simp_all add: tx_events_at_def)
  then show "\<exists>out. read_tx_output txn (snd k) = Inr out \<and>
      get_events_from_tx (out_events out) (snd k) (fst k) s = contract_items bs k s"
    using read_output [OF rel, of tx] metadata_dom [OF rel, of tx] k'
    by (metis contract_items_def fst_conv snd_conv)
  obtain j where "j < length (tx_events_at bs tx)" "ev_from_address (tx_events_at bs tx ! j) = a"
    using a by (auto simp: in_set_conv_nth)
  then have "((a, (tx, j)), ev_content (tx_events_at bs tx ! j)) \<in> set (contract_items bs k 0)"
    by (simp add: contract_items_set event_stored_def k')
  then show "contract_items bs k 0 \<noteq> []" by auto
qed

text \<open>The next entry of the events table, as both the constructor and \<open>next\<close> fetch it.\<close>

lemma next_entry_rest:
  assumes "body_rel txn bs"
    and it: "it = \<lparr>bc_next_entry = map_option fst (snd (cursor_next (tx_events txn) c)), bc_queue = q,
      bc_cursor = fst (cursor_next (tx_events txn) c)\<rparr>"
  shows "by_contract_ok txn bs it" and "by_contract_rest txn bs it =
    q @ concat (map (\<lambda>k. contract_items bs k 0) (cursor_remaining (tx_events txn) c))"
proof -
  have "k |\<in>| fmdom (tx_events txn)" if "cursor_remaining (tx_events txn) c = k # ks" for k ks
  proof -
    have "k \<in> set (cursor_remaining (tx_events txn) c)" using that by simp
    then show ?thesis by (simp add: cursor_remaining_def)
  qed
  then show "by_contract_ok txn bs it" and "by_contract_rest txn bs it =
    q @ concat (map (\<lambda>k. contract_items bs k 0) (cursor_remaining (tx_events txn) c))"
    using assms(1) unfolding it
    by (cases "cursor_remaining (tx_events txn) c";
        simp add: by_contract_ok_def by_contract_rest_def cursor_next_remaining tbl_entry_def cursor_remaining_at)+
qed

lemma by_contract_next_item:
  assumes ok: "by_contract_ok txn bs it" and rest: "by_contract_rest txn bs it = x # xs"
  shows "\<exists>it'. by_contract_next txn it = (it', Inr (Some x)) \<and> by_contract_ok txn bs it' \<and>
    by_contract_rest txn bs it' = xs"
proof (cases "bc_queue it")
  case (Cons y ys)
  then show ?thesis
    using ok rest
    by (cases "bc_next_entry it")
      (auto simp: by_contract_next_def bc_pop_def by_contract_ok_def by_contract_rest_def)
next
  case Nil
  then obtain k where k: "bc_next_entry it = Some k" using rest by (auto simp: by_contract_rest_def split: option.splits)
  have rel: "body_rel txn bs" and kdom: "k |\<in>| fmdom (tx_events txn)" using ok k by (simp_all add: by_contract_ok_def)
  obtain out where out: "read_tx_output txn (snd k) = Inr out"
    "get_events_from_tx (out_events out) (snd k) (fst k) 0 = contract_items bs k 0"
    using events_entry(1) [OF rel kdom] by blast
  obtain z zs where z: "contract_items bs k 0 = z # zs"
    using events_entry(2) [OF rel kdom] by (cases "contract_items bs k 0") auto
  let ?it = "\<lparr>bc_next_entry = map_option fst (snd (cursor_next (tx_events txn) (bc_cursor it))), bc_queue = zs,
    bc_cursor = fst (cursor_next (tx_events txn) (bc_cursor it))\<rparr>"
  have "by_contract_next txn it = (?it, Inr (Some z))"
    using Nil k out z by (cases k) (auto simp: by_contract_next_def bc_pop_def Let_def split: prod.split)
  moreover have "z = x \<and> zs @ concat (map (\<lambda>k. contract_items bs k 0)
      (cursor_remaining (tx_events txn) (bc_cursor it))) = xs"
    using rest Nil k z by (simp add: by_contract_rest_def)
  ultimately show ?thesis using next_entry_rest [OF rel refl, of "bc_cursor it" zs] by simp
qed

lemma by_contract_next_end:
  assumes "by_contract_ok txn bs it" and "by_contract_rest txn bs it = []"
  shows "by_contract_next txn it = (it, Inr None)"
  using assms events_entry(2) [of txn bs]
  by (auto simp: by_contract_next_def by_contract_ok_def by_contract_rest_def split: option.splits)

interpretation by_contract: event_iterator "by_contract_next txn" "by_contract_ok txn bs" "by_contract_rest txn bs" for txn bs
  by unfold_locales (auto dest: by_contract_next_end by_contract_next_item)

lemma iter_by_contract_spec:
  assumes rel: "body_rel txn bs"
  shows "\<exists>it. iter_events_by_contract_address txn (a, (tx0, j0)) = Inr it \<and> by_contract_ok txn bs it \<and>
    by_contract_rest txn bs it =
      (case filter (\<lambda>k. (a, tx0) \<le> k) (tbl_keys (tx_events txn)) of
         [] \<Rightarrow> []
       | k # ks \<Rightarrow> concat (map (\<lambda>k'. contract_items bs k' (if k' = k \<and> snd k = tx0 then j0 else 0)) (k # ks)))"
proof (cases "filter (\<lambda>k. (a, tx0) \<le> k) (tbl_keys (tx_events txn))")
  case Nil
  have "cursor_next (tx_events txn) CurEnd = (CurEnd, None)"
    by (simp add: cursor_next_remaining cursor_remaining_def)
  then show ?thesis
    using Nil rel by (simp add: iter_events_by_contract_address_def cursor_lower_bound_remaining
        by_contract_ok_def by_contract_rest_def)
next
  case (Cons k ks)
  have strict: "sorted_wrt (<) (k # ks)"
    using sorted_wrt_filter [OF tbl_keys_strict, of "\<lambda>k. (a, tx0) \<le> k" "tx_events txn"] Cons by simp
  have "k \<in> set (filter (\<lambda>k. (a, tx0) \<le> k) (tbl_keys (tx_events txn)))" using Cons by simp
  then have kdom: "k |\<in>| fmdom (tx_events txn)" by simp
  let ?s = "if snd k = tx0 then j0 else 0"
  obtain out where out: "read_tx_output txn (snd k) = Inr out"
    "get_events_from_tx (out_events out) (snd k) (fst k) ?s = contract_items bs k ?s"
    using events_entry(1) [OF rel kdom] by blast
  let ?it = "\<lparr>bc_next_entry = map_option fst (snd (cursor_next (tx_events txn) (CurAt k))),
    bc_queue = contract_items bs k ?s, bc_cursor = fst (cursor_next (tx_events txn) (CurAt k))\<rparr>"
  have "iter_events_by_contract_address txn (a, (tx0, j0)) = Inr ?it"
    using rel Cons out by (cases k) (auto simp: iter_events_by_contract_address_def cursor_lower_bound_remaining
        tbl_entry_def Let_def split: prod.split)
  moreover have "map (\<lambda>k'. contract_items bs k' (if k' = k \<and> snd k = tx0 then j0 else 0)) ks =
      map (\<lambda>k'. contract_items bs k' 0) ks" (is "?l = ?r")
    by (rule map_cong) (use strict in auto)
  then have "concat ?l = concat ?r" by (rule arg_cong)
  ultimately show ?thesis
    using next_entry_rest [OF rel refl, of "CurAt k" "contract_items bs k ?s"] Cons
    by (simp add: lower_bound_remaining_at [OF Cons])
qed

section \<open>Both\<close>

fun event_iter_ok :: "storage_txn \<Rightarrow> stored_tx list list \<Rightarrow> event_iter \<Rightarrow> bool" where
  "event_iter_ok txn bs (ByContractAddress it) = by_contract_ok txn bs it"
| "event_iter_ok txn bs (ByEventIndex it) = by_index_ok txn bs it"

fun event_iter_rest :: "storage_txn \<Rightarrow> stored_tx list list \<Rightarrow> event_iter \<Rightarrow> event_item list" where
  "event_iter_rest txn bs (ByContractAddress it) = by_contract_rest txn bs it"
| "event_iter_rest txn bs (ByEventIndex it) = by_index_rest txn bs it"

lemma unwrap_or_none_Inr [simp]: "unwrap_or_none (Inr x) = Inr x"
  by (simp add: unwrap_or_none_def)

interpretation both: event_iterator "event_iter_next txn" "event_iter_ok txn bs" "event_iter_rest txn bs" for txn bs
proof
  fix it assume "event_iter_ok txn bs it" "event_iter_rest txn bs it = []"
  then show "\<exists>it'. event_iter_next txn it = (it', Inr None) \<and> event_iter_ok txn bs it' \<and> event_iter_rest txn bs it' = []"
    by (cases it) (auto simp: by_contract_next_end by_index_next_end)
next
  fix it x xs assume "event_iter_ok txn bs it" "event_iter_rest txn bs it = x # xs"
  then show "\<exists>it'. event_iter_next txn it = (it', Inr (Some x)) \<and> event_iter_ok txn bs it' \<and> event_iter_rest txn bs it' = xs"
    by (cases it) (force dest: by_contract_next_item by_index_next_item)+
qed

text \<open>
  What a whole iteration returns: the list \<open>xs\<close>, one item for each call of \<open>next\<close>, and then nothing.
\<close>

definition iterates :: "storage_txn \<Rightarrow> event_iter sresult \<Rightarrow> event_item list \<Rightarrow> bool" where
  "iterates txn r xs \<longleftrightarrow> (\<exists>it. r = Inr it \<and> (\<forall>n. collect_items (event_iter_next txn) n it = Inr (take n xs)))"

lemma iterates_by_index:
  assumes "body_rel txn bs"
  shows "iterates txn (iter_events txn None (tx0, j0) to)
    (case filter (\<lambda>k. tx0 \<le> k) (tbl_keys (tx_transaction_metadata txn)) of
       [] \<Rightarrow> []
     | k # ks \<Rightarrow> concat (map (\<lambda>k'. tx_items bs k' (if k' = k then j0 else 0)) (filter (\<lambda>k. fst k \<le> to) (k # ks))))"
proof -
  from iter_by_index_spec [OF assms, of tx0 j0 to] obtain it
    where "iter_events_by_event_index txn (tx0, j0) to = Inr it" and ok: "by_index_ok txn bs it"
      and rest: "by_index_rest txn bs it = (case filter (\<lambda>k. tx0 \<le> k) (tbl_keys (tx_transaction_metadata txn)) of
       [] \<Rightarrow> []
     | k # ks \<Rightarrow> concat (map (\<lambda>k'. tx_items bs k' (if k' = k then j0 else 0)) (filter (\<lambda>k. fst k \<le> to) (k # ks))))"
    by blast
  then have "iter_events txn None (tx0, j0) to = Inr (ByEventIndex it)" by (simp add: iter_events_def)
  then show ?thesis
    using both.collect_rest [of txn bs "ByEventIndex it"] ok unfolding iterates_def rest [symmetric] by simp
qed

lemma iterates_by_address:
  assumes "body_rel txn bs"
  shows "iterates txn (iter_events txn (Some a) (tx0, j0) to)
    (case filter (\<lambda>k. (a, tx0) \<le> k) (tbl_keys (tx_events txn)) of
       [] \<Rightarrow> []
     | k # ks \<Rightarrow> concat (map (\<lambda>k'. contract_items bs k' (if k' = k \<and> snd k = tx0 then j0 else 0)) (k # ks)))"
proof -
  from iter_by_contract_spec [OF assms, of a tx0 j0] obtain it
    where "iter_events_by_contract_address txn (a, (tx0, j0)) = Inr it" and ok: "by_contract_ok txn bs it"
      and rest: "by_contract_rest txn bs it = (case filter (\<lambda>k. (a, tx0) \<le> k) (tbl_keys (tx_events txn)) of
       [] \<Rightarrow> []
     | k # ks \<Rightarrow> concat (map (\<lambda>k'. contract_items bs k' (if k' = k \<and> snd k = tx0 then j0 else 0)) (k # ks)))"
    by blast
  then have "iter_events txn (Some a) (tx0, j0) to = Inr (ByContractAddress it)" by (simp add: iter_events_def)
  then show ?thesis
    using both.collect_rest [of txn bs "ByContractAddress it"] ok unfolding iterates_def rest [symmetric] by simp
qed

section \<open>What an iteration returns\<close>

lemma event_stored_key:
  assumes "body_rel txn bs" and "event_stored bs ((a, (tx, j)), c)"
  shows "tx |\<in>| fmdom (tx_transaction_metadata txn)" and "(a, tx) |\<in>| fmdom (tx_events txn)"
proof -
  have "tx_events_at bs tx \<noteq> []" using assms(2) by (auto simp: event_stored_def)
  then show "tx |\<in>| fmdom (tx_transaction_metadata txn)"
    using metadata_dom [OF assms(1)] by (auto simp: tx_events_at_def split: option.splits)
  show "(a, tx) |\<in>| fmdom (tx_events txn)"
    using assms(2) unfolding events_dom [OF assms(1)] event_stored_def by (force simp: in_set_conv_nth)
qed

lemma in_concat_keyed:
  assumes "\<And>k. x \<in> set (f k) \<Longrightarrow> k = g"
  shows "x \<in> set (concat (map f ks)) \<longleftrightarrow> g \<in> set ks \<and> x \<in> set (f g)"
  using assms by auto

lemma lex_le: "(a, b) \<le> (c, d) \<longleftrightarrow> a < c \<or> a = c \<and> b \<le> d"
  for a c :: "'a :: linorder" and b d :: "'b :: linorder"
  by (auto simp: less_eq_prod_def)

lemma lex_less: "x < y \<longleftrightarrow> fst x < fst y \<or> fst x = fst y \<and> snd x < snd y"
  for x y :: "'a :: linorder \<times> 'b :: linorder"
  by (auto simp: less_prod_def)

lemma by_index_items:
  assumes rel: "body_rel txn bs" and keys: "filter (\<lambda>k. tx0 \<le> k) (tbl_keys (tx_transaction_metadata txn)) = k # ks"
  shows "((a, (tx, j)), c) \<in> set (concat (map (\<lambda>k'. tx_items bs k' (if k' = k then j0 else 0))
      (filter (\<lambda>k. fst k \<le> to) (k # ks)))) \<longleftrightarrow>
    event_stored bs ((a, (tx, j)), c) \<and> tx0 \<le> tx \<and> fst tx \<le> to \<and> (tx = k \<longrightarrow> j0 \<le> j)"
  using event_stored_key(1) [OF rel, of a tx j c]
  unfolding keys [symmetric] by (auto simp: tx_items_set)

lemma by_address_items:
  assumes rel: "body_rel txn bs" and keys: "filter (\<lambda>k. (a0, tx0) \<le> k) (tbl_keys (tx_events txn)) = k # ks"
  shows "((a, (tx, j)), c) \<in> set (concat (map (\<lambda>k'. contract_items bs k' (if k' = k \<and> snd k = tx0 then j0 else 0)) (k # ks))) \<longleftrightarrow>
    event_stored bs ((a, (tx, j)), c) \<and> (a0, tx0) \<le> (a, tx) \<and> ((a, tx) = k \<and> snd k = tx0 \<longrightarrow> j0 \<le> j)"
proof -
  let ?item = "((a, (tx, j)), c)" and ?f = "\<lambda>k'. contract_items bs k' (if k' = k \<and> snd k = tx0 then j0 else 0)"
  have "?item \<in> set (?f k') \<Longrightarrow> k' = (a, tx)" for k' by (cases k') (simp add: contract_items_set)
  then have "?item \<in> set (concat (map ?f (k # ks))) \<longleftrightarrow> (a, tx) \<in> set (k # ks) \<and> ?item \<in> set (?f (a, tx))"
    by (rule in_concat_keyed)
  then show ?thesis
    using event_stored_key(2) [OF rel, of a tx j c] unfolding keys [symmetric] by (simp add: contract_items_set) blast
qed

lemma by_index_items_sorted:
  "sorted_wrt (<) ks \<Longrightarrow> sorted_wrt (\<lambda>x y. snd (fst x) < snd (fst y)) (concat (map (\<lambda>k. tx_items bs k (s k)) ks))"
  by (rule concat_sorted_wrt, assumption, rule tx_items_sorted)
    (simp add: tx_items_set lex_less [of "snd (fst x)" "snd (fst y)" for x y])

lemma by_address_items_sorted:
  "sorted_wrt (<) ks \<Longrightarrow> sorted_wrt (\<lambda>x y. fst x < fst y) (concat (map (\<lambda>k. contract_items bs k (s k)) ks))"
  by (rule concat_sorted_wrt, assumption, rule contract_items_sorted)
    (auto simp: contract_items_set lex_less)

lemma first_key:
  assumes "filter (\<lambda>k. x \<le> k) (tbl_keys t) = k # ks"
  shows "sorted_wrt (<) (k # ks)" and "x |\<in>| fmdom t \<Longrightarrow> k = x" and "x \<le> k"
proof -
  show strict: "sorted_wrt (<) (k # ks)"
    using sorted_wrt_filter [OF tbl_keys_strict, of "\<lambda>k. x \<le> k" t] assms by simp
  have "k \<in> set (filter (\<lambda>k. x \<le> k) (tbl_keys t))" using assms by simp
  then show xk: "x \<le> k" by simp
  assume "x |\<in>| fmdom t"
  then have "x \<in> set (k # ks)" unfolding assms [symmetric] by simp
  then show "k = x" using strict xk by auto
qed



lemma demo_body_stored:
  obtains txn where "append_body demo_sizes (empty_txn FullArchive) 0 demo_body = Inr txn"
    and "body_rel txn [body_block demo_body]"
  using append_demo_body append_body_rel [OF _ body_rel_empty sizes_positive_demo] by fastforce





end
