(* ===== verification/Storage_State.thy ===== *)
theory Storage_State
  imports Storage_Txn
begin

text \<open>
  The state: \<open>crates/papyrus_storage/src/state/mod.rs\<close>. A state diff is stored in a file, and its
  entries in tables keyed by (item, block number); the value of an item at a state number is found as
  the last entry before it.

  The abstract view is the list of state diffs. \<open>state_rel\<close> relates a transaction to it, \<open>latest\<close>
  is the meaning of a read: the value the last diff assigned. Appending a diff appends to the list,
  reverting removes the last one.

  \<^item> \<open>StateNumber\<close> belongs to another package; its three methods are a parameter of the readers, the
    record \<open>state_number_api\<close>, and \<open>state_number_laws\<close> is what their documentation says.
  \<^item> An \<open>IndexMap\<close> is the list of its entries; \<open>diff_wf\<close> says that the keys of every one are distinct.
  \<^item> The \<open>HashSet\<close> that \<open>delete_deprecated_declared_classes\<close> iterates has an unspecified order, the
    parameter \<open>ord\<close>.
\<close>

section \<open>Reading\<close>

record 'n state_number_api =
  sn_block_after :: "'n \<Rightarrow> block_number"
  sn_is_before :: "'n \<Rightarrow> block_number \<Rightarrow> bool"
  sn_is_after :: "'n \<Rightarrow> block_number \<Rightarrow> bool"

text \<open>A state is before the blocks from its \<open>block_after\<close> on, and after the others.\<close>

definition state_number_laws :: "'n state_number_api \<Rightarrow> bool" where
  "state_number_laws api \<longleftrightarrow>
     (\<forall>n b. sn_is_before api n b \<longleftrightarrow> sn_block_after api n \<le> b) \<and>
     (\<forall>n b. sn_is_after api n b \<longleftrightarrow> b < sn_block_after api n)"

definition get_state_marker :: "storage_txn \<Rightarrow> block_number" where
  "get_state_marker txn = get_marker txn MkState"

definition get_state_diff :: "storage_txn \<Rightarrow> block_number \<Rightarrow> thin_state_diff option sresult" where
  "get_state_diff txn b =
     (case tbl_get (tx_state_diffs txn) b of
        None \<Rightarrow> Inr None
      | Some loc \<Rightarrow> res_bind (get_thin_state_diff_unchecked txn loc) (\<lambda>d. Inr (Some d)))"

definition get_class_hash_at ::
  "'n state_number_api \<Rightarrow> storage_txn \<Rightarrow> 'n \<Rightarrow> contract_address \<Rightarrow> class_hash option" where
  "get_class_hash_at api txn n address =
     (case tbl_before (tx_deployed_contracts txn) (address, sn_block_after api n) of
        None \<Rightarrow> None
      | Some ((got_address, _), class_hash) \<Rightarrow> if got_address \<noteq> address then None else Some class_hash)"

definition get_nonce_at ::
  "'n state_number_api \<Rightarrow> storage_txn \<Rightarrow> 'n \<Rightarrow> contract_address \<Rightarrow> nonce option" where
  "get_nonce_at api txn n address =
     (case tbl_before (tx_nonces txn) (address, sn_block_after api n) of
        None \<Rightarrow> None
      | Some ((got_address, _), v) \<Rightarrow> if got_address \<noteq> address then None else Some v)"

definition get_storage_at ::
  "'n state_number_api \<Rightarrow> storage_txn \<Rightarrow> 'n \<Rightarrow> contract_address \<Rightarrow> storage_key \<Rightarrow> felt" where
  "get_storage_at api txn n address key =
     (case tbl_before (tx_contract_storage txn) ((address, key), sn_block_after api n) of
        None \<Rightarrow> 0
      | Some (((got_address, got_key), _), v) \<Rightarrow>
          if got_address \<noteq> address \<or> got_key \<noteq> key then 0 else v)"

definition get_class_definition_at ::
  "'n state_number_api \<Rightarrow> storage_txn \<Rightarrow> 'n \<Rightarrow> class_hash \<Rightarrow> sierra_class option sresult" where
  "get_class_definition_at api txn n class_hash =
     (case tbl_get (tx_declared_classes_block txn) class_hash of
        None \<Rightarrow> Inr None
      | Some b \<Rightarrow>
          if sn_is_before api n b then Inr None
          else case tbl_get (tx_declared_classes txn) class_hash of
              None \<Rightarrow>
                if sn_is_after api n (get_marker txn MkClass) then Inr None
                else Inl (SErr (DBInconsistency
                  ''Couldn't find class for a block that is before the class marker.''))
            | Some loc \<Rightarrow> res_bind (get_contract_class_unchecked txn loc) (\<lambda>c. Inr (Some c)))"

definition get_class_definition_block_number :: "storage_txn \<Rightarrow> class_hash \<Rightarrow> block_number option" where
  "get_class_definition_block_number txn class_hash = tbl_get (tx_declared_classes_block txn) class_hash"

definition get_deprecated_class_definition_at ::
  "'n state_number_api \<Rightarrow> storage_txn \<Rightarrow> 'n \<Rightarrow> class_hash \<Rightarrow> cairo0_class option sresult" where
  "get_deprecated_class_definition_at api txn n class_hash =
     (case tbl_get (tx_deprecated_declared_classes txn) class_hash of
        None \<Rightarrow> Inr None
      | Some v \<Rightarrow>
          if sn_is_before api n (idc_block_number v) then Inr None
          else res_bind (get_deprecated_contract_class_unchecked txn (idc_location_in_file v))
                 (\<lambda>c. Inr (Some c)))"

section \<open>Writing\<close>

definition write_deployed_contracts ::
  "(contract_address \<times> class_hash) list \<Rightarrow> block_number \<Rightarrow> (contract_address \<times> nonce) list \<Rightarrow>
   (contract_address \<times> block_number, class_hash) table \<times> (contract_address \<times> block_number, nonce) table \<Rightarrow>
   ((contract_address \<times> block_number, class_hash) table \<times> (contract_address \<times> block_number, nonce) table) sresult" where
  "write_deployed_contracts deployed b nonces_diffs =
     fold_res (\<lambda>(address, class_hash) (deployed_contracts_table, nonces_table).
       res_bind (db_res (tbl_insert ''deployed_contracts'' deployed_contracts_table (address, b) class_hash))
         (\<lambda>deployed_contracts_table.
       if map_of nonces_diffs address = None
       then res_bind (db_res (tbl_append_greater_sub_key nonces_table (address, b) 0))
              (\<lambda>nonces_table. Inr (deployed_contracts_table, nonces_table))
       else Inr (deployed_contracts_table, nonces_table))) deployed"

definition write_nonces ::
  "(contract_address \<times> nonce) list \<Rightarrow> block_number \<Rightarrow>
   (contract_address \<times> block_number, nonce) table \<Rightarrow> (contract_address \<times> block_number, nonce) table" where
  "write_nonces nonces b = fold (\<lambda>(address, nonce) t. tbl_upsert t (address, b) nonce) nonces"

definition write_replaced_classes ::
  "(contract_address \<times> class_hash) list \<Rightarrow> block_number \<Rightarrow>
   (contract_address \<times> block_number, class_hash) table \<Rightarrow>
   (contract_address \<times> block_number, class_hash) table sresult" where
  "write_replaced_classes replaced b =
     fold_res (\<lambda>(address, class_hash) t.
       db_res (tbl_insert ''deployed_contracts'' t (address, b) class_hash)) replaced"

definition write_storage_diffs ::
  "(contract_address \<times> (storage_key \<times> felt) list) list \<Rightarrow> block_number \<Rightarrow>
   ((contract_address \<times> storage_key) \<times> block_number, felt) table \<Rightarrow>
   ((contract_address \<times> storage_key) \<times> block_number, felt) table sresult" where
  "write_storage_diffs diffs b =
     fold_res (\<lambda>(address, entries).
       fold_res (\<lambda>(key, v) t. db_res (tbl_append_greater_sub_key t ((address, key), b) v)) entries) diffs"

definition update_marker_to_next_block ::
  "storage_txn \<Rightarrow> marker_kind \<Rightarrow> block_number \<Rightarrow> storage_txn sresult" where
  "update_marker_to_next_block txn kind b =
     (if get_marker txn kind \<noteq> b then Inl (SErr (MarkerMismatch (get_marker txn kind) b))
      else Inr (set_marker txn kind (Suc b)))"

text \<open>The \<open>while\<close> loop over the blocks up to the state marker.\<close>

function advance_loop :: "block_number \<Rightarrow> block_number \<Rightarrow> storage_txn \<Rightarrow> storage_txn sresult" where
  "advance_loop state_marker compiled_class_marker txn =
     (if compiled_class_marker < state_marker then
        (case tbl_get (tx_state_diffs txn) compiled_class_marker of
           None \<Rightarrow> Inl (SPanic ''Missing state diff for block'')
         | Some loc \<Rightarrow>
             res_bind (get_thin_state_diff_unchecked txn loc) (\<lambda>d.
               if tsd_declared_classes d \<noteq> [] then Inr txn
               else advance_loop state_marker (Suc compiled_class_marker)
                      (set_marker txn MkCompiledClass (Suc compiled_class_marker))))
      else Inr txn)"
  by pat_completeness auto
termination by (relation "measure (\<lambda>(state_marker, compiled_class_marker, _). state_marker - compiled_class_marker)") auto

definition advance_compiled_class_marker_over_blocks_without_classes :: "storage_txn \<Rightarrow> storage_txn sresult" where
  "advance_compiled_class_marker_over_blocks_without_classes txn =
     advance_loop (get_marker txn MkState) (get_marker txn MkCompiledClass) txn"

definition append_state_diff ::
  "serde_sizes \<Rightarrow> storage_txn \<Rightarrow> block_number \<Rightarrow> thin_state_diff \<Rightarrow> storage_txn sresult" where
  "append_state_diff sz txn b d =
     res_bind (write_deployed_contracts (tsd_deployed_contracts d) b (tsd_nonces d)
         (tx_deployed_contracts txn, tx_nonces txn)) (\<lambda>(deployed_contracts, nonces).
     res_bind (write_storage_diffs (tsd_storage_diffs d) b (tx_contract_storage txn)) (\<lambda>storage.
     let nonces = write_nonces (tsd_nonces d) b nonces in
     res_bind (write_replaced_classes (tsd_replaced_classes d) b deployed_contracts) (\<lambda>deployed_contracts.
     res_bind (fold_res (\<lambda>(class_hash, _) t.
         db_res (tbl_insert ''declared_classes_block'' t class_hash b)) (tsd_declared_classes d)
         (tx_declared_classes_block txn)) (\<lambda>declared_classes_block.
     let txn = txn\<lparr>tx_deployed_contracts := deployed_contracts, tx_nonces := nonces,
                   tx_contract_storage := storage, tx_declared_classes_block := declared_classes_block\<rparr>;
         (txn, loc) = append_thin_state_diff sz txn d
     in res_bind (db_res (tbl_append (tx_state_diffs txn) b loc)) (\<lambda>t.
     let txn = set_file_offset (txn\<lparr>tx_state_diffs := t\<rparr>) OkThinStateDiff loc in
     res_bind (update_marker_to_next_block txn MkState b)
       advance_compiled_class_marker_over_blocks_without_classes)))))"

subsection \<open>Reverting\<close>

definition delete_declared_class ::
  "class_hash \<Rightarrow> storage_txn \<times> (class_hash \<times> sierra_class) list \<Rightarrow>
   (storage_txn \<times> (class_hash \<times> sierra_class) list) sresult" where
  "delete_declared_class class_hash acc =
     (case acc of (txn, deleted) \<Rightarrow>
        case tbl_get (tx_declared_classes txn) class_hash of
          None \<Rightarrow> Inr (txn, deleted)
        | Some loc \<Rightarrow>
            res_bind (get_contract_class_unchecked txn loc) (\<lambda>c.
              Inr (txn\<lparr>tx_declared_classes := tbl_delete (tx_declared_classes txn) class_hash,
                       tx_declared_classes_block := tbl_delete (tx_declared_classes_block txn) class_hash\<rparr>,
                   deleted @ [(class_hash, c)])))"

definition delete_declared_classes ::
  "thin_state_diff \<Rightarrow> storage_txn \<Rightarrow> (storage_txn \<times> (class_hash \<times> sierra_class) list) sresult" where
  "delete_declared_classes d txn =
     fold_res delete_declared_class (map fst (tsd_declared_classes d)) (txn, [])"

definition delete_deprecated_declared_class ::
  "block_number \<Rightarrow> class_hash \<Rightarrow> storage_txn \<times> (class_hash \<times> cairo0_class) list \<Rightarrow>
   (storage_txn \<times> (class_hash \<times> cairo0_class) list) sresult" where
  "delete_deprecated_declared_class b class_hash acc =
     (case acc of (txn, deleted) \<Rightarrow>
        case tbl_get (tx_deprecated_declared_classes txn) class_hash of
          None \<Rightarrow> Inr (txn, deleted)
        | Some v \<Rightarrow>
            if b = idc_block_number v then
              res_bind (get_deprecated_contract_class_unchecked txn (idc_location_in_file v)) (\<lambda>c.
                Inr (txn\<lparr>tx_deprecated_declared_classes :=
                         tbl_delete (tx_deprecated_declared_classes txn) class_hash\<rparr>,
                     deleted @ [(class_hash, c)]))
            else Inr (txn, deleted))"

definition delete_deprecated_declared_classes ::
  "(class_hash set \<Rightarrow> class_hash list) \<Rightarrow> block_number \<Rightarrow> thin_state_diff \<Rightarrow> storage_txn \<Rightarrow>
   (storage_txn \<times> (class_hash \<times> cairo0_class) list) sresult" where
  "delete_deprecated_declared_classes ord b d txn =
     fold_res (delete_deprecated_declared_class b)
       (ord (set (tsd_deprecated_declared_classes d) \<union> snd ` set (tsd_deployed_contracts d))) (txn, [])"

fun delete_compiled_classes_loop ::
  "class_hash list \<Rightarrow> storage_txn \<Rightarrow> (class_hash \<times> casm_class) list \<Rightarrow>
   (storage_txn \<times> (class_hash \<times> casm_class) list) sresult" where
  "delete_compiled_classes_loop [] txn deleted = Inr (txn, deleted)"
| "delete_compiled_classes_loop (class_hash # class_hashes) txn deleted =
     (case tbl_get (tx_casms txn) class_hash of
        None \<Rightarrow> Inr (txn, deleted)
      | Some loc \<Rightarrow>
          let txn = txn\<lparr>tx_casms := tbl_delete (tx_casms txn) class_hash\<rparr> in
          res_bind (get_casm_unchecked txn loc) (\<lambda>c.
            delete_compiled_classes_loop class_hashes txn (deleted @ [(class_hash, c)])))"

definition delete_compiled_classes ::
  "class_hash list \<Rightarrow> storage_txn \<Rightarrow> (storage_txn \<times> (class_hash \<times> casm_class) list) sresult" where
  "delete_compiled_classes class_hashes txn = delete_compiled_classes_loop class_hashes txn []"

definition delete_deployed_contracts :: "block_number \<Rightarrow> thin_state_diff \<Rightarrow> storage_txn \<Rightarrow> storage_txn" where
  "delete_deployed_contracts b d =
     fold (\<lambda>address txn.
       txn\<lparr>tx_deployed_contracts := tbl_delete (tx_deployed_contracts txn) (address, b),
           tx_nonces := tbl_delete (tx_nonces txn) (address, b)\<rparr>) (map fst (tsd_deployed_contracts d))"

definition delete_storage_diffs :: "block_number \<Rightarrow> thin_state_diff \<Rightarrow> storage_txn \<Rightarrow> storage_txn" where
  "delete_storage_diffs b d =
     fold (\<lambda>(address, entries).
       fold (\<lambda>(key, _) txn.
         txn\<lparr>tx_contract_storage := tbl_delete (tx_contract_storage txn) ((address, key), b)\<rparr>) entries)
       (tsd_storage_diffs d)"

definition delete_nonces :: "block_number \<Rightarrow> thin_state_diff \<Rightarrow> storage_txn \<Rightarrow> storage_txn" where
  "delete_nonces b d =
     fold (\<lambda>address txn. txn\<lparr>tx_nonces := tbl_delete (tx_nonces txn) (address, b)\<rparr>) (map fst (tsd_nonces d))"

definition delete_replaced_classes :: "block_number \<Rightarrow> thin_state_diff \<Rightarrow> storage_txn \<Rightarrow> storage_txn" where
  "delete_replaced_classes b d =
     fold (\<lambda>address txn.
       txn\<lparr>tx_deployed_contracts := tbl_delete (tx_deployed_contracts txn) (address, b)\<rparr>)
       (map fst (tsd_replaced_classes d))"

text \<open>The marker part of a revert: the state marker moves back, and the two others only if ahead.\<close>

definition revert_markers :: "storage_txn \<Rightarrow> block_number \<Rightarrow> storage_txn" where
  "revert_markers txn b =
     (let txn = set_marker txn MkState b;
          txn = (if get_marker txn MkClass = Suc b then set_marker txn MkClass b else txn)
      in if get_marker txn MkCompiledClass = Suc b then set_marker txn MkCompiledClass b else txn)"

type_synonym reverted_state_diff =
  "thin_state_diff \<times> (class_hash \<times> sierra_class) list \<times> (class_hash \<times> cairo0_class) list \<times>
   (class_hash \<times> casm_class) list"

definition revert_state_diff ::
  "(class_hash set \<Rightarrow> class_hash list) \<Rightarrow> storage_txn \<Rightarrow> block_number \<Rightarrow>
   (storage_txn \<times> reverted_state_diff option) sresult" where
  "revert_state_diff ord txn b =
     (if (case bn_next b of None \<Rightarrow> True | Some n \<Rightarrow> n \<noteq> get_state_marker txn) then Inr (txn, None)
      else res_bind (get_state_diff txn b) (\<lambda>diff.
        case diff of None \<Rightarrow> Inl (SPanic ''Missing state diff for block'') | Some d \<Rightarrow>
        let txn = revert_markers txn b
        in res_bind (delete_declared_classes d txn) (\<lambda>(txn, deleted_classes).
           res_bind (delete_deprecated_declared_classes ord b d txn) (\<lambda>(txn, deleted_deprecated_classes).
           res_bind (delete_compiled_classes (map fst (tsd_declared_classes d)) txn)
             (\<lambda>(txn, deleted_compiled_classes).
           let txn = delete_deployed_contracts b d txn;
               txn = delete_storage_diffs b d txn;
               txn = delete_nonces b d txn;
               txn = txn\<lparr>tx_state_diffs := tbl_delete (tx_state_diffs txn) b\<rparr>;
               txn = delete_replaced_classes b d txn
           in Inr (txn, Some (d, deleted_classes, deleted_deprecated_classes, deleted_compiled_classes)))))))"

declare advance_loop.simps [simp del]
declare fmfilter_cong [cong del]

section \<open>Loops over a table\<close>

text \<open>Writing a list of new entries, in either of the two checked ways, adds them to the table.\<close>

lemma fmlookup_add_list:
  "fmlookup (t ++\<^sub>f fmap_of_list kvs) k = (case map_of kvs k of None \<Rightarrow> fmlookup t k | Some v \<Rightarrow> Some v)"
proof -
  have "k |\<in>| fmdom (fmap_of_list kvs) \<longleftrightarrow> map_of kvs k \<noteq> None"
    by (simp only: fmlookup_dom_iff fmlookup_of_list) simp
  then show ?thesis by (simp add: fmlookup_of_list del: fmdom_fmap_of_list split: option.split)
qed

lemma fmap_of_list_Cons_add:
  "k \<notin> fst ` set kvs \<Longrightarrow> fmupd k v t ++\<^sub>f fmap_of_list kvs = t ++\<^sub>f fmap_of_list ((k, v) # kvs)"
proof (rule fmap_ext)
  fix x assume "k \<notin> fst ` set kvs"
  then have "map_of kvs k = None" by (simp add: map_of_eq_None_iff)
  then show "fmlookup (fmupd k v t ++\<^sub>f fmap_of_list kvs) x = fmlookup (t ++\<^sub>f fmap_of_list ((k, v) # kvs)) x"
    unfolding fmlookup_add_list by (auto split: option.split)
qed

lemma fold_insert:
  "fold_res (\<lambda>(k, v) t. db_res (tbl_insert name t (f k) (g v))) kvs t = Inr t' \<longleftrightarrow>
     distinct (map (f \<circ> fst) kvs) \<and> (\<forall>k \<in> fst ` set kvs. fmlookup t (f k) = None) \<and>
     t' = t ++\<^sub>f fmap_of_list (map (\<lambda>(k, v). (f k, g v)) kvs)"
proof (induction kvs arbitrary: t)
  case (Cons kv kvs)
  obtain k v where kv: "kv = (k, v)" by (cases kv)
  have img: "f k \<notin> fst ` set (map (\<lambda>(k, v). (f k, g v)) kvs) \<longleftrightarrow> f k \<notin> (f \<circ> fst) ` set kvs"
    by (force simp: image_image)
  show ?case
  proof (cases "fmlookup t (f k) = None \<and> f k \<notin> (f \<circ> fst) ` set kvs")
    case True
    then show ?thesis
      using fmap_of_list_Cons_add [of "f k" "map (\<lambda>(k, v). (f k, g v)) kvs" "g v" t] img
      by (auto simp: kv res_bind_eq_Inr db_res_eq_Inr tbl_insert_eq_Inr Cons.IH)
  next
    case False
    then show ?thesis
      by (auto simp: kv res_bind_eq_Inr db_res_eq_Inr tbl_insert_eq_Inr Cons.IH image_iff)
  qed
qed auto

lemma fold_append_greater:
  "fold_res (\<lambda>(k, v) t. db_res (tbl_append_greater_sub_key t (k, s) v)) kvs t = Inr t' \<longleftrightarrow>
     distinct (map fst kvs) \<and> (\<forall>k s'. k \<in> fst ` set kvs \<longrightarrow> (k, s') |\<in>| fmdom t \<longrightarrow> s' < s) \<and>
     t' = t ++\<^sub>f fmap_of_list (map (\<lambda>(k, v). ((k, s), v)) kvs)"
proof (induction kvs arbitrary: t)
  case (Cons kv kvs)
  obtain k v where kv: "kv = (k, v)" by (cases kv)
  have img: "(k, s) \<notin> fst ` set (map (\<lambda>(k, v). ((k, s), v)) kvs) \<longleftrightarrow> k \<notin> fst ` set kvs"
    by (force simp: image_image)
  show ?case
  proof (cases "(\<forall>s'. (k, s') |\<in>| fmdom t \<longrightarrow> s' < s) \<and> k \<notin> fst ` set kvs")
    case True
    then show ?thesis
      using fmap_of_list_Cons_add [of "(k, s)" "map (\<lambda>(k, v). ((k, s), v)) kvs" v t] img
      by (auto simp: kv res_bind_eq_Inr db_res_eq_Inr tbl_append_greater_eq_Inr Cons.IH)
  next
    case False
    then show ?thesis
      by (auto simp: kv res_bind_eq_Inr db_res_eq_Inr tbl_append_greater_eq_Inr Cons.IH image_iff)
  qed
qed auto

lemma fold_upsert:
  assumes "distinct (map fst kvs)"
  shows "fold (\<lambda>(k, v) t. tbl_upsert t (k, s) v) kvs t = t ++\<^sub>f fmap_of_list (map (\<lambda>(k, v). ((k, s), v)) kvs)"
  using assms
proof (induction kvs arbitrary: t)
  case (Cons kv kvs)
  obtain k v where kv: "kv = (k, v)" by (cases kv)
  have "(k, s) \<notin> fst ` set (map (\<lambda>(k, v). ((k, s), v)) kvs)"
    using Cons.prems by (force simp: kv)
  from fmap_of_list_Cons_add [OF this, of v t] Cons show ?case by (simp add: kv tbl_upsert_def)
qed simp

lemma map_of_keyed:
  "map_of (map (\<lambda>(k, v). ((k, s), v)) kvs) (k', s') = (if s' = s then map_of kvs k' else None)"
  by (induction kvs) auto

lemma fmlookup_add_keyed:
  "fmlookup (t ++\<^sub>f fmap_of_list (map (\<lambda>(k, v). ((k, s), v)) kvs)) (k', s') =
     (if s' = s \<and> map_of kvs k' \<noteq> None then map_of kvs k' else fmlookup t (k', s'))"
  unfolding fmlookup_add_list map_of_keyed by (auto split: option.split)

section \<open>The value last assigned\<close>

definition latest :: "('d \<Rightarrow> 'v option) \<Rightarrow> 'd list \<Rightarrow> 'v option" where
  "latest h ds = fold (\<lambda>d acc. case h d of None \<Rightarrow> acc | Some v \<Rightarrow> Some v) ds None"

lemma latest_Nil [simp]: "latest h [] = None"
  by (simp add: latest_def)

lemma latest_snoc [simp]:
  "latest h (ds @ [d]) = (case h d of None \<Rightarrow> latest h ds | Some v \<Rightarrow> Some v)"
  by (simp add: latest_def split: option.split)

lemma latest_eq_None: "latest h ds = None \<longleftrightarrow> (\<forall>d \<in> set ds. h d = None)"
  by (induction ds rule: rev_induct) (auto split: option.splits)

lemma latest_eq_Some:
  "latest h ds = Some v \<longleftrightarrow>
     (\<exists>i < length ds. h (ds ! i) = Some v \<and> (\<forall>j. i < j \<longrightarrow> j < length ds \<longrightarrow> h (ds ! j) = None))"
proof (induction ds rule: rev_induct)
  case (snoc d ds)
  show ?case
  proof (cases "h d")
    case None
    have "(\<exists>i < length (ds @ [d]). h ((ds @ [d]) ! i) = Some v \<and>
        (\<forall>j. i < j \<longrightarrow> j < length (ds @ [d]) \<longrightarrow> h ((ds @ [d]) ! j) = None)) \<longleftrightarrow>
      (\<exists>i < length ds. h (ds ! i) = Some v \<and> (\<forall>j. i < j \<longrightarrow> j < length ds \<longrightarrow> h (ds ! j) = None))"
    proof (rule ex_cong1)
      fix i
      show "(i < length (ds @ [d]) \<and> h ((ds @ [d]) ! i) = Some v \<and>
          (\<forall>j. i < j \<longrightarrow> j < length (ds @ [d]) \<longrightarrow> h ((ds @ [d]) ! j) = None)) \<longleftrightarrow>
        (i < length ds \<and> h (ds ! i) = Some v \<and> (\<forall>j. i < j \<longrightarrow> j < length ds \<longrightarrow> h (ds ! j) = None))"
        using None by (auto simp: nth_append less_Suc_eq)
    qed
    then show ?thesis using None snoc by simp
  next
    case (Some w)
    have "(\<exists>i < length (ds @ [d]). h ((ds @ [d]) ! i) = Some v \<and>
        (\<forall>j. i < j \<longrightarrow> j < length (ds @ [d]) \<longrightarrow> h ((ds @ [d]) ! j) = None)) \<longleftrightarrow> v = w"
    proof
      assume "\<exists>i < length (ds @ [d]). h ((ds @ [d]) ! i) = Some v \<and>
        (\<forall>j. i < j \<longrightarrow> j < length (ds @ [d]) \<longrightarrow> h ((ds @ [d]) ! j) = None)"
      then obtain i where i: "i < length (ds @ [d])" "h ((ds @ [d]) ! i) = Some v"
        "\<And>j. i < j \<Longrightarrow> j < length (ds @ [d]) \<Longrightarrow> h ((ds @ [d]) ! j) = None" by blast
      have "i = length ds" using i(1) i(3) [of "length ds"] Some by (cases "i = length ds") auto
      then show "v = w" using i(2) Some by simp
    next
      assume "v = w"
      then show "\<exists>i < length (ds @ [d]). h ((ds @ [d]) ! i) = Some v \<and>
        (\<forall>j. i < j \<longrightarrow> j < length (ds @ [d]) \<longrightarrow> h ((ds @ [d]) ! j) = None)"
        using Some by (intro exI [of _ "length ds"]) simp
    qed
    then show ?thesis using Some by auto
  qed
qed simp

text \<open>
  A table keyed by (item, block) that holds what the diffs assign: the last entry before a block
  number, of the same item, is the latest value the diffs before it assigned.
\<close>

definition versioned ::
  "('x \<times> block_number, 'v) table \<Rightarrow> ('d \<Rightarrow> 'x \<Rightarrow> 'v option) \<Rightarrow> 'd list \<Rightarrow> bool" where
  "versioned t g ds \<longleftrightarrow>
     (\<forall>x b. fmlookup t (x, b) = (if b < length ds then g (ds ! b) x else None))"

lemma versioned_before:
  fixes t :: "('x :: linorder \<times> block_number, 'v) table"
  assumes "versioned t g ds"
  shows "(case tbl_before t (x, n) of None \<Rightarrow> None
      | Some ((x', _), v) \<Rightarrow> if x' \<noteq> x then None else Some v) = latest (\<lambda>d. g d x) (take n ds)"
proof -
  have lookup: "fmlookup t (y, b) = (if b < length ds then g (ds ! b) y else None)" for y b
    using assms by (simp add: versioned_def)
  show ?thesis
  proof (cases "latest (\<lambda>d. g d x) (take n ds)")
    case None
    have "x' \<noteq> x" if before: "tbl_before t (x, n) = Some ((x', b), v)" for x' b v
    proof
      assume "x' = x"
      then have "fmlookup t (x, b) = Some v" "b < n"
        using before by (auto simp: tbl_before_eq_Some less_prod_def)
      then have "g (ds ! b) x = Some v" "b < length ds" by (auto simp: lookup split: if_splits)
      then have "ds ! b \<in> set (take n ds)" "g (ds ! b) x \<noteq> None"
        using \<open>b < n\<close> by (auto simp: in_set_conv_nth intro!: exI [of _ b])
      with None show False by (auto simp: latest_eq_None)
    qed
    with None show ?thesis by (auto split: option.splits)
  next
    case (Some v)
    then obtain i where i: "i < length ds" "i < n" "g (ds ! i) x = Some v"
      "\<And>j. i < j \<Longrightarrow> j < length ds \<Longrightarrow> j < n \<Longrightarrow> g (ds ! j) x = None"
      by (auto simp: latest_eq_Some)
    have "y \<le> (x, i)" if y: "y |\<in>| fmdom t" "y < (x, n)" for y
    proof (cases y)
      case (Pair x' j)
      show ?thesis
      proof (cases "x' = x")
        case True
        then have "fmlookup t (x, j) \<noteq> None" "j < n"
          using y Pair by (auto simp: fmlookup_dom_iff)
        then have "\<not> i < j" using i(4) [of j] by (auto simp: lookup split: if_splits)
        then show ?thesis using Pair True by simp
      next
        case False
        then have "x' < x" using y(2) Pair by (auto simp: order_le_less)
        then show ?thesis using Pair by simp
      qed
    qed
    then have "tbl_before t (x, n) = Some ((x, i), v)"
      using i by (auto simp: tbl_before_eq_Some lookup less_prod_def)
    with Some show ?thesis by simp
  qed
qed

lemma versioned_append:
  assumes "versioned t g ds"
    and "\<And>x b. fmlookup t' (x, b) = (if b = length ds then g d x else fmlookup t (x, b))"
  shows "versioned t' g (ds @ [d])"
  using assms by (auto simp: versioned_def nth_append)

lemma versioned_revert:
  assumes "versioned t g (ds @ [d])"
    and "\<And>x b. fmlookup t' (x, b) = (if b = length ds then None else fmlookup t (x, b))"
  shows "versioned t' g ds"
  using assms by (auto simp: versioned_def nth_append)

section \<open>The abstract view\<close>

text \<open>What a diff assigns.\<close>

definition storage_entries :: "thin_state_diff \<Rightarrow> ((contract_address \<times> storage_key) \<times> felt) list" where
  "storage_entries d =
     concat (map (\<lambda>(a, es). map (\<lambda>(k, v). ((a, k), v)) es) (tsd_storage_diffs d))"

definition diff_storage :: "thin_state_diff \<Rightarrow> contract_address \<times> storage_key \<Rightarrow> felt option" where
  "diff_storage d = map_of (storage_entries d)"

definition diff_nonce :: "thin_state_diff \<Rightarrow> contract_address \<Rightarrow> nonce option" where
  "diff_nonce d a =
     (case map_of (tsd_nonces d) a of
        Some n \<Rightarrow> Some n
      | None \<Rightarrow> if map_of (tsd_deployed_contracts d) a \<noteq> None then Some 0 else None)"

definition diff_class :: "thin_state_diff \<Rightarrow> contract_address \<Rightarrow> class_hash option" where
  "diff_class d a =
     (case map_of (tsd_deployed_contracts d) a of
        Some c \<Rightarrow> Some c
      | None \<Rightarrow> map_of (tsd_replaced_classes d) a)"

definition diff_wf :: "thin_state_diff \<Rightarrow> bool" where
  "diff_wf d \<longleftrightarrow>
     distinct (map fst (tsd_deployed_contracts d)) \<and> distinct (map fst (tsd_storage_diffs d)) \<and>
     (\<forall>(a, es) \<in> set (tsd_storage_diffs d). distinct (map fst es)) \<and>
     distinct (map fst (tsd_declared_classes d)) \<and> distinct (map fst (tsd_nonces d)) \<and>
     distinct (map fst (tsd_replaced_classes d))"

definition state_rel :: "storage_txn \<Rightarrow> thin_state_diff list \<Rightarrow> bool" where
  "state_rel txn ds \<longleftrightarrow>
     get_marker txn MkState = length ds \<and> get_marker txn MkCompiledClass \<le> length ds \<and>
     versioned (tx_contract_storage txn) diff_storage ds \<and>
     versioned (tx_nonces txn) diff_nonce ds \<and>
     versioned (tx_deployed_contracts txn) diff_class ds \<and>
     (\<forall>b. rel_option (\<lambda>loc d. file_get (fs_thin_state_diff (tx_file_handlers txn)) loc = Some d)
        (fmlookup (tx_state_diffs txn) b) (if b < length ds then Some (ds ! b) else None)) \<and>
     (\<forall>c b. fmlookup (tx_declared_classes_block txn) c = Some b \<longleftrightarrow>
        b < length ds \<and> c \<in> fst ` set (tsd_declared_classes (ds ! b))) \<and>
     file_wf (fs_thin_state_diff (tx_file_handlers txn))"

lemma state_relI:
  assumes "get_marker txn MkState = length ds" and "get_marker txn MkCompiledClass \<le> length ds"
    and "versioned (tx_contract_storage txn) diff_storage ds"
    and "versioned (tx_nonces txn) diff_nonce ds"
    and "versioned (tx_deployed_contracts txn) diff_class ds"
    and "\<And>b. rel_option (\<lambda>loc d. file_get (fs_thin_state_diff (tx_file_handlers txn)) loc = Some d)
        (fmlookup (tx_state_diffs txn) b) (if b < length ds then Some (ds ! b) else None)"
    and "\<And>c b. fmlookup (tx_declared_classes_block txn) c = Some b \<longleftrightarrow>
        b < length ds \<and> c \<in> fst ` set (tsd_declared_classes (ds ! b))"
    and "file_wf (fs_thin_state_diff (tx_file_handlers txn))"
  shows "state_rel txn ds"
  unfolding state_rel_def using assms by blast

lemma state_relD:
  assumes "state_rel txn ds"
  shows "get_marker txn MkState = length ds" and "get_marker txn MkCompiledClass \<le> length ds"
    and "versioned (tx_contract_storage txn) diff_storage ds"
    and "versioned (tx_nonces txn) diff_nonce ds"
    and "versioned (tx_deployed_contracts txn) diff_class ds"
    and "rel_option (\<lambda>loc d. file_get (fs_thin_state_diff (tx_file_handlers txn)) loc = Some d)
        (fmlookup (tx_state_diffs txn) b) (if b < length ds then Some (ds ! b) else None)"
    and "fmlookup (tx_declared_classes_block txn) c = Some b \<longleftrightarrow>
        b < length ds \<and> c \<in> fst ` set (tsd_declared_classes (ds ! b))"
    and "file_wf (fs_thin_state_diff (tx_file_handlers txn))"
  using assms unfolding state_rel_def by blast+

lemma state_rel_diff:
  assumes "state_rel txn ds"
  shows "get_state_diff txn b = Inr (if b < length ds then Some (ds ! b) else None)"
  using state_relD(6) [OF assms, of b]
  by (cases "fmlookup (tx_state_diffs txn) b")
    (auto simp: get_state_diff_def tbl_get_def get_thin_state_diff_unchecked_def file_get_unchecked_def
      split: if_splits)

lemma state_rel_reads:
  assumes "state_rel txn ds"
  shows "get_storage_at api txn n a k =
      (case latest (\<lambda>d. diff_storage d (a, k)) (take (sn_block_after api n) ds) of None \<Rightarrow> 0 | Some v \<Rightarrow> v)"
    and "get_nonce_at api txn n a = latest (\<lambda>d. diff_nonce d a) (take (sn_block_after api n) ds)"
    and "get_class_hash_at api txn n a = latest (\<lambda>d. diff_class d a) (take (sn_block_after api n) ds)"
proof -
  let ?m = "sn_block_after api n"
  show "get_nonce_at api txn n a = latest (\<lambda>d. diff_nonce d a) (take ?m ds)"
    using versioned_before [OF state_relD(4) [OF assms], of a ?m] by (simp add: get_nonce_at_def)
  show "get_class_hash_at api txn n a = latest (\<lambda>d. diff_class d a) (take ?m ds)"
    using versioned_before [OF state_relD(5) [OF assms], of a ?m] by (simp add: get_class_hash_at_def)
  show "get_storage_at api txn n a k =
      (case latest (\<lambda>d. diff_storage d (a, k)) (take ?m ds) of None \<Rightarrow> 0 | Some v \<Rightarrow> v)"
    unfolding versioned_before [OF state_relD(3) [OF assms], of "(a, k)" ?m, symmetric] get_storage_at_def
    by (auto split: option.split)
qed

section \<open>Appending\<close>

lemma write_deployed_contracts_eq_Inr:
  "write_deployed_contracts dep b nd (t1, t2) = Inr (t1', t2') \<longleftrightarrow>
     fold_res (\<lambda>(k, v) t. db_res (tbl_insert ''deployed_contracts'' t (k, b) v)) dep t1 = Inr t1' \<and>
     fold_res (\<lambda>(k, v) t. db_res (tbl_append_greater_sub_key t (k, b) v))
       (map (\<lambda>(a, c). (a, 0)) (filter (\<lambda>(a, c). map_of nd a = None) dep)) t2 = Inr t2'"
proof (induction dep arbitrary: t1 t2)
  case Nil
  then show ?case by (auto simp: write_deployed_contracts_def)
next
  case (Cons ac dep)
  obtain a c where "ac = (a, c)" by (cases ac)
  then show ?case using Cons.IH
    by (auto simp: write_deployed_contracts_def res_bind_eq_Inr split: if_splits)
qed

lemma fold_res_map: "fold_res f (map g xs) t = fold_res (\<lambda>x. f (g x)) xs t"
proof (induction xs arbitrary: t)
  case (Cons x xs)
  show ?case by (cases "f (g x) t") (simp_all add: Cons.IH)
qed simp

lemma fold_res_concat:
  "fold_res (\<lambda>l. fold_res (f (fst l)) (snd l)) ls t =
     fold_res (\<lambda>x. f (fst x) (snd x)) (concat (map (\<lambda>l. map (Pair (fst l)) (snd l)) ls)) t"
proof (induction ls arbitrary: t)
  case (Cons l ls)
  have "fold_res (\<lambda>x. f (fst x) (snd x)) (map (Pair (fst l)) (snd l)) t = fold_res (f (fst l)) (snd l) t"
    by (simp add: fold_res_map)
  then show ?case by (cases "fold_res (f (fst l)) (snd l) t") (simp_all add: fold_res_append Cons.IH)
qed simp

lemma write_storage_diffs_eq:
  "write_storage_diffs (tsd_storage_diffs d) b t =
     fold_res (\<lambda>(k, v) t. db_res (tbl_append_greater_sub_key t (k, b) v)) (storage_entries d) t"
proof -
  have "storage_entries d =
      map (\<lambda>(a, k, v). ((a, k), v)) (concat (map (\<lambda>(a, es). map (Pair a) es) (tsd_storage_diffs d)))"
    by (simp add: storage_entries_def map_concat comp_def case_prod_unfold)
  then show ?thesis
    using fold_res_concat [where ls = "tsd_storage_diffs d"
        and f = "\<lambda>a p t. db_res (tbl_append_greater_sub_key t ((a, fst p), b) (snd p))"]
    by (simp add: write_storage_diffs_def fold_res_map case_prod_unfold)
qed

lemma diff_wf_storage_entries:
  assumes "diff_wf d"
  shows "distinct (map fst (storage_entries d))"
proof -
  have "distinct (map fst (concat (map (\<lambda>(a, es). map (\<lambda>(k, v). ((a, k), v)) es) ls)))"
    if "distinct (map fst ls)" "\<forall>(a, es) \<in> set ls. distinct (map fst es)"
    for ls :: "(contract_address \<times> (storage_key \<times> felt) list) list"
    using that
  proof (induction ls)
    case (Cons l ls)
    obtain a es where l: "l = (a, es)" by (cases l)
    let ?rest = "concat (map (\<lambda>(a, es). map (\<lambda>(k, v). ((a, k), v)) es) ls)"
    have "map fst (map (\<lambda>(k, v). ((a, k), v)) es) = map (Pair a) (map fst es)"
      by (simp add: case_prod_unfold)
    moreover have "distinct (map (Pair a) (map fst es))"
      using Cons.prems(2) by (simp add: l distinct_map inj_on_def)
    moreover have "distinct (map fst ?rest)" using Cons by (simp add: l)
    moreover have "(a, x) \<notin> set ls" for x
      using Cons.prems(1) image_eqI [of a fst "(a, x)" "set ls"] by (auto simp: l)
    ultimately show ?case by (auto simp: l simp del: map_map)
  qed simp
  then show ?thesis using assms by (simp add: storage_entries_def diff_wf_def)
qed

text \<open>The loop that moves the compiled class marker over blocks without classes.\<close>

lemma set_marker_twice [simp]: "set_marker (set_marker txn k a) k b = set_marker txn k b"
  by (simp add: set_marker_def tbl_upsert_def)

lemma get_state_diff_set_marker [simp]: "get_state_diff (set_marker txn k m) b = get_state_diff txn b"
  by (simp add: get_state_diff_def set_marker_def get_thin_state_diff_unchecked_def split: option.split)

lemma advance_loop_spec:
  assumes "\<And>b. b < sm \<Longrightarrow> get_state_diff txn b = Inr (Some (D b))" and "cm \<le> sm"
  shows "\<exists>cm'. cm \<le> cm' \<and> cm' \<le> sm \<and>
    advance_loop sm cm txn = Inr (if cm' = cm then txn else set_marker txn MkCompiledClass cm') \<and>
    (\<forall>b. cm \<le> b \<longrightarrow> b < cm' \<longrightarrow> tsd_declared_classes (D b) = []) \<and>
    (cm' < sm \<longrightarrow> tsd_declared_classes (D cm') \<noteq> [])"
  using assms
proof (induction "sm - cm" arbitrary: cm txn)
  case 0
  then show ?case by (intro exI [of _ cm]) (simp add: advance_loop.simps)
next
  case (Suc k)
  then have lt: "cm < sm" by simp
  from Suc.prems(1) [OF lt] obtain loc where loc: "tbl_get (tx_state_diffs txn) cm = Some loc"
    "get_thin_state_diff_unchecked txn loc = Inr (D cm)"
    by (auto simp: get_state_diff_def res_bind_eq_Inr split: option.splits)
  show ?case
  proof (cases "tsd_declared_classes (D cm) = []")
    case False
    then show ?thesis using lt loc by (intro exI [of _ cm]) (simp add: advance_loop.simps)
  next
    case True
    let ?u = "set_marker txn MkCompiledClass (Suc cm)"
    have "\<exists>cm'. Suc cm \<le> cm' \<and> cm' \<le> sm \<and>
      advance_loop sm (Suc cm) ?u = Inr (if cm' = Suc cm then ?u else set_marker ?u MkCompiledClass cm') \<and>
      (\<forall>b. Suc cm \<le> b \<longrightarrow> b < cm' \<longrightarrow> tsd_declared_classes (D b) = []) \<and>
      (cm' < sm \<longrightarrow> tsd_declared_classes (D cm') \<noteq> [])"
      by (rule Suc.hyps(1)) (use Suc.hyps(2) Suc.prems lt in simp_all)
    then obtain cm' where cm': "Suc cm \<le> cm'" "cm' \<le> sm"
      "advance_loop sm (Suc cm) ?u = Inr (if cm' = Suc cm then ?u else set_marker ?u MkCompiledClass cm')"
      "\<And>b. Suc cm \<le> b \<Longrightarrow> b < cm' \<Longrightarrow> tsd_declared_classes (D b) = []"
      "cm' < sm \<Longrightarrow> tsd_declared_classes (D cm') \<noteq> []" by blast
    have adv: "advance_loop sm (Suc cm) ?u = Inr (set_marker txn MkCompiledClass cm')"
      using cm'(3) by (cases "cm' = Suc cm") simp_all
    have "tsd_declared_classes (D b) = []" if "cm \<le> b" "b < cm'" for b
      using cm'(4) [of b] True that by (cases "b = cm") simp_all
    then show ?thesis using cm'(1,2,5) adv True lt loc
      by (intro exI [of _ cm']) (simp add: advance_loop.simps [of sm cm])
  qed
qed

text \<open>The transaction after all writes of an append, before the compiled class marker moves.\<close>

definition state_written ::
  "storage_txn \<Rightarrow> block_number \<Rightarrow> thin_state_diff file_handler \<Rightarrow> location_in_file \<Rightarrow>
   (contract_address \<times> block_number, class_hash) table \<Rightarrow> (contract_address \<times> block_number, nonce) table \<Rightarrow>
   ((contract_address \<times> storage_key) \<times> block_number, felt) table \<Rightarrow> (class_hash, block_number) table \<Rightarrow>
   storage_txn" where
  "state_written txn b f loc deployed nonces storage dcb =
     set_marker (set_file_offset (txn\<lparr>tx_deployed_contracts := deployed, tx_nonces := nonces,
       tx_contract_storage := storage, tx_declared_classes_block := dcb,
       tx_file_handlers := (tx_file_handlers txn)\<lparr>fs_thin_state_diff := f\<rparr>,
       tx_state_diffs := fmupd b loc (tx_state_diffs txn)\<rparr>) OkThinStateDiff loc) MkState (Suc b)"

lemma state_written_simps [simp]:
  "tx_deployed_contracts (state_written txn b f loc deployed nonces storage dcb) = deployed"
  "tx_nonces (state_written txn b f loc deployed nonces storage dcb) = nonces"
  "tx_contract_storage (state_written txn b f loc deployed nonces storage dcb) = storage"
  "tx_declared_classes_block (state_written txn b f loc deployed nonces storage dcb) = dcb"
  "fs_thin_state_diff (tx_file_handlers (state_written txn b f loc deployed nonces storage dcb)) = f"
  "tx_state_diffs (state_written txn b f loc deployed nonces storage dcb) = fmupd b loc (tx_state_diffs txn)"
  "tx_casms (state_written txn b f loc deployed nonces storage dcb) = tx_casms txn"
  by (simp_all add: state_written_def set_marker_def set_file_offset_def)

lemma state_written_marker [simp]:
  "get_marker (state_written txn b f loc deployed nonces storage dcb) k =
     (if k = MkState then Suc b else get_marker txn k)"
  by (simp add: state_written_def) (simp add: get_marker_def set_file_offset_def)

lemma append_state_diff_eq_Inr:
  assumes "file_append (sz_thin_state_diff sz) (fs_thin_state_diff (tx_file_handlers txn)) d = (f, loc)"
  shows "append_state_diff sz txn b d = Inr txn' \<longleftrightarrow>
    (\<exists>t1 t2 t3 t4 t5.
      write_deployed_contracts (tsd_deployed_contracts d) b (tsd_nonces d)
        (tx_deployed_contracts txn, tx_nonces txn) = Inr (t1, t2) \<and>
      write_storage_diffs (tsd_storage_diffs d) b (tx_contract_storage txn) = Inr t3 \<and>
      write_replaced_classes (tsd_replaced_classes d) b t1 = Inr t4 \<and>
      fold_res (\<lambda>(class_hash, _) t. db_res (tbl_insert ''declared_classes_block'' t class_hash b))
        (tsd_declared_classes d) (tx_declared_classes_block txn) = Inr t5 \<and>
      (\<forall>k. k |\<in>| fmdom (tx_state_diffs txn) \<longrightarrow> k \<le> b) \<and> get_marker txn MkState = b \<and>
      advance_compiled_class_marker_over_blocks_without_classes
        (state_written txn b f loc t4 (write_nonces (tsd_nonces d) b t2) t3 t5) = Inr txn')"
proof -
  have marker: "get_marker (set_file_offset (u\<lparr>tx_deployed_contracts := a1, tx_nonces := a2,
      tx_contract_storage := a3, tx_declared_classes_block := a4, tx_file_handlers := a5,
      tx_state_diffs := a6\<rparr>) k l) m = get_marker u m" for u a1 a2 a3 a4 a5 a6 k l m
    by (simp add: get_marker_def set_file_offset_def)
  show ?thesis
    unfolding append_state_diff_def append_thin_state_diff_def Let_def res_bind_eq_Inr
      update_marker_to_next_block_def
    by (simp add: assms res_bind_eq_Inr db_res_eq_Inr tbl_append_eq_Inr marker state_written_def
        split_paired_Ex if_distrib [of "\<lambda>r. r = Inr _"] cong: if_cong) blast
qed

lemma versioned_next:
  assumes "versioned t g ds"
  shows "fmlookup t (x, length ds) = None" and "(x, b) |\<in>| fmdom t \<Longrightarrow> b < length ds"
  using assms by (auto simp: versioned_def fmlookup_dom_iff split: if_splits)

lemma map_of_default_nonces:
  "map_of (map (\<lambda>(a, c). (a, 0)) (filter (\<lambda>(a, c). map_of nd a = None) dep)) a =
     (if map_of nd a = None \<and> map_of dep a \<noteq> None then Some 0 else None)"
  by (induction dep) auto

lemma fmlookup_default_nonces:
  "fmlookup (t ++\<^sub>f fmap_of_list (map (\<lambda>(k, v). ((k, b), v))
     (map (\<lambda>(a, c). (a, 0)) (filter (\<lambda>(a, c). map_of nd a = None) dep)))) (a, b') =
   (if b' = b \<and> map_of nd a = None \<and> map_of dep a \<noteq> None then Some 0 else fmlookup t (a, b'))"
  unfolding fmlookup_add_keyed map_of_default_nonces by auto

lemma map_of_const: "map_of (map (\<lambda>(k, v). (k, b)) l) c = (if c \<in> fst ` set l then Some b else None)"
  by (induction l) auto

lemma default_nonces_keys:
  "map fst (map (\<lambda>(a, c). (a, 0)) (filter (\<lambda>(a, c). P a) dep)) = filter P (map fst dep)"
  by (induction dep) auto

definition diff_new :: "thin_state_diff list \<Rightarrow> thin_state_diff \<Rightarrow> bool" where
  "diff_new ds d \<longleftrightarrow>
     set (map fst (tsd_deployed_contracts d)) \<inter> set (map fst (tsd_replaced_classes d)) = {} \<and>
     (\<forall>d' \<in> set ds. set (map fst (tsd_declared_classes d)) \<inter> set (map fst (tsd_declared_classes d')) = {})"

lemma state_rel_declared:
  assumes "state_rel txn ds"
  shows "fmlookup (tx_declared_classes_block txn) c = None \<longleftrightarrow>
    (\<forall>d \<in> set ds. c \<notin> set (map fst (tsd_declared_classes d)))"
proof -
  have "(\<exists>b. fmlookup (tx_declared_classes_block txn) c = Some b) \<longleftrightarrow>
      (\<exists>d \<in> set ds. c \<in> set (map fst (tsd_declared_classes d)))"
    unfolding state_relD(7) [OF assms] by (auto simp: in_set_conv_nth simp del: set_map) (force simp: image_iff)+
  then show ?thesis by (metis not_None_eq)
qed

lemma write_deployed_contracts_rel:
  assumes rel: "state_rel txn ds" and wf: "diff_wf d" and b: "b = length ds"
  shows "write_deployed_contracts (tsd_deployed_contracts d) b (tsd_nonces d)
      (tx_deployed_contracts txn, tx_nonces txn) =
    Inr (tx_deployed_contracts txn ++\<^sub>f fmap_of_list (map (\<lambda>(k, v). ((k, b), v)) (tsd_deployed_contracts d)),
      tx_nonces txn ++\<^sub>f fmap_of_list (map (\<lambda>(k, v). ((k, b), v))
        (map (\<lambda>(a, c). (a, 0)) (filter (\<lambda>(a, c). map_of (tsd_nonces d) a = None) (tsd_deployed_contracts d)))))"
  unfolding write_deployed_contracts_eq_Inr fold_append_greater
    fold_insert [where f = "\<lambda>k. (k, b)" and g = "\<lambda>v. v"] default_nonces_keys
  using wf versioned_next(1) [OF state_relD(5) [OF rel]] versioned_next(2) [OF state_relD(4) [OF rel]]
  by (auto simp: diff_wf_def b distinct_map inj_on_def)

text \<open>Each of the four writes, on a storage that holds \<open>ds\<close>.\<close>

lemma written_storage:
  assumes "state_rel txn ds" and "b = length ds"
    and "write_storage_diffs (tsd_storage_diffs d) b (tx_contract_storage txn) = Inr t3"
  shows "versioned t3 diff_storage (ds @ [d])"
proof (rule versioned_append [OF state_relD(3) [OF assms(1)]])
  fix k b'
  have "fmlookup t3 (k, b') = (if b' = b \<and> diff_storage d k \<noteq> None then diff_storage d k
      else fmlookup (tx_contract_storage txn) (k, b'))"
    using assms(3) unfolding write_storage_diffs_eq fold_append_greater
    by (simp only: fmlookup_add_keyed diff_storage_def)
  then show "fmlookup t3 (k, b') =
      (if b' = length ds then diff_storage d k else fmlookup (tx_contract_storage txn) (k, b'))"
    using versioned_next(1) [OF state_relD(3) [OF assms(1)], of k] assms(2) by auto
qed

lemma written_nonces:
  assumes rel: "state_rel txn ds" and wf: "diff_wf d" and b: "b = length ds"
    and deployed: "write_deployed_contracts (tsd_deployed_contracts d) b (tsd_nonces d)
      (tx_deployed_contracts txn, tx_nonces txn) = Inr (t1, t2)"
  shows "versioned (write_nonces (tsd_nonces d) b t2) diff_nonce (ds @ [d])"
proof (rule versioned_append [OF state_relD(4) [OF rel]])
  fix a b'
  have t2: "fmlookup t2 (a, b') = (if b' = b \<and> map_of (tsd_nonces d) a = None \<and>
      map_of (tsd_deployed_contracts d) a \<noteq> None then Some 0 else fmlookup (tx_nonces txn) (a, b'))" for a b'
    using deployed [unfolded write_deployed_contracts_rel [OF rel wf b]]
    by (auto simp only: fmlookup_default_nonces sum.inject prod.inject)
  have "distinct (map fst (tsd_nonces d))" using wf by (simp add: diff_wf_def)
  from fold_upsert [OF this, of b t2]
  show "fmlookup (write_nonces (tsd_nonces d) b t2) (a, b') =
      (if b' = length ds then diff_nonce d a else fmlookup (tx_nonces txn) (a, b'))"
    unfolding write_nonces_def using versioned_next(1) [OF state_relD(4) [OF rel], of a]
    by (simp only: fmlookup_add_keyed t2) (auto simp: diff_nonce_def b split: option.split)
qed

lemma written_classes:
  assumes rel: "state_rel txn ds" and wf: "diff_wf d" and b: "b = length ds"
    and deployed: "write_deployed_contracts (tsd_deployed_contracts d) b (tsd_nonces d)
      (tx_deployed_contracts txn, tx_nonces txn) = Inr (t1, t2)"
    and replaced: "write_replaced_classes (tsd_replaced_classes d) b t1 = Inr t4"
  shows "versioned t4 diff_class (ds @ [d])"
    and "a \<in> fst ` set (tsd_replaced_classes d) \<Longrightarrow> a \<notin> fst ` set (tsd_deployed_contracts d)"
proof -
  have t1: "fmlookup t1 (a, b') = (if b' = b \<and> map_of (tsd_deployed_contracts d) a \<noteq> None
      then map_of (tsd_deployed_contracts d) a else fmlookup (tx_deployed_contracts txn) (a, b'))" for a b'
    using deployed [unfolded write_deployed_contracts_rel [OF rel wf b]]
    by (auto simp only: fmlookup_add_keyed sum.inject prod.inject)
  have t4: "t4 = t1 ++\<^sub>f fmap_of_list (map (\<lambda>(k, v). ((k, b), v)) (tsd_replaced_classes d))"
    "\<forall>k \<in> fst ` set (tsd_replaced_classes d). fmlookup t1 (k, b) = None"
    using replaced unfolding write_replaced_classes_def fold_insert [where f = "\<lambda>k. (k, b)" and g = "\<lambda>v. v"]
    by simp_all
  have fresh: "map_of (tsd_deployed_contracts d) a = None" if "a \<in> fst ` set (tsd_replaced_classes d)" for a
    using bspec [OF t4(2) that] t1 [of a b] by (auto split: if_splits)
  then show "a \<in> fst ` set (tsd_replaced_classes d) \<Longrightarrow> a \<notin> fst ` set (tsd_deployed_contracts d)"
    by (simp add: map_of_eq_None_iff)
  show "versioned t4 diff_class (ds @ [d])"
  proof (rule versioned_append [OF state_relD(5) [OF rel]])
    fix a b'
    have "map_of (tsd_replaced_classes d) a = None \<or> map_of (tsd_deployed_contracts d) a = None"
      using fresh [of a] by (auto simp: map_of_eq_None_iff)
    then show "fmlookup t4 (a, b') =
        (if b' = length ds then diff_class d a else fmlookup (tx_deployed_contracts txn) (a, b'))"
      using versioned_next(1) [OF state_relD(5) [OF rel], of a] unfolding t4(1) fmlookup_add_keyed
      by (auto simp: t1 b diff_class_def split: option.split)
  qed
qed

lemma written_declared:
  assumes rel: "state_rel txn ds" and b: "b = length ds"
    and declared: "fold_res (\<lambda>(class_hash, _) t.
      db_res (tbl_insert ''declared_classes_block'' t class_hash b)) (tsd_declared_classes d)
      (tx_declared_classes_block txn) = Inr t5"
  shows "fmlookup t5 c = Some b' \<longleftrightarrow>
      b' < length (ds @ [d]) \<and> c \<in> fst ` set (tsd_declared_classes ((ds @ [d]) ! b'))"
    and "c \<in> fst ` set (tsd_declared_classes d) \<Longrightarrow> fmlookup (tx_declared_classes_block txn) c = None"
proof -
  have t5: "t5 = tx_declared_classes_block txn ++\<^sub>f fmap_of_list (map (\<lambda>(k, v). (k, b)) (tsd_declared_classes d))"
    "\<forall>k \<in> fst ` set (tsd_declared_classes d). fmlookup (tx_declared_classes_block txn) k = None"
    using declared unfolding fold_insert [where f = "\<lambda>k. k" and g = "\<lambda>_. b"] by simp_all
  show none: "fmlookup (tx_declared_classes_block txn) c = None" if "c \<in> fst ` set (tsd_declared_classes d)" for c
    by (rule bspec [OF t5(2) that])
  show "fmlookup t5 c = Some b' \<longleftrightarrow>
      b' < length (ds @ [d]) \<and> c \<in> fst ` set (tsd_declared_classes ((ds @ [d]) ! b'))"
    using state_relD(7) [OF rel, of c b'] none [of c] state_relD(7) [OF rel, of c b]
    unfolding t5(1) fmlookup_add_list map_of_const
    by (cases "b' < b"; cases "b' = b"; cases "c \<in> fst ` set (tsd_declared_classes d)")
      (simp_all add: b nth_append)
qed

lemma append_state_diff_writes:
  assumes rel: "state_rel txn ds" and wf: "diff_wf d" and b: "b = length ds" and sz: "sizes_positive sz"
    and app: "file_append (sz_thin_state_diff sz) (fs_thin_state_diff (tx_file_handlers txn)) d = (f, loc)"
    and deployed: "write_deployed_contracts (tsd_deployed_contracts d) b (tsd_nonces d)
      (tx_deployed_contracts txn, tx_nonces txn) = Inr (t1, t2)"
    and storage: "write_storage_diffs (tsd_storage_diffs d) b (tx_contract_storage txn) = Inr t3"
    and replaced: "write_replaced_classes (tsd_replaced_classes d) b t1 = Inr t4"
    and declared: "fold_res (\<lambda>(class_hash, _) t.
      db_res (tbl_insert ''declared_classes_block'' t class_hash b)) (tsd_declared_classes d)
      (tx_declared_classes_block txn) = Inr t5"
  shows "diff_new ds d \<and>
    state_rel (state_written txn b f loc t4 (write_nonces (tsd_nonces d) b t2) t3 t5) (ds @ [d])"
proof
  note D = state_relD [OF rel]
  have "c \<notin> fst ` set (tsd_declared_classes d')"
    if "c \<in> fst ` set (tsd_declared_classes d)" "d' \<in> set ds" for c d'
    using written_declared(2) [OF rel b declared that(1)] that(2) by (simp add: state_rel_declared [OF rel])
  then show "diff_new ds d"
    unfolding diff_new_def set_map using written_classes(2) [OF rel wf b deployed replaced] by blast
  show "state_rel (state_written txn b f loc t4 (write_nonces (tsd_nonces d) b t2) t3 t5) (ds @ [d])"
  proof (rule state_relI; (simp only: state_written_simps)?)
    show "versioned (write_nonces (tsd_nonces d) b t2) diff_nonce (ds @ [d])"
      by (rule written_nonces [OF rel wf b deployed])
    show "file_wf f"
      by (rule file_append_wf [OF D(8) _ app]) (use sz in \<open>simp add: sizes_positive_def\<close>)
    show "rel_option (\<lambda>loc d. file_get f loc = Some d) (fmlookup (fmupd b loc (tx_state_diffs txn)) b')
        (if b' < length (ds @ [d]) then Some ((ds @ [d]) ! b') else None)" for b'
      using D(6) [of b'] file_append_get [OF app] file_append_keeps [OF app D(8)]
      by (cases "b' = b") (auto simp: b nth_append elim!: option.rel_mono_strong split: if_splits)
  qed (use D(1,2) b in \<open>simp_all add: written_storage [OF rel b storage]
      written_classes(1) [OF rel wf b deployed replaced] written_declared(1) [OF rel b declared]\<close>)
qed

lemma state_rel_set_compiled:
  assumes "state_rel txn ds" and "m \<le> length ds"
  shows "state_rel (set_marker txn MkCompiledClass m) ds"
  using assms unfolding state_rel_def by simp

lemma advance_rel:
  assumes "state_rel txn ds"
  shows "\<exists>m txn'. get_marker txn MkCompiledClass \<le> m \<and> m \<le> length ds \<and>
    advance_compiled_class_marker_over_blocks_without_classes txn = Inr txn' \<and>
    get_marker txn' MkCompiledClass = m \<and> state_rel txn' ds \<and> tx_casms txn' = tx_casms txn \<and>
    (\<forall>b. get_marker txn MkCompiledClass \<le> b \<longrightarrow> b < m \<longrightarrow> tsd_declared_classes (ds ! b) = []) \<and>
    (m < length ds \<longrightarrow> tsd_declared_classes (ds ! m) \<noteq> [])"
proof -
  note D = state_relD [OF assms]
  have diffs: "get_state_diff txn b = Inr (Some (ds ! b))" if "b < length ds" for b
    using state_rel_diff [OF assms, of b] that by simp
  from advance_loop_spec [of "length ds" txn "nth ds", OF diffs D(2)] obtain m
    where m: "get_marker txn MkCompiledClass \<le> m" "m \<le> length ds"
      "advance_loop (length ds) (get_marker txn MkCompiledClass) txn =
        Inr (if m = get_marker txn MkCompiledClass then txn else set_marker txn MkCompiledClass m)"
      "\<forall>b. get_marker txn MkCompiledClass \<le> b \<longrightarrow> b < m \<longrightarrow> tsd_declared_classes (ds ! b) = []"
      "m < length ds \<longrightarrow> tsd_declared_classes (ds ! m) \<noteq> []" by blast
  show ?thesis
    using m assms state_rel_set_compiled [OF assms m(2)] D(1)
    by (intro exI [of _ m]
        exI [of _ "if m = get_marker txn MkCompiledClass then txn else set_marker txn MkCompiledClass m"])
      (simp add: advance_compiled_class_marker_over_blocks_without_classes_def)
qed

lemma append_state_diff_rel:
  assumes append: "append_state_diff sz txn b d = Inr txn'" and rel: "state_rel txn ds"
    and wf: "diff_wf d" and sz: "sizes_positive sz"
  shows "b = length ds \<and> diff_new ds d \<and> state_rel txn' (ds @ [d]) \<and> tx_casms txn' = tx_casms txn \<and>
    get_marker txn MkCompiledClass \<le> get_marker txn' MkCompiledClass \<and>
    (\<forall>b. get_marker txn MkCompiledClass \<le> b \<longrightarrow> b < get_marker txn' MkCompiledClass \<longrightarrow>
      tsd_declared_classes ((ds @ [d]) ! b) = []) \<and>
    (get_marker txn' MkCompiledClass < length (ds @ [d]) \<longrightarrow>
      tsd_declared_classes ((ds @ [d]) ! get_marker txn' MkCompiledClass) \<noteq> [])"
proof -
  obtain f loc where app: "file_append (sz_thin_state_diff sz) (fs_thin_state_diff (tx_file_handlers txn)) d = (f, loc)"
    by fastforce
  from append [unfolded append_state_diff_eq_Inr [OF app]] obtain t1 t2 t3 t4 t5
    where w: "write_deployed_contracts (tsd_deployed_contracts d) b (tsd_nonces d)
        (tx_deployed_contracts txn, tx_nonces txn) = Inr (t1, t2)"
      "write_storage_diffs (tsd_storage_diffs d) b (tx_contract_storage txn) = Inr t3"
      "write_replaced_classes (tsd_replaced_classes d) b t1 = Inr t4"
      "fold_res (\<lambda>(class_hash, _) t. db_res (tbl_insert ''declared_classes_block'' t class_hash b))
        (tsd_declared_classes d) (tx_declared_classes_block txn) = Inr t5"
      and m: "get_marker txn MkState = b"
      and adv: "advance_compiled_class_marker_over_blocks_without_classes
        (state_written txn b f loc t4 (write_nonces (tsd_nonces d) b t2) t3 t5) = Inr txn'" by blast
  have b: "b = length ds" using m state_relD(1) [OF rel] by simp
  from append_state_diff_writes [OF rel wf b sz app w] have new: "diff_new ds d"
    and written: "state_rel (state_written txn b f loc t4 (write_nonces (tsd_nonces d) b t2) t3 t5) (ds @ [d])"
    by blast+
  from advance_rel [OF written] adv show ?thesis using b new by auto
qed

lemma append_state_diff_ok:
  assumes rel: "state_rel txn ds" and wf: "diff_wf d" and sz: "sizes_positive sz" and new: "diff_new ds d"
  shows "\<exists>txn'. append_state_diff sz txn (length ds) d = Inr txn'"
proof -
  let ?b = "length ds"
  note D = state_relD [OF rel]
  obtain f loc where app: "file_append (sz_thin_state_diff sz) (fs_thin_state_diff (tx_file_handlers txn)) d = (f, loc)"
    by fastforce
  note w1 = write_deployed_contracts_rel [OF rel wf refl]
  define t1 where "t1 = tx_deployed_contracts txn ++\<^sub>f
    fmap_of_list (map (\<lambda>(k, v). ((k, ?b), v)) (tsd_deployed_contracts d))"
  have "\<exists>t3. write_storage_diffs (tsd_storage_diffs d) ?b (tx_contract_storage txn) = Inr t3"
    unfolding write_storage_diffs_eq fold_append_greater
    using diff_wf_storage_entries [OF wf] versioned_next(2) [OF D(3)] by blast
  then obtain t3 where w3: "write_storage_diffs (tsd_storage_diffs d) ?b (tx_contract_storage txn) = Inr t3" ..
  have "fmlookup t1 (k, ?b) = None" if "k \<in> fst ` set (tsd_replaced_classes d)" for k
  proof -
    have "map_of (tsd_deployed_contracts d) k = None"
      using that new unfolding map_of_eq_None_iff diff_new_def by auto
    then show ?thesis using versioned_next(1) [OF D(5)] unfolding t1_def fmlookup_add_keyed by simp
  qed
  moreover have "distinct (map ((\<lambda>k. (k, ?b)) \<circ> fst) (tsd_replaced_classes d))"
    using wf by (auto simp: diff_wf_def distinct_map inj_on_def)
  ultimately have "\<exists>t4. write_replaced_classes (tsd_replaced_classes d) ?b t1 = Inr t4"
    unfolding write_replaced_classes_def fold_insert [where f = "\<lambda>k. (k, ?b)" and g = "\<lambda>v. v"] by simp
  then obtain t4 where w4: "write_replaced_classes (tsd_replaced_classes d) ?b t1 = Inr t4" ..
  have "fmlookup (tx_declared_classes_block txn) k = None" if "k \<in> fst ` set (tsd_declared_classes d)" for k
    unfolding state_rel_declared [OF rel] set_map using that new unfolding diff_new_def set_map by blast
  moreover have "distinct (map ((\<lambda>k. k) \<circ> fst) (tsd_declared_classes d))"
    using wf by (simp add: diff_wf_def comp_def)
  ultimately have "\<exists>t5. fold_res (\<lambda>(class_hash, _) t. db_res (tbl_insert ''declared_classes_block'' t class_hash ?b))
      (tsd_declared_classes d) (tx_declared_classes_block txn) = Inr t5"
    unfolding fold_insert [where f = "\<lambda>k. k" and g = "\<lambda>_. ?b"] by simp
  then obtain t5 where w5: "fold_res (\<lambda>(class_hash, _) t.
      db_res (tbl_insert ''declared_classes_block'' t class_hash ?b))
      (tsd_declared_classes d) (tx_declared_classes_block txn) = Inr t5" ..
  have keys: "k \<le> ?b" if "k |\<in>| fmdom (tx_state_diffs txn)" for k
    using that D(6) [of k] by (auto simp: fmlookup_dom_iff split: if_splits)
  from append_state_diff_writes [OF rel wf refl sz app w1 w3 w4 [unfolded t1_def] w5] advance_rel
  show ?thesis
    unfolding append_state_diff_eq_Inr [OF app] using w1 w3 w4 [unfolded t1_def] w5 keys D(1) by blast
qed

section \<open>Reverting\<close>

text \<open>Every class that a table points to can be read from its file.\<close>

definition classes_readable :: "storage_txn \<Rightarrow> bool" where
  "classes_readable txn \<longleftrightarrow>
     (\<forall>c loc. fmlookup (tx_declared_classes txn) c = Some loc \<longrightarrow>
        file_get (fs_contract_class (tx_file_handlers txn)) loc \<noteq> None) \<and>
     (\<forall>c v. fmlookup (tx_deprecated_declared_classes txn) c = Some v \<longrightarrow>
        file_get (fs_deprecated_contract_class (tx_file_handlers txn)) (idc_location_in_file v) \<noteq> None) \<and>
     (\<forall>c loc. fmlookup (tx_casms txn) c = Some loc \<longrightarrow>
        file_get (fs_casm (tx_file_handlers txn)) loc \<noteq> None)"

lemma delete_declared_fold:
  assumes "classes_readable txn"
  shows "\<exists>del'. fold_res delete_declared_class cs (txn, del) = Inr (txn\<lparr>
    tx_declared_classes := fmfilter (\<lambda>c. c \<notin> set cs) (tx_declared_classes txn),
    tx_declared_classes_block := fmfilter (\<lambda>c. \<not> (c \<in> set cs \<and>
      fmlookup (tx_declared_classes txn) c \<noteq> None)) (tx_declared_classes_block txn)\<rparr>, del')"
  using assms
proof (induction cs arbitrary: txn del)
  case Nil
  have "fmfilter (\<lambda>c. True) t = t" for t :: "('a, 'b) table" by simp
  then show ?case by simp
next
  case (Cons c cs)
  show ?case
  proof (cases "fmlookup (tx_declared_classes txn) c")
    case None
    have same: "fmfilter (\<lambda>x. x \<notin> set (c # cs)) (tx_declared_classes txn) =
        fmfilter (\<lambda>x. x \<notin> set cs) (tx_declared_classes txn)"
      "fmfilter (\<lambda>x. \<not> (x \<in> set (c # cs) \<and> fmlookup (tx_declared_classes txn) x \<noteq> None))
          (tx_declared_classes_block txn) =
        fmfilter (\<lambda>x. \<not> (x \<in> set cs \<and> fmlookup (tx_declared_classes txn) x \<noteq> None))
          (tx_declared_classes_block txn)"
      using None by (auto intro!: fmap_ext)
    from Cons.IH [OF Cons.prems, of del] None show ?thesis
      unfolding same by (simp add: delete_declared_class_def tbl_get_def)
  next
    case (Some loc)
    then obtain v where v: "get_contract_class_unchecked txn loc = Inr v"
      using Cons.prems by (fastforce simp: classes_readable_def get_contract_class_unchecked_def
          file_get_unchecked_def)
    define u where "u = txn\<lparr>tx_declared_classes := fmdrop c (tx_declared_classes txn),
      tx_declared_classes_block := fmdrop c (tx_declared_classes_block txn)\<rparr>"
    have "classes_readable u"
      using Cons.prems by (auto simp: classes_readable_def u_def)
    from Cons.IH [OF this, of "del @ [(c, v)]"] obtain del' where IH:
      "fold_res delete_declared_class cs (u, del @ [(c, v)]) = Inr (u\<lparr>
        tx_declared_classes := fmfilter (\<lambda>x. x \<notin> set cs) (tx_declared_classes u),
        tx_declared_classes_block := fmfilter (\<lambda>x. \<not> (x \<in> set cs \<and>
          fmlookup (tx_declared_classes u) x \<noteq> None)) (tx_declared_classes_block u)\<rparr>, del')" by blast
    have same: "fmfilter (\<lambda>x. x \<notin> set cs) (tx_declared_classes u) =
        fmfilter (\<lambda>x. x \<notin> set (c # cs)) (tx_declared_classes txn)"
      "fmfilter (\<lambda>x. \<not> (x \<in> set cs \<and> fmlookup (tx_declared_classes u) x \<noteq> None))
          (tx_declared_classes_block u) =
        fmfilter (\<lambda>x. \<not> (x \<in> set (c # cs) \<and> fmlookup (tx_declared_classes txn) x \<noteq> None))
          (tx_declared_classes_block txn)"
      using Some by (auto simp: u_def intro!: fmap_ext)
    have "delete_declared_class c (txn, del) = Inr (u, del @ [(c, v)])"
      using Some v by (simp add: delete_declared_class_def tbl_get_def tbl_delete_def u_def)
    then show ?thesis using IH unfolding same by (simp add: u_def)
  qed
qed

lemma delete_declared_classes_spec:
  assumes "classes_readable txn"
  shows "\<exists>del. delete_declared_classes d txn = Inr (txn\<lparr>
      tx_declared_classes := fmfilter (\<lambda>c. c \<notin> fst ` set (tsd_declared_classes d)) (tx_declared_classes txn),
      tx_declared_classes_block := fmfilter (\<lambda>c. \<not> (c \<in> fst ` set (tsd_declared_classes d) \<and>
        fmlookup (tx_declared_classes txn) c \<noteq> None)) (tx_declared_classes_block txn)\<rparr>, del)"
  using delete_declared_fold [OF assms, of "map fst (tsd_declared_classes d)" "[]"]
  by (simp add: delete_declared_classes_def)

lemma delete_deprecated_fold:
  assumes "classes_readable txn"
  shows "\<exists>t del'. fold_res (delete_deprecated_declared_class b) cs (txn, del) =
      Inr (txn\<lparr>tx_deprecated_declared_classes := t\<rparr>, del') \<and>
    classes_readable (txn\<lparr>tx_deprecated_declared_classes := t\<rparr>)"
  using assms
proof (induction cs arbitrary: txn del)
  case Nil
  then show ?case by (intro exI [of _ "tx_deprecated_declared_classes txn"]) simp
next
  case (Cons c cs)
  show ?case
  proof (cases "fmlookup (tx_deprecated_declared_classes txn) c")
    case None
    then show ?thesis using Cons.IH [OF Cons.prems, of del]
      by (simp add: delete_deprecated_declared_class_def tbl_get_def)
  next
    case (Some v)
    then obtain x where x: "get_deprecated_contract_class_unchecked txn (idc_location_in_file v) = Inr x"
      using Cons.prems by (fastforce simp: classes_readable_def get_deprecated_contract_class_unchecked_def
          file_get_unchecked_def)
    define u where "u = txn\<lparr>tx_deprecated_declared_classes := fmdrop c (tx_deprecated_declared_classes txn)\<rparr>"
    have "classes_readable u" using Cons.prems by (auto simp: classes_readable_def u_def)
    from Cons.IH [OF this, of "del @ [(c, x)]"] Cons.IH [OF Cons.prems, of del] Some x show ?thesis
      by (simp add: delete_deprecated_declared_class_def tbl_get_def tbl_delete_def u_def)
  qed
qed

text \<open>The loop over the compiled classes stops at the first that is missing.\<close>

definition casms_deleted :: "class_hash list \<Rightarrow> (class_hash, location_in_file) table \<Rightarrow>
  (class_hash, location_in_file) table" where
  "casms_deleted cs t = fmfilter (\<lambda>c. c \<notin> set (takeWhile (\<lambda>c. fmlookup t c \<noteq> None) cs)) t"

lemma casms_deleted_Cons:
  assumes "c \<notin> set cs" and "fmlookup t c \<noteq> None"
  shows "casms_deleted (c # cs) t = casms_deleted cs (fmdrop c t)"
proof -
  have "takeWhile (\<lambda>x. fmlookup (fmdrop c t) x \<noteq> None) cs = takeWhile (\<lambda>x. fmlookup t x \<noteq> None) cs"
    using assms(1) by (intro takeWhile_cong) auto
  then show ?thesis using assms(2) unfolding casms_deleted_def by (intro fmap_ext) simp
qed

lemma delete_compiled_loop_spec:
  assumes "classes_readable txn" and "distinct cs"
  shows "\<exists>del'. delete_compiled_classes_loop cs txn del = Inr (txn\<lparr>tx_casms := casms_deleted cs (tx_casms txn)\<rparr>, del')"
  using assms
proof (induction cs arbitrary: txn del)
  case Nil
  have "casms_deleted [] t = t" for t by (rule fmap_ext) (simp add: casms_deleted_def)
  then show ?case by simp
next
  case (Cons c cs)
  show ?case
  proof (cases "fmlookup (tx_casms txn) c")
    case None
    then have "casms_deleted (c # cs) (tx_casms txn) = tx_casms txn"
      by (intro fmap_ext) (simp add: casms_deleted_def)
    then show ?thesis using None by (simp add: tbl_get_def)
  next
    case (Some loc)
    define u where "u = txn\<lparr>tx_casms := fmdrop c (tx_casms txn)\<rparr>"
    obtain x where x: "get_casm_unchecked u loc = Inr x"
      using Cons.prems Some by (fastforce simp: classes_readable_def get_casm_unchecked_def
          file_get_unchecked_def u_def)
    have "classes_readable u" using Cons.prems by (auto simp: classes_readable_def u_def)
    from Cons.IH [OF this, of "del @ [(c, x)]"] Some x Cons.prems(2) show ?thesis
      by (simp add: tbl_get_def tbl_delete_def u_def casms_deleted_Cons)
  qed
qed

lemma delete_deployed_contracts_eq:
  "delete_deployed_contracts b d txn = txn\<lparr>
     tx_deployed_contracts := fmfilter (\<lambda>k. k \<notin> (\<lambda>a. (a, b)) ` set (map fst (tsd_deployed_contracts d)))
       (tx_deployed_contracts txn),
     tx_nonces := fmfilter (\<lambda>k. k \<notin> (\<lambda>a. (a, b)) ` set (map fst (tsd_deployed_contracts d))) (tx_nonces txn)\<rparr>"
proof -
  have "fold (\<lambda>a txn. txn\<lparr>tx_deployed_contracts := tbl_delete (tx_deployed_contracts txn) (a, b),
      tx_nonces := tbl_delete (tx_nonces txn) (a, b)\<rparr>) as txn =
    txn\<lparr>tx_deployed_contracts := fold (\<lambda>a t. tbl_delete t (a, b)) as (tx_deployed_contracts txn),
      tx_nonces := fold (\<lambda>a t. tbl_delete t (a, b)) as (tx_nonces txn)\<rparr>" for as txn
    by (induction as arbitrary: txn) simp_all
  then show ?thesis
    unfolding delete_deployed_contracts_def fold_tbl_delete [where f = "\<lambda>a. (a, b)"] by blast
qed

lemma delete_nonces_eq:
  "delete_nonces b d txn = txn\<lparr>tx_nonces :=
     fmfilter (\<lambda>k. k \<notin> (\<lambda>a. (a, b)) ` set (map fst (tsd_nonces d))) (tx_nonces txn)\<rparr>"
proof -
  have "fold (\<lambda>a txn. txn\<lparr>tx_nonces := tbl_delete (tx_nonces txn) (a, b)\<rparr>) as txn =
    txn\<lparr>tx_nonces := fold (\<lambda>a t. tbl_delete t (a, b)) as (tx_nonces txn)\<rparr>" for as txn
    by (induction as arbitrary: txn) simp_all
  then show ?thesis unfolding delete_nonces_def fold_tbl_delete [where f = "\<lambda>a. (a, b)"] by blast
qed

lemma delete_replaced_classes_eq:
  "delete_replaced_classes b d txn = txn\<lparr>tx_deployed_contracts :=
     fmfilter (\<lambda>k. k \<notin> (\<lambda>a. (a, b)) ` set (map fst (tsd_replaced_classes d))) (tx_deployed_contracts txn)\<rparr>"
proof -
  have "fold (\<lambda>a txn. txn\<lparr>tx_deployed_contracts := tbl_delete (tx_deployed_contracts txn) (a, b)\<rparr>) as txn =
    txn\<lparr>tx_deployed_contracts := fold (\<lambda>a t. tbl_delete t (a, b)) as (tx_deployed_contracts txn)\<rparr>" for as txn
    by (induction as arbitrary: txn) simp_all
  then show ?thesis unfolding delete_replaced_classes_def fold_tbl_delete [where f = "\<lambda>a. (a, b)"] by blast
qed

lemma delete_storage_diffs_eq:
  "delete_storage_diffs b d txn = txn\<lparr>tx_contract_storage :=
     fmfilter (\<lambda>k. k \<notin> (\<lambda>a. (a, b)) ` set (map fst (storage_entries d))) (tx_contract_storage txn)\<rparr>"
proof -
  have inner: "fold (\<lambda>(k, _) txn.
      txn\<lparr>tx_contract_storage := tbl_delete (tx_contract_storage txn) ((a, k), b)\<rparr>) es txn =
    txn\<lparr>tx_contract_storage := fold (\<lambda>a t. tbl_delete t (a, b)) (map (Pair a \<circ> fst) es)
      (tx_contract_storage txn)\<rparr>" for a and es :: "(storage_key \<times> felt) list" and txn
    by (induction es arbitrary: txn) auto
  have "fold (\<lambda>(a, es). fold (\<lambda>(k, _) txn.
      txn\<lparr>tx_contract_storage := tbl_delete (tx_contract_storage txn) ((a, k), b)\<rparr>) es) ls txn =
    txn\<lparr>tx_contract_storage := fold (\<lambda>a t. tbl_delete t (a, b))
      (map fst (concat (map (\<lambda>(a, es). map (\<lambda>(k, v). ((a, k), v)) es) ls))) (tx_contract_storage txn)\<rparr>"
    for ls :: "(contract_address \<times> (storage_key \<times> felt) list) list" and txn
    by (induction ls arbitrary: txn) (auto simp: inner [unfolded case_prod_unfold] comp_def case_prod_unfold)
  then show ?thesis
    unfolding delete_storage_diffs_def storage_entries_def fold_tbl_delete [where f = "\<lambda>a. (a, b)"] by blast
qed

lemma classes_readable_markers [simp]: "classes_readable (set_marker txn k m) = classes_readable txn"
  by (simp add: classes_readable_def)

lemma revert_markers_marker [simp]:
  "get_marker (revert_markers txn b) k =
     (if k = MkState \<or> ((k = MkClass \<or> k = MkCompiledClass) \<and> get_marker txn k = Suc b) then b
      else get_marker txn k)"
  by (simp add: revert_markers_def Let_def)

lemma revert_markers_fields [simp]:
  "tx_state_diffs (revert_markers txn b) = tx_state_diffs txn"
  "tx_contract_storage (revert_markers txn b) = tx_contract_storage txn"
  "tx_nonces (revert_markers txn b) = tx_nonces txn"
  "tx_deployed_contracts (revert_markers txn b) = tx_deployed_contracts txn"
  "tx_declared_classes (revert_markers txn b) = tx_declared_classes txn"
  "tx_declared_classes_block (revert_markers txn b) = tx_declared_classes_block txn"
  "tx_file_handlers (revert_markers txn b) = tx_file_handlers txn"
  "tx_casms (revert_markers txn b) = tx_casms txn"
  "classes_readable (revert_markers txn b) = classes_readable txn"
  by (simp_all add: revert_markers_def Let_def)

text \<open>The parts of a transaction that reverting a state diff does not touch.\<close>

definition revert_frame :: "storage_txn \<Rightarrow> storage_txn \<Rightarrow> bool" where
  "revert_frame txn u \<longleftrightarrow>
     tx_headers u = tx_headers txn \<and> tx_block_hash_to_number u = tx_block_hash_to_number txn \<and>
     tx_starknet_version u = tx_starknet_version txn \<and> tx_block_signatures u = tx_block_signatures txn \<and>
     tx_transaction_metadata u = tx_transaction_metadata txn \<and>
     tx_transaction_hash_to_idx u = tx_transaction_hash_to_idx txn \<and> tx_events u = tx_events txn \<and>
     tx_scope u = tx_scope txn"

lemma casms_deleted_readable:
  "classes_readable txn \<Longrightarrow> classes_readable (txn\<lparr>tx_casms := casms_deleted cs (tx_casms txn)\<rparr>)"
  by (auto simp: classes_readable_def casms_deleted_def split: if_splits)

lemma revert_state_diff_spec:
  assumes diff: "get_state_diff txn b = Inr (Some d)" and marker: "get_state_marker txn = Suc b"
    and bound: "b < u64_max" and readable: "classes_readable txn"
    and distinct: "distinct (map fst (tsd_declared_classes d))"
  shows "\<exists>u deleted.
    revert_state_diff ord txn b = Inr (u, Some (d, deleted)) \<and>
    tx_state_diffs u = fmdrop b (tx_state_diffs txn) \<and>
    tx_contract_storage u = fmfilter (\<lambda>k. k \<notin> (\<lambda>x. (x, b)) ` set (map fst (storage_entries d)))
      (tx_contract_storage txn) \<and>
    tx_nonces u = fmfilter (\<lambda>k. k \<notin> (\<lambda>x. (x, b)) ` set (map fst (tsd_nonces d)))
      (fmfilter (\<lambda>k. k \<notin> (\<lambda>x. (x, b)) ` set (map fst (tsd_deployed_contracts d))) (tx_nonces txn)) \<and>
    tx_deployed_contracts u = fmfilter (\<lambda>k. k \<notin> (\<lambda>x. (x, b)) ` set (map fst (tsd_replaced_classes d)))
      (fmfilter (\<lambda>k. k \<notin> (\<lambda>x. (x, b)) ` set (map fst (tsd_deployed_contracts d)))
        (tx_deployed_contracts txn)) \<and>
    tx_declared_classes_block u = fmfilter (\<lambda>c. \<not> (c \<in> fst ` set (tsd_declared_classes d) \<and>
      fmlookup (tx_declared_classes txn) c \<noteq> None)) (tx_declared_classes_block txn) \<and>
    tx_casms u = casms_deleted (map fst (tsd_declared_classes d)) (tx_casms txn) \<and>
    tx_file_handlers u = tx_file_handlers txn \<and>
    tx_markers u = tx_markers (revert_markers txn b) \<and>
    tx_declared_classes u = fmfilter (\<lambda>c. c \<notin> fst ` set (tsd_declared_classes d)) (tx_declared_classes txn) \<and>
    classes_readable u \<and> revert_frame txn u"
proof -
  have r1: "classes_readable (revert_markers txn b)" using readable by simp
  from delete_declared_classes_spec [OF r1, of d, unfolded revert_markers_fields] obtain del1 u1
    where u1: "delete_declared_classes d (revert_markers txn b) = Inr (u1, del1)"
      "u1 = (revert_markers txn b)\<lparr>
        tx_declared_classes := fmfilter (\<lambda>c. c \<notin> fst ` set (tsd_declared_classes d)) (tx_declared_classes txn),
        tx_declared_classes_block := fmfilter (\<lambda>c. \<not> (c \<in> fst ` set (tsd_declared_classes d) \<and>
          fmlookup (tx_declared_classes txn) c \<noteq> None)) (tx_declared_classes_block txn)\<rparr>" by blast
  have r2: "classes_readable u1" using r1 by (auto simp: classes_readable_def u1(2))
  from delete_deprecated_fold [OF r2] obtain t2 del2
    where u2: "delete_deprecated_declared_classes ord b d u1 =
        Inr (u1\<lparr>tx_deprecated_declared_classes := t2\<rparr>, del2)"
      and r3: "classes_readable (u1\<lparr>tx_deprecated_declared_classes := t2\<rparr>)"
    unfolding delete_deprecated_declared_classes_def by blast
  define t3 where "t3 = casms_deleted (map fst (tsd_declared_classes d)) (tx_casms txn)"
  have "tx_casms (u1\<lparr>tx_deprecated_declared_classes := t2\<rparr>) = tx_casms txn" by (simp add: u1(2))
  with delete_compiled_loop_spec [OF r3 distinct] obtain del3
    where u3: "delete_compiled_classes (map fst (tsd_declared_classes d))
        (u1\<lparr>tx_deprecated_declared_classes := t2\<rparr>) =
        Inr (u1\<lparr>tx_deprecated_declared_classes := t2, tx_casms := t3\<rparr>, del3)"
    unfolding delete_compiled_classes_def t3_def by metis
  have guard: "\<not> (case bn_next b of None \<Rightarrow> True | Some n \<Rightarrow> n \<noteq> get_state_marker txn)"
    using bound marker by (simp add: bn_next_def)
  let ?u3 = "u1\<lparr>tx_deprecated_declared_classes := t2, tx_casms := t3\<rparr>"
  let ?u4 = "delete_nonces b d (delete_storage_diffs b d (delete_deployed_contracts b d ?u3))"
  let ?u = "delete_replaced_classes b d (?u4\<lparr>tx_state_diffs := tbl_delete (tx_state_diffs ?u4) b\<rparr>)"
  have eq: "revert_state_diff ord txn b = Inr (?u, Some (d, del1, del2, del3))"
    unfolding revert_state_diff_def Let_def using guard
    by (simp add: diff u1(1) u2 u3)
  have r4: "classes_readable ?u3"
    using casms_deleted_readable [OF r3, of "map fst (tsd_declared_classes d)"] by (simp add: t3_def u1(2))
  have readable: "classes_readable ?u"
    using r4 unfolding classes_readable_def delete_replaced_classes_eq delete_nonces_eq delete_storage_diffs_eq
      delete_deployed_contracts_eq by simp
  have frame: "revert_frame txn ?u"
    by (simp add: revert_frame_def delete_replaced_classes_eq delete_nonces_eq delete_storage_diffs_eq
        delete_deployed_contracts_eq u1(2) revert_markers_def Let_def)
  show ?thesis
  proof (rule exI [of _ ?u], rule exI [of _ "(del1, del2, del3)"], intro conjI)
    show "revert_state_diff ord txn b = Inr (?u, Some (d, del1, del2, del3))" by (rule eq)
    show "classes_readable ?u" by (rule readable)
    show "revert_frame txn ?u" by (rule frame)
  qed (simp_all add: delete_replaced_classes_eq delete_nonces_eq delete_storage_diffs_eq
      delete_deployed_contracts_eq u1(2) tbl_delete_def t3_def)
qed

lemma versioned_deleted:
  assumes "versioned t g (ds @ [d])" and "\<And>x. g d x \<noteq> None \<Longrightarrow> x \<in> X"
    and "\<And>x b. fmlookup t' (x, b) = (if b = length ds \<and> x \<in> X then None else fmlookup t (x, b))"
  shows "versioned t' g ds"
proof (rule versioned_revert [OF assms(1)])
  fix x b
  have "fmlookup t (x, length ds) = g d x" using assms(1) by (simp add: versioned_def)
  then show "fmlookup t' (x, b) = (if b = length ds then None else fmlookup t (x, b))"
    using assms(2) [of x] by (cases "g d x") (auto simp: assms(3))
qed

lemma diff_keys:
  "diff_storage d k = None \<longleftrightarrow> k \<notin> fst ` set (storage_entries d)"
  "diff_nonce d a = None \<longleftrightarrow> a \<notin> fst ` set (tsd_nonces d) \<and> a \<notin> fst ` set (tsd_deployed_contracts d)"
  "diff_class d a = None \<longleftrightarrow> a \<notin> fst ` set (tsd_replaced_classes d) \<and> a \<notin> fst ` set (tsd_deployed_contracts d)"
  unfolding map_of_eq_None_iff [symmetric]
  by (auto simp: diff_storage_def diff_nonce_def diff_class_def split: option.split)

lemma revert_state_diff_rel:
  assumes rel: "state_rel txn (ds @ [d])" and bound: "length ds < u64_max"
    and readable: "classes_readable txn"
    and distinct: "distinct (map fst (tsd_declared_classes d))"
    and stored: "\<And>c. c \<in> fst ` set (tsd_declared_classes d) \<Longrightarrow> fmlookup (tx_declared_classes txn) c \<noteq> None"
  shows "\<exists>u deleted. revert_state_diff ord txn (length ds) = Inr (u, Some (d, deleted)) \<and> state_rel u ds \<and>
    tx_casms u = casms_deleted (map fst (tsd_declared_classes d)) (tx_casms txn) \<and>
    (\<forall>k. get_marker u k = get_marker (revert_markers txn (length ds)) k) \<and>
    tx_file_handlers u = tx_file_handlers txn \<and>
    tx_declared_classes u = fmfilter (\<lambda>c. c \<notin> fst ` set (tsd_declared_classes d)) (tx_declared_classes txn) \<and>
    classes_readable u \<and> revert_frame txn u"
proof -
  note D = state_relD [OF rel]
  have diff: "get_state_diff txn (length ds) = Inr (Some d)" using state_rel_diff [OF rel] by simp
  have marker: "get_state_marker txn = Suc (length ds)" using D(1) by (simp add: get_state_marker_def)
  from revert_state_diff_spec [OF diff marker bound readable distinct, of ord] obtain u deleted
    where revert: "revert_state_diff ord txn (length ds) = Inr (u, Some (d, deleted))"
    and u: "tx_state_diffs u = fmdrop (length ds) (tx_state_diffs txn)"
      "tx_contract_storage u = fmfilter (\<lambda>k. k \<notin> (\<lambda>x. (x, length ds)) ` set (map fst (storage_entries d)))
        (tx_contract_storage txn)"
      "tx_nonces u = fmfilter (\<lambda>k. k \<notin> (\<lambda>x. (x, length ds)) ` set (map fst (tsd_nonces d)))
        (fmfilter (\<lambda>k. k \<notin> (\<lambda>x. (x, length ds)) ` set (map fst (tsd_deployed_contracts d))) (tx_nonces txn))"
      "tx_deployed_contracts u = fmfilter (\<lambda>k. k \<notin> (\<lambda>x. (x, length ds)) ` set (map fst (tsd_replaced_classes d)))
        (fmfilter (\<lambda>k. k \<notin> (\<lambda>x. (x, length ds)) ` set (map fst (tsd_deployed_contracts d)))
          (tx_deployed_contracts txn))"
      "tx_declared_classes_block u = fmfilter (\<lambda>c. \<not> (c \<in> fst ` set (tsd_declared_classes d) \<and>
        fmlookup (tx_declared_classes txn) c \<noteq> None)) (tx_declared_classes_block txn)"
      "tx_file_handlers u = tx_file_handlers txn"
      "tx_markers u = tx_markers (revert_markers txn (length ds))"
    and casms: "tx_casms u = casms_deleted (map fst (tsd_declared_classes d)) (tx_casms txn)"
    and rest: "tx_declared_classes u = fmfilter (\<lambda>c. c \<notin> fst ` set (tsd_declared_classes d)) (tx_declared_classes txn)"
      "classes_readable u" "revert_frame txn u" by blast
  have m: "get_marker u k = get_marker (revert_markers txn (length ds)) k" for k
    by (simp add: get_marker_def u(7))
  have "state_rel u ds"
  proof (rule state_relI)
    show "versioned (tx_contract_storage u) diff_storage ds"
      by (rule versioned_deleted [OF D(3), where X = "set (map fst (storage_entries d))"])
        (simp add: diff_keys, auto simp: u(2))
    show "versioned (tx_nonces u) diff_nonce ds"
      by (rule versioned_deleted [OF D(4), where X = "set (map fst (tsd_nonces d)) \<union>
          set (map fst (tsd_deployed_contracts d))"])
        (simp add: diff_keys, auto simp: u(3))
    show "versioned (tx_deployed_contracts u) diff_class ds"
      by (rule versioned_deleted [OF D(5), where X = "set (map fst (tsd_replaced_classes d)) \<union>
          set (map fst (tsd_deployed_contracts d))"])
        (simp add: diff_keys, auto simp: u(4))
    show "rel_option (\<lambda>loc d. file_get (fs_thin_state_diff (tx_file_handlers u)) loc = Some d)
        (fmlookup (tx_state_diffs u) b) (if b < length ds then Some (ds ! b) else None)" for b
      using D(6) [of b] by (cases b "length ds" rule: linorder_cases) (simp_all add: u(1,6) nth_append)
    show "fmlookup (tx_declared_classes_block u) c = Some b \<longleftrightarrow>
        b < length ds \<and> c \<in> fst ` set (tsd_declared_classes (ds ! b))" for c b
      using D(7) [of c b] D(7) [of c "length ds"] stored [of c] unfolding u(5)
      by (cases "c \<in> fst ` set (tsd_declared_classes d)"; cases b "length ds" rule: linorder_cases)
        (simp_all add: nth_append)
    show "file_wf (fs_thin_state_diff (tx_file_handlers u))" using D(8) by (simp add: u(6))
  qed (use D(1,2) in \<open>simp_all add: m\<close>)
  with revert casms m rest u(6) show ?thesis by blast
qed

section \<open>Properties\<close>

lemma versioned_empty: "versioned fmempty g []"
  by (simp add: versioned_def)

lemma state_rel_empty: "state_rel (empty_txn scope) []"
  by (intro state_relI) (simp_all, simp_all add: empty_txn_def empty_file_def versioned_empty file_wf_def)

text \<open>
  \<^bold>\<open>C15.\<close> Appending a state diff appends to the list of state diffs: \<open>append_state_diff\<close> succeeds
  exactly when the block number is the number of stored diffs, no contract is both deployed and
  replaced in the diff, and none of its classes was declared before; afterwards the versioned tables
  of storage, nonces and class hashes, the diffs and the declaring blocks are those of the extended list.
\<close>

theorem state_append_refines:
  assumes "state_rel txn ds" and "diff_wf d" and "sizes_positive sz"
  shows "case append_state_diff sz txn b d of
      Inr txn' \<Rightarrow> b = length ds \<and> diff_new ds d \<and> state_rel txn' (ds @ [d])
    | Inl _ \<Rightarrow> \<not> (b = length ds \<and> diff_new ds d)"
proof (cases "append_state_diff sz txn b d")
  case (Inr txn')
  from append_state_diff_rel [OF this assms] Inr show ?thesis by simp
next
  case (Inl e)
  then show ?thesis using append_state_diff_ok [OF assms(1-3)] by auto
qed

definition demo_diff :: thin_state_diff where
  "demo_diff = \<lparr>tsd_deployed_contracts = [(1, 50), (2, 50)],
     tsd_storage_diffs = [(1, [(10, 5), (11, 6)]), (2, [(10, 7)])],
     tsd_declared_classes = [(50, 500)], tsd_deprecated_declared_classes = [60],
     tsd_nonces = [(1, 3)], tsd_replaced_classes = [(9, 51)]\<rparr>"

definition demo_diff2 :: thin_state_diff where
  "demo_diff2 = \<lparr>tsd_deployed_contracts = [], tsd_storage_diffs = [(1, [(10, 8)])],
     tsd_declared_classes = [], tsd_deprecated_declared_classes = [],
     tsd_nonces = [(1, 4)], tsd_replaced_classes = [(1, 52)]\<rparr>"

lemma demo_diff_wf: "diff_wf demo_diff" "diff_wf demo_diff2" "diff_new [] demo_diff" "diff_new [demo_diff] demo_diff2"
  by (simp_all add: diff_wf_def diff_new_def demo_diff_def demo_diff2_def)

lemma append_demo_diffs:
  "\<exists>u v. append_state_diff demo_sizes (empty_txn FullArchive) 0 demo_diff = Inr u \<and>
     append_state_diff demo_sizes u 1 demo_diff2 = Inr v \<and>
     state_rel u [demo_diff] \<and> state_rel v [demo_diff, demo_diff2]"
proof -
  obtain u where u: "append_state_diff demo_sizes (empty_txn FullArchive) 0 demo_diff = Inr u"
    using append_state_diff_ok [OF state_rel_empty demo_diff_wf(1) sizes_positive_demo demo_diff_wf(3)] by auto
  from append_state_diff_rel [OF u state_rel_empty demo_diff_wf(1) sizes_positive_demo]
  have ru: "state_rel u [demo_diff]" by simp
  obtain v where v: "append_state_diff demo_sizes u 1 demo_diff2 = Inr v"
    using append_state_diff_ok [OF ru demo_diff_wf(2) sizes_positive_demo demo_diff_wf(4)] by auto
  from append_state_diff_rel [OF v ru demo_diff_wf(2) sizes_positive_demo] u v ru show ?thesis by auto
qed

theorem state_append_refines_witness:
  "(\<exists>u. append_state_diff demo_sizes (empty_txn FullArchive) 0 demo_diff = Inr u \<and> state_rel u [demo_diff]) \<and>
   (\<exists>e. append_state_diff demo_sizes (empty_txn FullArchive) 1 demo_diff = Inl e)"
  using state_append_refines [OF state_rel_empty [of FullArchive] demo_diff_wf(1) sizes_positive_demo, of 0]
    state_append_refines [OF state_rel_empty [of FullArchive] demo_diff_wf(1) sizes_positive_demo, of 1]
    append_demo_diffs
  by (auto split: sum.splits)


definition demo_api :: "nat state_number_api" where
  "demo_api = \<lparr>sn_block_after = (\<lambda>n. n), sn_is_before = (\<le>), sn_is_after = (\<lambda>n b. b < n)\<rparr>"


end
