(* ===== verification/Storage_Class.thy ===== *)
theory Storage_Class
  imports Storage_State
begin

text \<open>
  Classes and compiled classes: \<open>crates/papyrus_storage/src/class.rs\<close> and
  \<open>crates/papyrus_storage/src/compiled_class.rs\<close>, and the base layer marker,
  \<open>crates/papyrus_storage/src/base_layer.rs\<close>.

  Classes are stored in files and found by their hash; a class can be stored once, a deprecated
  class keeps the first block it was stored at. Compiled classes arrive one at a time in the order
  in which the state diffs declare them: \<open>casm_rel\<close> says that the first \<open>n\<close> are stored, and that the
  compiled class marker is the number of blocks all of whose classes are among them.
\<close>

section \<open>Classes\<close>

definition get_class :: "storage_txn \<Rightarrow> class_hash \<Rightarrow> sierra_class option sresult" where
  "get_class txn class_hash =
     (case tbl_get (tx_declared_classes txn) class_hash of
        None \<Rightarrow> Inr None
      | Some loc \<Rightarrow> res_bind (get_contract_class_unchecked txn loc) (\<lambda>c. Inr (Some c)))"

definition get_deprecated_class :: "storage_txn \<Rightarrow> class_hash \<Rightarrow> cairo0_class option sresult" where
  "get_deprecated_class txn class_hash =
     (case tbl_get (tx_deprecated_declared_classes txn) class_hash of
        None \<Rightarrow> Inr None
      | Some v \<Rightarrow>
          res_bind (get_deprecated_contract_class_unchecked txn (idc_location_in_file v)) (\<lambda>c. Inr (Some c)))"

definition get_class_marker :: "storage_txn \<Rightarrow> block_number" where
  "get_class_marker txn = get_marker txn MkClass"

definition write_class :: "serde_sizes \<Rightarrow> class_hash \<times> sierra_class \<Rightarrow> storage_txn \<Rightarrow> storage_txn sresult" where
  "write_class sz entry txn =
     (case entry of (class_hash, contract_class) \<Rightarrow>
        let (txn, loc) = append_contract_class sz txn contract_class
        in res_bind (db_res (tbl_insert ''declared_classes'' (tx_declared_classes txn) class_hash loc)) (\<lambda>t.
             Inr (set_file_offset (txn\<lparr>tx_declared_classes := t\<rparr>) OkContractClass loc)))"

definition write_classes ::
  "serde_sizes \<Rightarrow> (class_hash \<times> sierra_class) list \<Rightarrow> storage_txn \<Rightarrow> storage_txn sresult" where
  "write_classes sz = fold_res (write_class sz)"

definition write_deprecated_class ::
  "serde_sizes \<Rightarrow> block_number \<Rightarrow> class_hash \<times> cairo0_class \<Rightarrow> storage_txn \<Rightarrow> storage_txn sresult" where
  "write_deprecated_class sz b entry txn =
     (case entry of (class_hash, contract_class) \<Rightarrow>
        if tbl_get (tx_deprecated_declared_classes txn) class_hash \<noteq> None then Inr txn
        else let (txn, loc) = append_deprecated_contract_class sz txn contract_class;
                 v = \<lparr>idc_block_number = b, idc_location_in_file = loc\<rparr>;
                 txn = set_file_offset txn OkDeprecatedContractClass loc
             in res_bind (db_res (tbl_insert ''deprecated_declared_classes''
                    (tx_deprecated_declared_classes txn) class_hash v)) (\<lambda>t.
                  Inr (txn\<lparr>tx_deprecated_declared_classes := t\<rparr>)))"

definition write_deprecated_classes ::
  "serde_sizes \<Rightarrow> block_number \<Rightarrow> (class_hash \<times> cairo0_class) list \<Rightarrow> storage_txn \<Rightarrow> storage_txn sresult" where
  "write_deprecated_classes sz b = fold_res (write_deprecated_class sz b)"

definition append_classes ::
  "serde_sizes \<Rightarrow> storage_txn \<Rightarrow> block_number \<Rightarrow> (class_hash \<times> sierra_class) list \<Rightarrow>
   (class_hash \<times> cairo0_class) list \<Rightarrow> storage_txn sresult" where
  "append_classes sz txn b classes deprecated_classes =
     (if b \<noteq> get_marker txn MkClass then Inl (SErr (MarkerMismatch (get_marker txn MkClass) b))
      else res_bind (write_classes sz classes txn) (\<lambda>txn.
           res_bind (write_deprecated_classes sz b deprecated_classes txn) (\<lambda>txn.
             Inr (set_marker txn MkClass (Suc b)))))"

section \<open>Compiled classes\<close>

definition get_casm :: "storage_txn \<Rightarrow> class_hash \<Rightarrow> casm_class option sresult" where
  "get_casm txn class_hash =
     (case tbl_get (tx_casms txn) class_hash of
        None \<Rightarrow> Inr None
      | Some loc \<Rightarrow> res_bind (get_casm_unchecked txn loc) (\<lambda>c. Inr (Some c)))"

definition get_compiled_class_marker :: "storage_txn \<Rightarrow> block_number" where
  "get_compiled_class_marker txn = get_marker txn MkCompiledClass"

text \<open>
  The loop of \<open>update_marker\<close>; it ends because the blocks with a state diff are finitely many.
\<close>

function casm_marker_loop :: "class_hash \<Rightarrow> block_number \<Rightarrow> storage_txn \<Rightarrow> storage_txn sresult" where
  "casm_marker_loop class_hash b txn =
     (case tbl_get (tx_state_diffs txn) b of
        None \<Rightarrow> Inr txn
      | Some loc \<Rightarrow>
          res_bind (get_thin_state_diff_unchecked txn loc) (\<lambda>d.
            if tsd_declared_classes d \<noteq> [] \<and> fst (last (tsd_declared_classes d)) \<noteq> class_hash then Inr txn
            else casm_marker_loop class_hash (Suc b) (set_marker txn MkCompiledClass (Suc b))))"
  by pat_completeness auto
termination
proof (relation "measure (\<lambda>(_, b, txn). Suc (Max (insert 0 (fset (fmdom (tx_state_diffs txn))))) - b)", goal_cases)
  case (2 class_hash b txn loc d)
  then have "b \<in> fset (fmdom (tx_state_diffs txn))" by (simp add: tbl_get_def fmdomI)
  then have "b \<le> Max (insert 0 (fset (fmdom (tx_state_diffs txn))))" by (intro Max_ge) simp_all
  then show ?case by (simp only: in_measure prod.case set_marker_fields)
qed (rule wf_measure)

declare casm_marker_loop.simps [simp del]

definition compiled_update_marker :: "class_hash \<Rightarrow> storage_txn \<Rightarrow> storage_txn sresult" where
  "compiled_update_marker class_hash txn = casm_marker_loop class_hash (get_marker txn MkCompiledClass) txn"

definition append_casm ::
  "serde_sizes \<Rightarrow> storage_txn \<Rightarrow> class_hash \<Rightarrow> casm_class \<Rightarrow> storage_txn sresult" where
  "append_casm sz txn class_hash casm =
     (let (txn, loc) = append_casm_file sz txn casm
      in res_bind (db_res (tbl_insert ''casms'' (tx_casms txn) class_hash loc)) (\<lambda>t.
           compiled_update_marker class_hash (set_file_offset (txn\<lparr>tx_casms := t\<rparr>) OkCasm loc)))"

section \<open>The base layer marker\<close>

definition get_base_layer_block_marker :: "storage_txn \<Rightarrow> block_number" where
  "get_base_layer_block_marker txn = get_marker txn MkBaseLayerBlock"

definition update_base_layer_block_marker :: "storage_txn \<Rightarrow> block_number \<Rightarrow> storage_txn" where
  "update_base_layer_block_marker txn b = set_marker txn MkBaseLayerBlock b"

definition try_revert_base_layer_marker :: "storage_txn \<Rightarrow> block_number \<Rightarrow> storage_txn" where
  "try_revert_base_layer_marker txn reverted =
     (if get_base_layer_block_marker txn = Suc reverted
      then update_base_layer_block_marker txn reverted else txn)"

section \<open>Reading classes back\<close>

definition classes_wf :: "storage_txn \<Rightarrow> bool" where
  "classes_wf txn \<longleftrightarrow>
     classes_readable txn \<and> file_wf (fs_contract_class (tx_file_handlers txn)) \<and>
     file_wf (fs_deprecated_contract_class (tx_file_handlers txn)) \<and>
     file_wf (fs_casm (tx_file_handlers txn))"

lemma classes_wf_empty: "classes_wf (empty_txn scope)"
  by (simp add: classes_wf_def classes_readable_def empty_txn_def empty_file_def file_wf_def)

text \<open>What a class table says about a hash, with the object read from the file.\<close>

lemma get_class_eq:
  assumes "classes_wf txn"
  shows "get_class txn c = Inr (case fmlookup (tx_declared_classes txn) c of None \<Rightarrow> None
    | Some loc \<Rightarrow> file_get (fs_contract_class (tx_file_handlers txn)) loc)"
  using assms
  by (cases "fmlookup (tx_declared_classes txn) c")
    (fastforce simp: get_class_def tbl_get_def get_contract_class_unchecked_def file_get_unchecked_def
      classes_wf_def classes_readable_def)+

lemma get_deprecated_class_eq:
  assumes "classes_wf txn"
  shows "get_deprecated_class txn c = Inr (case fmlookup (tx_deprecated_declared_classes txn) c of None \<Rightarrow> None
    | Some v \<Rightarrow> file_get (fs_deprecated_contract_class (tx_file_handlers txn)) (idc_location_in_file v))"
  using assms
  by (cases "fmlookup (tx_deprecated_declared_classes txn) c")
    (fastforce simp: get_deprecated_class_def tbl_get_def get_deprecated_contract_class_unchecked_def
      file_get_unchecked_def classes_wf_def classes_readable_def)+

lemma get_casm_eq:
  assumes "classes_wf txn"
  shows "get_casm txn c = Inr (case fmlookup (tx_casms txn) c of None \<Rightarrow> None
    | Some loc \<Rightarrow> file_get (fs_casm (tx_file_handlers txn)) loc)"
  using assms
  by (cases "fmlookup (tx_casms txn) c")
    (fastforce simp: get_casm_def tbl_get_def get_casm_unchecked_def file_get_unchecked_def
      classes_wf_def classes_readable_def)+

lemma file_append_same:
  assumes "file_append len f v = (f', loc)" and "file_wf f" and "file_get f l \<noteq> None"
  shows "file_get f' l = file_get f l"
  using file_append_keeps [OF assms(1,2)] assms(3) by (cases "file_get f l") auto

lemma write_class_eq_Inr:
  assumes "file_append (sz_contract_class sz) (fs_contract_class (tx_file_handlers txn)) x = (f, loc)"
  shows "write_class sz (c, x) txn = Inr txn' \<longleftrightarrow>
    fmlookup (tx_declared_classes txn) c = None \<and>
    txn' = set_file_offset (txn\<lparr>tx_file_handlers := (tx_file_handlers txn)\<lparr>fs_contract_class := f\<rparr>,
      tx_declared_classes := fmupd c loc (tx_declared_classes txn)\<rparr>) OkContractClass loc"
  using assms
  by (auto simp: write_class_def append_contract_class_def res_bind_eq_Inr db_res_eq_Inr tbl_insert_eq_Inr Let_def)

lemma write_class_spec:
  assumes wf: "classes_wf txn" and sz: "sizes_positive sz" and w: "write_class sz (c, x) txn = Inr txn'"
  shows "classes_wf txn' \<and> get_class txn c = Inr None \<and>
    (\<forall>c'. get_class txn' c' = (if c' = c then Inr (Some x) else get_class txn c')) \<and>
    (\<forall>c'. get_deprecated_class txn' c' = get_deprecated_class txn c')"
proof -
  obtain f loc where app: "file_append (sz_contract_class sz) (fs_contract_class (tx_file_handlers txn)) x = (f, loc)"
    by fastforce
  from w [unfolded write_class_eq_Inr [OF app]] have none: "fmlookup (tx_declared_classes txn) c = None"
    and t: "tx_declared_classes txn' = fmupd c loc (tx_declared_classes txn)"
      "tx_deprecated_declared_classes txn' = tx_deprecated_declared_classes txn" "tx_casms txn' = tx_casms txn"
      "tx_file_handlers txn' = (tx_file_handlers txn)\<lparr>fs_contract_class := f\<rparr>"
    by (simp_all add: set_file_offset_def)
  have fwf: "file_wf (fs_contract_class (tx_file_handlers txn))" using wf by (simp add: classes_wf_def)
  have keeps: "file_get f l \<noteq> None" if "file_get (fs_contract_class (tx_file_handlers txn)) l \<noteq> None" for l
    using that by (simp add: file_append_same [OF app fwf])
  have "file_wf f" by (rule file_append_wf [OF fwf _ app]) (use sz in \<open>simp add: sizes_positive_def\<close>)
  moreover have "classes_readable txn'"
    using wf keeps file_append_get [OF app] by (auto simp: classes_wf_def classes_readable_def t)
  ultimately have wf': "classes_wf txn'" using wf by (simp add: classes_wf_def t)
  have "get_class txn' c' = (if c' = c then Inr (Some x) else get_class txn c')" for c'
  proof (cases "c' = c")
    case False
    have "fmlookup (tx_declared_classes txn) c' = Some l \<Longrightarrow>
        file_get (fs_contract_class (tx_file_handlers txn)) l \<noteq> None" for l
      using wf by (auto simp: classes_wf_def classes_readable_def)
    with file_append_same [OF app fwf] False show ?thesis
      unfolding get_class_eq [OF wf'] get_class_eq [OF wf] t
      by (cases "fmlookup (tx_declared_classes txn) c'") simp_all
  qed (simp add: get_class_eq [OF wf'] t file_append_get [OF app])
  moreover have "get_class txn c = Inr None" using none by (simp add: get_class_def tbl_get_def)
  moreover have "get_deprecated_class txn' c' = get_deprecated_class txn c'" for c'
    unfolding get_deprecated_class_eq [OF wf'] get_deprecated_class_eq [OF wf] by (simp add: t split: option.split)
  ultimately show ?thesis using wf' by blast
qed

lemma write_classes_spec:
  assumes "classes_wf txn" and "sizes_positive sz" and "write_classes sz cs txn = Inr txn'"
  shows "classes_wf txn' \<and> distinct (map fst cs) \<and> (\<forall>c \<in> fst ` set cs. get_class txn c = Inr None) \<and>
    (\<forall>c. get_class txn' c = (case map_of cs c of Some x \<Rightarrow> Inr (Some x) | None \<Rightarrow> get_class txn c)) \<and>
    (\<forall>c. get_deprecated_class txn' c = get_deprecated_class txn c)"
  using assms(1,3)
proof (induction cs arbitrary: txn)
  case (Cons cx cs)
  obtain c x where cx: "cx = (c, x)" by (cases cx)
  obtain u where u: "write_class sz (c, x) txn = Inr u" "write_classes sz cs u = Inr txn'"
    using Cons.prems(2) by (auto simp: cx write_classes_def res_bind_eq_Inr)
  note s = write_class_spec [OF Cons.prems(1) assms(2) u(1)]
  then have "classes_wf u" by blast
  note IH = Cons.IH [OF this u(2)]
  have fresh: "c' \<noteq> c" if "c' \<in> fst ` set cs" for c' using s IH that by force
  then have "c \<notin> fst ` set cs" by blast
  then have "map_of cs c = None" by (simp add: map_of_eq_None_iff)
  moreover have "get_class txn c' = Inr None" if "c' \<in> fst ` set (cx # cs)" for c'
    using s IH that fresh [of c'] by (cases "c' = c") (auto simp: cx)
  ultimately show ?case using s IH \<open>c \<notin> fst ` set cs\<close> by (auto simp: cx split: option.split)
qed (simp add: write_classes_def)

lemma write_classes_ok:
  assumes "distinct (map fst cs)" and "\<And>c. c \<in> fst ` set cs \<Longrightarrow> fmlookup (tx_declared_classes txn) c = None"
  shows "\<exists>txn'. write_classes sz cs txn = Inr txn'"
  using assms
proof (induction cs arbitrary: txn)
  case (Cons cx cs)
  obtain c x where cx: "cx = (c, x)" by (cases cx)
  obtain f loc where app: "file_append (sz_contract_class sz) (fs_contract_class (tx_file_handlers txn)) x = (f, loc)"
    by fastforce
  define u where "u = set_file_offset (txn\<lparr>tx_file_handlers := (tx_file_handlers txn)\<lparr>fs_contract_class := f\<rparr>,
      tx_declared_classes := fmupd c loc (tx_declared_classes txn)\<rparr>) OkContractClass loc"
  have "write_class sz (c, x) txn = Inr u"
    unfolding write_class_eq_Inr [OF app] u_def using Cons.prems(2) [of c] by (simp add: cx)
  moreover have "\<exists>txn'. write_classes sz cs u = Inr txn'"
  proof (rule Cons.IH)
    fix c' assume "c' \<in> fst ` set cs"
    moreover from this have "c' \<noteq> c" using Cons.prems(1) by (auto simp: cx)
    ultimately show "fmlookup (tx_declared_classes u) c' = None"
      using Cons.prems(2) [of c'] by (simp add: u_def set_file_offset_def)
  qed (use Cons.prems(1) in simp)
  ultimately show ?case by (simp add: cx write_classes_def)
qed (simp add: write_classes_def)

lemma write_deprecated_class_new:
  assumes "file_append (sz_deprecated_contract_class sz) (fs_deprecated_contract_class (tx_file_handlers txn)) x = (f, loc)"
    and "fmlookup (tx_deprecated_declared_classes txn) c = None"
  shows "write_deprecated_class sz b (c, x) txn =
    Inr ((set_file_offset (txn\<lparr>tx_file_handlers := (tx_file_handlers txn)\<lparr>fs_deprecated_contract_class := f\<rparr>\<rparr>)
      OkDeprecatedContractClass loc)\<lparr>tx_deprecated_declared_classes :=
        fmupd c \<lparr>idc_block_number = b, idc_location_in_file = loc\<rparr> (tx_deprecated_declared_classes txn)\<rparr>)"
  using assms
  by (simp add: write_deprecated_class_def append_deprecated_contract_class_def tbl_get_def tbl_insert_def Let_def
      set_file_offset_def)

lemma write_deprecated_class_spec:
  assumes wf: "classes_wf txn" and sz: "sizes_positive sz"
  shows "\<exists>txn'. write_deprecated_class sz b (c, x) txn = Inr txn' \<and> classes_wf txn' \<and>
    (\<forall>c'. get_class txn' c' = get_class txn c') \<and>
    (\<forall>c'. get_deprecated_class txn' c' =
      (if c' = c \<and> get_deprecated_class txn c = Inr None then Inr (Some x) else get_deprecated_class txn c'))"
proof (cases "fmlookup (tx_deprecated_declared_classes txn) c")
  case (Some v)
  have "file_get (fs_deprecated_contract_class (tx_file_handlers txn)) (idc_location_in_file v) \<noteq> None"
    using wf Some by (auto simp: classes_wf_def classes_readable_def)
  then have "get_deprecated_class txn c \<noteq> Inr None"
    unfolding get_deprecated_class_eq [OF wf] using Some by simp
  then show ?thesis using Some wf by (simp add: write_deprecated_class_def tbl_get_def)
next
  case None
  obtain f loc where app: "file_append (sz_deprecated_contract_class sz)
      (fs_deprecated_contract_class (tx_file_handlers txn)) x = (f, loc)" by fastforce
  define u where "u = (set_file_offset (txn\<lparr>tx_file_handlers :=
      (tx_file_handlers txn)\<lparr>fs_deprecated_contract_class := f\<rparr>\<rparr>) OkDeprecatedContractClass loc)\<lparr>
      tx_deprecated_declared_classes := fmupd c \<lparr>idc_block_number = b, idc_location_in_file = loc\<rparr>
        (tx_deprecated_declared_classes txn)\<rparr>"
  have t: "tx_deprecated_declared_classes u =
      fmupd c \<lparr>idc_block_number = b, idc_location_in_file = loc\<rparr> (tx_deprecated_declared_classes txn)"
    "tx_declared_classes u = tx_declared_classes txn" "tx_casms u = tx_casms txn"
    "tx_file_handlers u = (tx_file_handlers txn)\<lparr>fs_deprecated_contract_class := f\<rparr>"
    by (simp_all add: u_def set_file_offset_def)
  have fwf: "file_wf (fs_deprecated_contract_class (tx_file_handlers txn))" using wf by (simp add: classes_wf_def)
  have keeps: "file_get f l \<noteq> None"
    if "file_get (fs_deprecated_contract_class (tx_file_handlers txn)) l \<noteq> None" for l
    using that by (simp add: file_append_same [OF app fwf])
  have "file_wf f" by (rule file_append_wf [OF fwf _ app]) (use sz in \<open>simp add: sizes_positive_def\<close>)
  moreover have "classes_readable u"
    using wf keeps file_append_get [OF app] by (auto simp: classes_wf_def classes_readable_def t)
  ultimately have wf': "classes_wf u" using wf by (simp add: classes_wf_def t)
  have dep: "get_deprecated_class u c' = (if c' = c then Inr (Some x) else get_deprecated_class txn c')" for c'
  proof (cases "c' = c")
    case False
    have "fmlookup (tx_deprecated_declared_classes txn) c' = Some v \<Longrightarrow>
        file_get (fs_deprecated_contract_class (tx_file_handlers txn)) (idc_location_in_file v) \<noteq> None" for v
      using wf by (auto simp: classes_wf_def classes_readable_def)
    with file_append_same [OF app fwf] False show ?thesis
      unfolding get_deprecated_class_eq [OF wf'] get_deprecated_class_eq [OF wf] t
      by (cases "fmlookup (tx_deprecated_declared_classes txn) c'") simp_all
  qed (simp add: get_deprecated_class_eq [OF wf'] t file_append_get [OF app])
  have "get_deprecated_class txn c = Inr None" using None by (simp add: get_deprecated_class_def tbl_get_def)
  moreover have "get_class u c' = get_class txn c'" for c'
    unfolding get_class_eq [OF wf'] get_class_eq [OF wf] t by (simp split: option.split)
  ultimately show ?thesis
    using write_deprecated_class_new [OF app None, of b, folded u_def] dep wf' by auto
qed

lemma write_deprecated_classes_spec:
  assumes "classes_wf txn" and "sizes_positive sz"
  shows "\<exists>txn'. write_deprecated_classes sz b cs txn = Inr txn' \<and> classes_wf txn' \<and>
    (\<forall>c. get_class txn' c = get_class txn c) \<and>
    (\<forall>c. get_deprecated_class txn' c =
      (if get_deprecated_class txn c = Inr None then Inr (map_of cs c) else get_deprecated_class txn c))"
  using assms(1)
proof (induction cs arbitrary: txn)
  case Nil
  then show ?case by (simp add: write_deprecated_classes_def)
next
  case (Cons cx cs)
  obtain c x where cx: "cx = (c, x)" by (cases cx)
  from write_deprecated_class_spec [OF Cons.prems assms(2), of b c x] obtain u
    where u: "write_deprecated_class sz b (c, x) txn = Inr u" "classes_wf u"
      "\<And>c'. get_class u c' = get_class txn c'"
      "\<And>c'. get_deprecated_class u c' =
        (if c' = c \<and> get_deprecated_class txn c = Inr None then Inr (Some x) else get_deprecated_class txn c')"
    by blast
  from Cons.IH [OF u(2)] obtain v
    where v: "write_deprecated_classes sz b cs u = Inr v" "classes_wf v"
      "\<And>c'. get_class v c' = get_class u c'"
      "\<And>c'. get_deprecated_class v c' =
        (if get_deprecated_class u c' = Inr None then Inr (map_of cs c') else get_deprecated_class u c')"
    by blast
  show ?case
    using u(1) v(1,2) by (intro exI [of _ v])
      (auto simp: cx write_deprecated_classes_def v(3,4) u(3,4))
qed

text \<open>The parts of a transaction that writing classes does not touch.\<close>

definition class_frame :: "storage_txn \<Rightarrow> storage_txn \<Rightarrow> bool" where
  "class_frame txn txn' \<longleftrightarrow>
     (\<forall>k. k \<noteq> MkClass \<longrightarrow> get_marker txn' k = get_marker txn k) \<and>
     tx_contract_storage txn' = tx_contract_storage txn \<and> tx_nonces txn' = tx_nonces txn \<and>
     tx_deployed_contracts txn' = tx_deployed_contracts txn \<and> tx_state_diffs txn' = tx_state_diffs txn \<and>
     tx_declared_classes_block txn' = tx_declared_classes_block txn \<and> tx_casms txn' = tx_casms txn \<and>
     fs_thin_state_diff (tx_file_handlers txn') = fs_thin_state_diff (tx_file_handlers txn)"

lemma class_frame_refl: "class_frame txn txn"
  and class_frame_trans: "class_frame a b \<Longrightarrow> class_frame b c \<Longrightarrow> class_frame a c"
  by (simp_all add: class_frame_def)

lemma class_frame_state_rel: "class_frame txn txn' \<Longrightarrow> state_rel txn' ds = state_rel txn ds"
  by (simp add: class_frame_def state_rel_def)

lemma get_marker_set_file_offset [simp]: "get_marker (set_file_offset txn k loc) m = get_marker txn m"
  by (simp add: get_marker_def set_file_offset_def)

lemma write_class_frame: "write_class sz cx txn = Inr txn' \<Longrightarrow> class_frame txn txn'"
proof -
  assume w: "write_class sz cx txn = Inr txn'"
  obtain c x where cx: "cx = (c, x)" by (cases cx)
  obtain f loc where app: "file_append (sz_contract_class sz) (fs_contract_class (tx_file_handlers txn)) x = (f, loc)"
    by fastforce
  from w [unfolded cx write_class_eq_Inr [OF app]] show ?thesis
    by (clarsimp simp: class_frame_def) (simp add: get_marker_def set_file_offset_def)
qed

lemma write_deprecated_class_frame: "write_deprecated_class sz b cx txn = Inr txn' \<Longrightarrow> class_frame txn txn'"
proof -
  assume w: "write_deprecated_class sz b cx txn = Inr txn'"
  obtain c x where cx: "cx = (c, x)" by (cases cx)
  obtain f loc where app: "file_append (sz_deprecated_contract_class sz)
      (fs_deprecated_contract_class (tx_file_handlers txn)) x = (f, loc)" by fastforce
  show ?thesis
  proof (cases "fmlookup (tx_deprecated_declared_classes txn) c")
    case None
    from w [unfolded cx write_deprecated_class_new [OF app None]] show ?thesis
      by (clarsimp simp: class_frame_def) (simp add: get_marker_def set_file_offset_def)
  next
    case (Some v)
    then show ?thesis using w by (simp add: cx write_deprecated_class_def tbl_get_def class_frame_refl)
  qed
qed

lemma append_classes_frame:
  assumes "append_classes sz txn b cs dcs = Inr txn'"
  shows "class_frame txn txn'" and "b = get_class_marker txn" and "get_class_marker txn' = Suc b"
proof -
  from assms obtain u v where b: "b = get_marker txn MkClass" and u: "write_classes sz cs txn = Inr u"
    and v: "write_deprecated_classes sz b dcs u = Inr v" and txn': "txn' = set_marker v MkClass (Suc b)"
    by (auto simp: append_classes_def res_bind_eq_Inr split: if_splits)
  have "class_frame txn u"
    by (rule fold_res_invariant [OF u [unfolded write_classes_def]])
      (auto intro: class_frame_refl class_frame_trans write_class_frame)
  moreover have "class_frame u v"
    by (rule fold_res_invariant [OF v [unfolded write_deprecated_classes_def]])
      (auto intro: class_frame_refl class_frame_trans write_deprecated_class_frame)
  moreover have "class_frame v txn'" by (simp add: class_frame_def txn')
  ultimately show "class_frame txn txn'" by (blast intro: class_frame_trans)
  show "b = get_class_marker txn" "get_class_marker txn' = Suc b"
    by (simp_all add: b txn' get_class_marker_def)
qed

lemma append_classes_spec:
  assumes wf: "classes_wf txn" and sz: "sizes_positive sz"
    and append: "append_classes sz txn b cs dcs = Inr txn'"
  shows "distinct (map fst cs) \<and> (\<forall>c \<in> fst ` set cs. get_class txn c = Inr None) \<and> classes_wf txn' \<and>
    (\<forall>c. get_class txn' c = (case map_of cs c of Some x \<Rightarrow> Inr (Some x) | None \<Rightarrow> get_class txn c)) \<and>
    (\<forall>c. get_deprecated_class txn' c =
      (if get_deprecated_class txn c = Inr None then Inr (map_of dcs c) else get_deprecated_class txn c))"
proof -
  from append obtain u v where u: "write_classes sz cs txn = Inr u"
    and v: "write_deprecated_classes sz b dcs u = Inr v" and txn': "txn' = set_marker v MkClass (Suc b)"
    by (auto simp: append_classes_def res_bind_eq_Inr split: if_splits)
  note s = write_classes_spec [OF wf sz u]
  then have "classes_wf u" by blast
  from write_deprecated_classes_spec [OF this sz, of b dcs] v
  have d: "classes_wf v" "\<And>c. get_class v c = get_class u c"
    "\<And>c. get_deprecated_class v c =
      (if get_deprecated_class u c = Inr None then Inr (map_of dcs c) else get_deprecated_class u c)" by auto
  have "classes_wf txn'" using d(1) by (simp add: classes_wf_def txn')
  moreover have "get_class txn' c = get_class v c" "get_deprecated_class txn' c = get_deprecated_class v c" for c
    by (simp_all add: txn' get_class_def get_contract_class_unchecked_def get_deprecated_class_def
        get_deprecated_contract_class_unchecked_def split: option.split)
  ultimately show ?thesis using s d by simp
qed

lemma get_class_eq_None:
  assumes "classes_wf txn"
  shows "get_class txn c = Inr None \<longleftrightarrow> fmlookup (tx_declared_classes txn) c = None"
proof (cases "fmlookup (tx_declared_classes txn) c")
  case (Some loc)
  then have "file_get (fs_contract_class (tx_file_handlers txn)) loc \<noteq> None"
    using assms by (auto simp: classes_wf_def classes_readable_def)
  with Some show ?thesis by (simp add: get_class_eq [OF assms])
qed (simp add: get_class_eq [OF assms])

lemma get_casm_eq_None:
  assumes "classes_wf txn"
  shows "get_casm txn c = Inr None \<longleftrightarrow> fmlookup (tx_casms txn) c = None"
proof (cases "fmlookup (tx_casms txn) c")
  case (Some loc)
  then have "file_get (fs_casm (tx_file_handlers txn)) loc \<noteq> None"
    using assms by (auto simp: classes_wf_def classes_readable_def)
  with Some show ?thesis by (simp add: get_casm_eq [OF assms])
qed (simp add: get_casm_eq [OF assms])

lemma append_classes_ok:
  assumes "classes_wf txn" and "sizes_positive sz"
    and "b = get_class_marker txn" and "distinct (map fst cs)" and "\<forall>c \<in> fst ` set cs. get_class txn c = Inr None"
  shows "\<exists>u. append_classes sz txn b cs dcs = Inr u"
proof -
  have "fmlookup (tx_declared_classes txn) c = None" if "c \<in> fst ` set cs" for c
    using bspec [OF assms(5) that] by (simp add: get_class_eq_None [OF assms(1)])
  then obtain u where u: "write_classes sz cs txn = Inr u"
    using write_classes_ok [OF assms(4), of txn] by blast
  with write_classes_spec [OF assms(1,2)] have "classes_wf u" by blast
  from write_deprecated_classes_spec [OF this assms(2), of b dcs] u assms(3) show ?thesis
    by (auto simp: append_classes_def get_class_marker_def)
qed

section \<open>The compiled class marker\<close>

text \<open>The classes in the order in which the diffs declare them.\<close>

definition declared_order :: "thin_state_diff list \<Rightarrow> class_hash list" where
  "declared_order ds = concat (map (\<lambda>d. map fst (tsd_declared_classes d)) ds)"

definition declared_before :: "thin_state_diff list \<Rightarrow> block_number \<Rightarrow> nat" where
  "declared_before ds m = length (declared_order (take m ds))"

text \<open>
  The first \<open>n\<close> declared classes are compiled, and the marker is the number of leading blocks all of
  whose classes are among them.
\<close>

definition casm_rel :: "storage_txn \<Rightarrow> thin_state_diff list \<Rightarrow> nat \<Rightarrow> bool" where
  "casm_rel txn ds n \<longleftrightarrow>
     distinct (declared_order ds) \<and> n \<le> length (declared_order ds) \<and>
     (\<forall>i < length (declared_order ds).
        fmlookup (tx_casms txn) (declared_order ds ! i) \<noteq> None \<longleftrightarrow> i < n) \<and>
     (let m = get_compiled_class_marker txn in
        m \<le> length ds \<and> declared_before ds m \<le> n \<and> (m < length ds \<longrightarrow> n < declared_before ds (Suc m)))"

lemma declared_order_simps [simp]:
  "declared_order [] = []"
  "declared_order (ds @ es) = declared_order ds @ declared_order es"
  "declared_order [d] = map fst (tsd_declared_classes d)"
  by (simp_all add: declared_order_def)

lemma declared_before_Suc:
  assumes "m < length ds"
  shows "declared_before ds (Suc m) = declared_before ds m + length (tsd_declared_classes (ds ! m))"
  using assms by (simp add: declared_before_def take_Suc_conv_app_nth)

lemma declared_before_length [simp]: "declared_before ds (length ds) = length (declared_order ds)"
  by (simp add: declared_before_def)

lemma declared_before_append: "m \<le> length ds \<Longrightarrow> declared_before (ds @ es) m = declared_before ds m"
  by (simp add: declared_before_def)

lemma declared_order_nth:
  assumes "m < length ds" and "j < length (tsd_declared_classes (ds ! m))"
  shows "declared_order ds ! (declared_before ds m + j) = fst (tsd_declared_classes (ds ! m) ! j)"
proof -
  have "ds = take m ds @ [ds ! m] @ drop (Suc m) ds"
    using assms(1) by (simp add: id_take_nth_drop)
  then have "declared_order ds = declared_order (take m ds) @ map fst (tsd_declared_classes (ds ! m)) @
      declared_order (drop (Suc m) ds)"
    by (metis declared_order_simps(2,3))
  then show ?thesis using assms(2) by (simp add: declared_before_def nth_append)
qed

lemma declared_before_le: "m \<le> length ds \<Longrightarrow> declared_before ds m \<le> length (declared_order ds)"
  by (metis append_take_drop_id declared_before_def declared_order_simps(2) le_add1 length_append)

text \<open>The loop of \<open>update_marker\<close> past blocks that do not declare the class.\<close>

lemma casm_loop_skip:
  assumes rel: "\<And>i. get_state_diff txn i = Inr (if i < length ds then Some (ds ! i) else None)"
    and "\<And>i. b \<le> i \<Longrightarrow> i < length ds \<Longrightarrow> class_hash \<notin> fst ` set (tsd_declared_classes (ds ! i))"
    and "b \<le> length ds"
  shows "\<exists>m. b \<le> m \<and> m \<le> length ds \<and>
    casm_marker_loop class_hash b txn = Inr (if m = b then txn else set_marker txn MkCompiledClass m) \<and>
    declared_before ds m = declared_before ds b \<and> (m < length ds \<longrightarrow> tsd_declared_classes (ds ! m) \<noteq> [])"
  using assms
proof (induction "length ds - b" arbitrary: b txn)
  case 0
  then have "b = length ds" by simp
  then have "tbl_get (tx_state_diffs txn) b = None"
    using 0(2) [of b] by (auto simp: get_state_diff_def res_bind_eq_Inr split: option.splits)
  then show ?case using 0 by (intro exI [of _ b]) (simp add: casm_marker_loop.simps)
next
  case (Suc k)
  then have lt: "b < length ds" by simp
  with Suc.prems(1) [of b] obtain loc where loc: "tbl_get (tx_state_diffs txn) b = Some loc"
    "get_thin_state_diff_unchecked txn loc = Inr (ds ! b)"
    by (auto simp: get_state_diff_def res_bind_eq_Inr split: option.splits)
  show ?case
  proof (cases "tsd_declared_classes (ds ! b) = []")
    case False
    then have "fst (last (tsd_declared_classes (ds ! b))) \<noteq> class_hash"
      using Suc.prems(2) [of b] lt last_in_set [OF False] by auto
    then show ?thesis using lt loc False by (intro exI [of _ b]) (simp add: casm_marker_loop.simps)
  next
    case True
    let ?u = "set_marker txn MkCompiledClass (Suc b)"
    have "\<exists>m. Suc b \<le> m \<and> m \<le> length ds \<and>
      casm_marker_loop class_hash (Suc b) ?u = Inr (if m = Suc b then ?u else set_marker ?u MkCompiledClass m) \<and>
      declared_before ds m = declared_before ds (Suc b) \<and> (m < length ds \<longrightarrow> tsd_declared_classes (ds ! m) \<noteq> [])"
      by (rule Suc.hyps(1)) (use Suc.hyps(2) Suc.prems lt in simp_all)
    then obtain m where m: "Suc b \<le> m" "m \<le> length ds"
      "casm_marker_loop class_hash (Suc b) ?u = Inr (if m = Suc b then ?u else set_marker ?u MkCompiledClass m)"
      "declared_before ds m = declared_before ds (Suc b)" "m < length ds \<longrightarrow> tsd_declared_classes (ds ! m) \<noteq> []"
      by blast
    have "casm_marker_loop class_hash (Suc b) ?u = Inr (set_marker txn MkCompiledClass m)"
      using m(3) by (cases "m = Suc b") simp_all
    then show ?thesis using m lt loc True declared_before_Suc [OF lt]
      by (intro exI [of _ m]) (simp add: casm_marker_loop.simps [of class_hash b])
  qed
qed

lemma declared_before_mono:
  assumes "i \<le> j" and "j \<le> length ds"
  shows "declared_before ds i \<le> declared_before ds j"
  using assms
proof (induction j)
  case (Suc j)
  then show ?case by (cases "i = Suc j") (simp_all add: declared_before_Suc)
qed simp

lemma casm_loop_spec:
  assumes diffs: "\<And>i. get_state_diff txn i = Inr (if i < length ds then Some (ds ! i) else None)"
    and distinct: "distinct (declared_order ds)"
    and m: "m < length ds" "declared_before ds m \<le> n" "n < declared_before ds (Suc m)"
  shows "\<exists>m'. m \<le> m' \<and> m' \<le> length ds \<and> declared_before ds m' \<le> Suc n \<and>
    (m' < length ds \<longrightarrow> Suc n < declared_before ds (Suc m')) \<and>
    casm_marker_loop (declared_order ds ! n) m txn =
      Inr (if m' = m then txn else set_marker txn MkCompiledClass m')"
proof -
  let ?c = "declared_order ds ! n" and ?l = "tsd_declared_classes (ds ! m)"
  define j where "j = n - declared_before ds m"
  have n: "n = declared_before ds m + j" and j: "j < length ?l"
    using m declared_before_Suc [OF m(1)] by (auto simp: j_def)
  have c: "?c = fst (?l ! j)" using declared_order_nth [OF m(1) j] by (simp add: n)
  have len: "declared_before ds (Suc m) \<le> length (declared_order ds)" using m(1) by (intro declared_before_le) simp
  have last: "fst (last ?l) = ?c \<longleftrightarrow> Suc j = length ?l"
  proof -
    obtain k where k: "length ?l = Suc k" using j by (cases "length ?l") auto
    then have "fst (last ?l) = declared_order ds ! (declared_before ds m + k)"
      using declared_order_nth [OF m(1), of k] by (subst last_conv_nth) auto
    moreover have "declared_before ds m + k < length (declared_order ds)"
      using len k by (simp add: declared_before_Suc [OF m(1)])
    ultimately show ?thesis
      using nth_eq_iff_index_eq [OF distinct, of "declared_before ds m + k" n] j by (auto simp: n k)
  qed
  have "get_state_diff txn m = Inr (Some (ds ! m))" using diffs m(1) by simp
  then obtain loc where loc: "tbl_get (tx_state_diffs txn) m = Some loc"
    "get_thin_state_diff_unchecked txn loc = Inr (ds ! m)"
    by (auto simp: get_state_diff_def res_bind_eq_Inr split: option.splits)
  show ?thesis
  proof (cases "Suc j = length ?l")
    case False
    then have "casm_marker_loop ?c m txn = Inr txn" using last j loc by (auto simp: casm_marker_loop.simps)
    then show ?thesis using False m j n declared_before_Suc [OF m(1)] by (intro exI [of _ m]) simp
  next
    case True
    let ?u = "set_marker txn MkCompiledClass (Suc m)"
    have later: "?c \<notin> fst ` set (tsd_declared_classes (ds ! i))" if i: "Suc m \<le> i" "i < length ds" for i
    proof
      assume "?c \<in> fst ` set (tsd_declared_classes (ds ! i))"
      then obtain k where k: "k < length (tsd_declared_classes (ds ! i))"
        "fst (tsd_declared_classes (ds ! i) ! k) = ?c" by (auto simp: in_set_conv_nth)
      then have "declared_order ds ! (declared_before ds i + k) = ?c" using declared_order_nth [OF i(2)] by simp
      moreover have "declared_before ds (Suc i) \<le> length (declared_order ds)"
        using i(2) by (intro declared_before_le) simp
      then have "declared_before ds i + k < length (declared_order ds)"
        using k(1) by (simp add: declared_before_Suc [OF i(2)])
      moreover have "n < declared_before ds i" using m(3) declared_before_mono [of "Suc m" i ds] i by simp
      ultimately show False
        using nth_eq_iff_index_eq [OF distinct, of "declared_before ds i + k" n] m(3) len by simp
    qed
    from casm_loop_skip [of ?u ds "Suc m" ?c] diffs later m(1) obtain m'
      where m': "Suc m \<le> m'" "m' \<le> length ds"
        "casm_marker_loop ?c (Suc m) ?u = Inr (if m' = Suc m then ?u else set_marker ?u MkCompiledClass m')"
        "declared_before ds m' = declared_before ds (Suc m)"
        "m' < length ds \<longrightarrow> tsd_declared_classes (ds ! m') \<noteq> []" by auto
    have "casm_marker_loop ?c (Suc m) ?u = Inr (set_marker txn MkCompiledClass m')"
      using m'(3) by (cases "m' = Suc m") simp_all
    then have "casm_marker_loop ?c m txn = Inr (set_marker txn MkCompiledClass m')"
      using last True loc by (simp add: casm_marker_loop.simps [of ?c m])
    moreover have "declared_before ds (Suc m) = Suc n" using True n declared_before_Suc [OF m(1)] by simp
    ultimately show ?thesis using m' by (intro exI [of _ m']) (simp add: declared_before_Suc)
  qed
qed

lemma append_casm_eq_Inr:
  assumes "file_append (sz_casm sz) (fs_casm (tx_file_handlers txn)) x = (f, loc)"
  shows "append_casm sz txn c x = Inr txn' \<longleftrightarrow>
    fmlookup (tx_casms txn) c = None \<and>
    casm_marker_loop c (get_marker txn MkCompiledClass)
      (set_file_offset (txn\<lparr>tx_file_handlers := (tx_file_handlers txn)\<lparr>fs_casm := f\<rparr>,
        tx_casms := fmupd c loc (tx_casms txn)\<rparr>) OkCasm loc) = Inr txn'"
proof -
  have "get_marker (txn\<lparr>tx_file_handlers := a, tx_casms := t\<rparr>) k = get_marker txn k" for a t k
    by (simp add: get_marker_def)
  then show ?thesis using assms
    by (simp add: append_casm_def append_casm_file_def compiled_update_marker_def Let_def res_bind_eq_Inr
        db_res_eq_Inr tbl_insert_eq_Inr)
qed

lemma append_casm_rel:
  assumes rel: "state_rel txn ds" and casm: "casm_rel txn ds n" and n: "n < length (declared_order ds)"
  shows "\<exists>txn'. append_casm sz txn (declared_order ds ! n) x = Inr txn' \<and>
    state_rel txn' ds \<and> casm_rel txn' ds (Suc n)"
proof -
  let ?c = "declared_order ds ! n" and ?m = "get_marker txn MkCompiledClass"
  obtain f loc where app: "file_append (sz_casm sz) (fs_casm (tx_file_handlers txn)) x = (f, loc)" by fastforce
  define u where "u = set_file_offset (txn\<lparr>tx_file_handlers := (tx_file_handlers txn)\<lparr>fs_casm := f\<rparr>,
      tx_casms := fmupd ?c loc (tx_casms txn)\<rparr>) OkCasm loc"
  have casm': "distinct (declared_order ds)"
    "\<And>i. i < length (declared_order ds) \<Longrightarrow> fmlookup (tx_casms txn) (declared_order ds ! i) \<noteq> None \<longleftrightarrow> i < n"
    "?m \<le> length ds" "declared_before ds ?m \<le> n" "?m < length ds \<Longrightarrow> n < declared_before ds (Suc ?m)"
    using casm by (simp_all add: casm_rel_def Let_def get_compiled_class_marker_def)
  have m: "?m < length ds" using casm'(3,4) n by (cases "?m = length ds") auto
  have um: "get_marker u k = get_marker txn k" for k by (simp add: u_def) (simp add: get_marker_def)
  have urel: "state_rel u ds" using rel unfolding state_rel_def um by (simp add: u_def set_file_offset_def)
  from casm_loop_spec [OF state_rel_diff [OF urel] casm'(1) m casm'(4) casm'(5) [OF m]] obtain m'
    where m': "?m \<le> m'" "m' \<le> length ds" "declared_before ds m' \<le> Suc n"
      "m' < length ds \<longrightarrow> Suc n < declared_before ds (Suc m')"
      "casm_marker_loop ?c ?m u = Inr (if m' = ?m then u else set_marker u MkCompiledClass m')" by blast
  define txn' where "txn' = (if m' = ?m then u else set_marker u MkCompiledClass m')"
  have marker: "get_marker txn' MkCompiledClass = m'" by (simp add: txn'_def um)
  have "state_rel txn' ds" using urel state_rel_set_compiled [OF urel m'(2)] by (simp add: txn'_def)
  moreover have "fmlookup (tx_casms txn') (declared_order ds ! i) \<noteq> None \<longleftrightarrow> i < Suc n"
    if i: "i < length (declared_order ds)" for i
  proof -
    have t: "tx_casms txn' = fmupd ?c loc (tx_casms txn)" by (simp add: txn'_def u_def set_file_offset_def)
    show ?thesis
      using casm'(2) [OF i] nth_eq_iff_index_eq [OF casm'(1) i n] by (cases "i = n") (auto simp: t)
  qed
  then have "casm_rel txn' ds (Suc n)"
    using casm'(1) m' n marker by (simp add: casm_rel_def Let_def get_compiled_class_marker_def)
  moreover have "append_casm sz txn ?c x = Inr txn'"
    unfolding append_casm_eq_Inr [OF app] using casm'(2) [OF n] m'(5) by (simp add: u_def txn'_def)
  ultimately show ?thesis by blast
qed

lemma casm_relD:
  assumes "casm_rel txn ds n"
  shows "distinct (declared_order ds)" and "n \<le> length (declared_order ds)"
    and "i < length (declared_order ds) \<Longrightarrow> fmlookup (tx_casms txn) (declared_order ds ! i) \<noteq> None \<longleftrightarrow> i < n"
    and "get_marker txn MkCompiledClass \<le> length ds"
    and "declared_before ds (get_marker txn MkCompiledClass) \<le> n"
    and "get_marker txn MkCompiledClass < length ds \<Longrightarrow>
      n < declared_before ds (Suc (get_marker txn MkCompiledClass))"
  using assms by (simp_all add: casm_rel_def Let_def get_compiled_class_marker_def)

lemma casm_relI:
  assumes "distinct (declared_order ds)" and "n \<le> length (declared_order ds)"
    and "\<And>i. i < length (declared_order ds) \<Longrightarrow>
      fmlookup (tx_casms txn) (declared_order ds ! i) \<noteq> None \<longleftrightarrow> i < n"
    and "get_marker txn MkCompiledClass \<le> length ds"
    and "declared_before ds (get_marker txn MkCompiledClass) \<le> n"
    and "get_marker txn MkCompiledClass < length ds \<Longrightarrow>
      n < declared_before ds (Suc (get_marker txn MkCompiledClass))"
  shows "casm_rel txn ds n"
  using assms by (simp add: casm_rel_def Let_def get_compiled_class_marker_def)

lemma declared_order_set: "set (declared_order ds) = (\<Union>d \<in> set ds. fst ` set (tsd_declared_classes d))"
  by (simp add: declared_order_def)

lemma append_state_diff_casm:
  assumes append: "append_state_diff sz txn b d = Inr txn'" and rel: "state_rel txn ds"
    and wf: "diff_wf d" and sz: "sizes_positive sz" and casm: "casm_rel txn ds n"
    and fresh: "\<And>c. c \<in> fst ` set (tsd_declared_classes d) \<Longrightarrow> fmlookup (tx_casms txn) c = None"
  shows "casm_rel txn' (ds @ [d]) n"
proof -
  note C = casm_relD [OF casm]
  let ?m = "get_marker txn MkCompiledClass" and ?m' = "get_marker txn' MkCompiledClass"
  from append_state_diff_rel [OF append rel wf sz] have new: "diff_new ds d" and rel': "state_rel txn' (ds @ [d])"
    and casms: "tx_casms txn' = tx_casms txn" and m: "?m \<le> ?m'"
    and skipped: "\<And>b. ?m \<le> b \<Longrightarrow> b < ?m' \<Longrightarrow> tsd_declared_classes ((ds @ [d]) ! b) = []"
    and stop: "?m' < length (ds @ [d]) \<longrightarrow> tsd_declared_classes ((ds @ [d]) ! ?m') \<noteq> []" by blast+
  have m'_le: "?m' \<le> length (ds @ [d])" by (rule state_relD(2) [OF rel'])
  show ?thesis
  proof (rule casm_relI)
    show "distinct (declared_order (ds @ [d]))"
    proof -
      have "set (declared_order ds) \<inter> fst ` set (tsd_declared_classes d) = {}"
        using new unfolding declared_order_set diff_new_def set_map by blast
      then show ?thesis using C(1) wf by (simp add: diff_wf_def)
    qed
    show "n \<le> length (declared_order (ds @ [d]))" using C(2) by simp
    show "fmlookup (tx_casms txn') (declared_order (ds @ [d]) ! i) \<noteq> None \<longleftrightarrow> i < n"
      if "i < length (declared_order (ds @ [d]))" for i
      using that C(2) C(3) [of i] fresh by (auto simp: casms nth_append)
    show "?m' \<le> length (ds @ [d])" by (rule m'_le)
    show "declared_before (ds @ [d]) ?m' \<le> n"
      and "?m' < length (ds @ [d]) \<Longrightarrow> n < declared_before (ds @ [d]) (Suc ?m')"
    proof -
      have "declared_before (ds @ [d]) ?m' \<le> n \<and>
        (?m' < length (ds @ [d]) \<longrightarrow> n < declared_before (ds @ [d]) (Suc ?m'))"
      proof (cases "?m < length ds")
        case True
        then have "tsd_declared_classes (ds ! ?m) \<noteq> []"
          using C(5) C(6) [OF True] declared_before_Suc [OF True] by auto
        then have "?m' = ?m" using skipped [of ?m] m True by (cases "?m' = ?m") (auto simp: nth_append)
        then show ?thesis using C(5) C(6) [OF True] True by (simp add: declared_before_append)
      next
        case False
        then have full: "?m = length ds" "n = length (declared_order ds)" using C(2,4,5) by auto
        show ?thesis
        proof (cases "?m' = length ds")
          case True
          then show ?thesis using full stop
            by (simp add: declared_before_append declared_before_Suc)
        next
          case False
          then have "?m' = length (ds @ [d])" using m m'_le full by simp
          moreover have "tsd_declared_classes d = []" using skipped [of "length ds"] full calculation by simp
          ultimately show ?thesis using full by (simp add: declared_before_Suc declared_before_append)
        qed
      qed
      then show "declared_before (ds @ [d]) ?m' \<le> n"
        and "?m' < length (ds @ [d]) \<Longrightarrow> n < declared_before (ds @ [d]) (Suc ?m')" by blast+
    qed
  qed
qed

lemma revert_state_diff_casm:
  assumes rel: "state_rel txn (ds @ [d])" and bound: "length ds < u64_max"
    and readable: "classes_readable txn"
    and stored: "\<And>c. c \<in> fst ` set (tsd_declared_classes d) \<Longrightarrow> fmlookup (tx_declared_classes txn) c \<noteq> None"
    and casm: "casm_rel txn (ds @ [d]) n"
  shows "\<exists>u deleted. revert_state_diff ord txn (length ds) = Inr (u, Some (d, deleted)) \<and> state_rel u ds \<and>
    casm_rel u ds (min n (length (declared_order ds)))"
proof -
  note C = casm_relD [OF casm]
  let ?cs = "map fst (tsd_declared_classes d)" and ?k = "length (declared_order ds)"
  have distinct: "distinct ?cs" and disj: "set (declared_order ds) \<inter> set ?cs = {}"
    using C(1) by simp_all
  from revert_state_diff_rel [OF rel bound readable distinct stored, of ord] obtain u deleted
    where revert: "revert_state_diff ord txn (length ds) = Inr (u, Some (d, deleted))" and urel: "state_rel u ds"
      and casms: "tx_casms u = casms_deleted ?cs (tx_casms txn)"
      and markers: "\<And>k. get_marker u k = get_marker (revert_markers txn (length ds)) k" by blast
  have "casm_rel u ds (min n ?k)"
  proof (rule casm_relI)
    show "distinct (declared_order ds)" "min n ?k \<le> ?k" using C(1) by simp_all
    show "fmlookup (tx_casms u) (declared_order ds ! i) \<noteq> None \<longleftrightarrow> i < min n ?k" if "i < ?k" for i
    proof -
      have "declared_order ds ! i \<notin> set ?cs" using that disj nth_mem by blast
      then have "declared_order ds ! i \<notin> set (takeWhile (\<lambda>c. fmlookup (tx_casms txn) c \<noteq> None) ?cs)"
        using set_takeWhileD by fastforce
      then have "fmlookup (tx_casms u) (declared_order ds ! i) = fmlookup (tx_casms txn) (declared_order ds ! i)"
        by (simp add: casms casms_deleted_def)
      then show ?thesis using C(3) [of i] that by (simp add: nth_append)
    qed
    have m: "get_marker u MkCompiledClass =
        (if get_marker txn MkCompiledClass = Suc (length ds) then length ds else get_marker txn MkCompiledClass)"
      by (simp add: markers)
    then show "get_marker u MkCompiledClass \<le> length ds" using C(4) by auto
    show "declared_before ds (get_marker u MkCompiledClass) \<le> min n ?k"
    proof (cases "get_marker txn MkCompiledClass = Suc (length ds)")
      case True
      then show ?thesis using C(5) by (simp add: m declared_before_def)
    next
      case False
      then have le: "get_marker txn MkCompiledClass \<le> length ds" using C(4) by simp
      then show ?thesis using C(5) False declared_before_le [OF le] by (simp add: m declared_before_append)
    qed
    show "min n ?k < declared_before ds (Suc (get_marker u MkCompiledClass))"
      if "get_marker u MkCompiledClass < length ds"
      using that C(6) by (auto simp: m declared_before_append min_def split: if_splits)
  qed
  then show ?thesis using revert urel by blast
qed

section \<open>Frames\<close>

lemma advance_loop_frame:
  assumes "advance_loop sm cm txn = Inr txn'"
  shows "tx_declared_classes txn' = tx_declared_classes txn \<and>
    tx_deprecated_declared_classes txn' = tx_deprecated_declared_classes txn \<and>
    tx_casms txn' = tx_casms txn \<and> tx_file_handlers txn' = tx_file_handlers txn \<and>
    get_marker txn' MkClass = get_marker txn MkClass"
  using assms
proof (induction sm cm txn rule: advance_loop.induct)
  case (1 sm cm txn)
  show ?case
  proof (cases "cm < sm")
    case True
    with 1(2) obtain loc d where loc: "tbl_get (tx_state_diffs txn) cm = Some loc"
      "get_thin_state_diff_unchecked txn loc = Inr d"
      by (auto simp: advance_loop.simps [of sm cm] res_bind_eq_Inr split: option.splits)
    show ?thesis
    proof (cases "tsd_declared_classes d = []")
      case empty: True
      from 1(1) [OF True loc] 1(2) True loc empty show ?thesis by (simp add: advance_loop.simps [of sm cm])
    qed (use 1(2) True loc in \<open>simp add: advance_loop.simps [of sm cm]\<close>)
  qed (use 1(2) in \<open>simp add: advance_loop.simps [of sm cm]\<close>)
qed

lemma append_state_diff_frame:
  assumes "append_state_diff sz txn b d = Inr txn'"
  shows "tx_declared_classes txn' = tx_declared_classes txn" and "classes_wf txn' = classes_wf txn"
    and "get_marker txn' MkClass = get_marker txn MkClass"
proof -
  obtain f loc where app: "file_append (sz_thin_state_diff sz) (fs_thin_state_diff (tx_file_handlers txn)) d = (f, loc)"
    by fastforce
  from assms [unfolded append_state_diff_eq_Inr [OF app]] obtain t1 t2 t3 t4 sm cm
    where "advance_loop sm cm (state_written txn b f loc t1 t2 t3 t4) = Inr txn'"
    by (auto simp: advance_compiled_class_marker_over_blocks_without_classes_def)
  note t = advance_loop_frame [OF this]
  then show "tx_declared_classes txn' = tx_declared_classes txn"
    by (simp add: state_written_def set_file_offset_def)
  show "classes_wf txn' = classes_wf txn"
    using t by (simp add: classes_wf_def classes_readable_def state_written_def set_file_offset_def)
  show "get_marker txn' MkClass = get_marker txn MkClass" using t by simp
qed

lemma casm_marker_loop_frame:
  assumes "casm_marker_loop c b txn = Inr txn'"
  shows "tx_casms txn' = tx_casms txn \<and> tx_file_handlers txn' = tx_file_handlers txn \<and>
    tx_declared_classes txn' = tx_declared_classes txn \<and>
    tx_deprecated_declared_classes txn' = tx_deprecated_declared_classes txn"
  using assms
proof (induction c b txn rule: casm_marker_loop.induct)
  case (1 c b txn)
  show ?case
  proof (cases "tbl_get (tx_state_diffs txn) b")
    case (Some loc)
    with 1(2) obtain d where d: "get_thin_state_diff_unchecked txn loc = Inr d"
      by (auto simp: casm_marker_loop.simps [of c b] res_bind_eq_Inr)
    show ?thesis
    proof (cases "tsd_declared_classes d \<noteq> [] \<and> fst (last (tsd_declared_classes d)) \<noteq> c")
      case False
      from 1(1) [OF Some d False] 1(2) Some d False show ?thesis by (simp add: casm_marker_loop.simps [of c b])
    qed (use 1(2) Some d in \<open>simp add: casm_marker_loop.simps [of c b]\<close>)
  qed (use 1(2) in \<open>simp add: casm_marker_loop.simps [of c b]\<close>)
qed

lemma append_casm_reads:
  assumes wf: "classes_wf txn" and sz: "sizes_positive sz" and append: "append_casm sz txn c x = Inr txn'"
  shows "classes_wf txn' \<and> get_casm txn' c' = (if c' = c then Inr (Some x) else get_casm txn c')"
proof -
  obtain f loc where app: "file_append (sz_casm sz) (fs_casm (tx_file_handlers txn)) x = (f, loc)" by fastforce
  note loop = append [unfolded append_casm_eq_Inr [OF app]]
  from casm_marker_loop_frame [OF conjunct2 [OF loop]]
  have t: "tx_casms txn' = fmupd c loc (tx_casms txn)"
    "tx_file_handlers txn' = (tx_file_handlers txn)\<lparr>fs_casm := f\<rparr>"
    "tx_declared_classes txn' = tx_declared_classes txn"
    "tx_deprecated_declared_classes txn' = tx_deprecated_declared_classes txn"
    by (simp_all add: set_file_offset_def)
  have fwf: "file_wf (fs_casm (tx_file_handlers txn))" using wf by (simp add: classes_wf_def)
  have "file_wf f" by (rule file_append_wf [OF fwf _ app]) (use sz in \<open>simp add: sizes_positive_def\<close>)
  moreover have "classes_readable txn'"
    using wf file_append_get [OF app] file_append_same [OF app fwf]
    by (auto simp: classes_wf_def classes_readable_def t)
  ultimately have wf': "classes_wf txn'" using wf by (simp add: classes_wf_def t)
  have "get_casm txn' c' = get_casm txn c'" if "c' \<noteq> c"
  proof -
    have "fmlookup (tx_casms txn) c' = Some l \<Longrightarrow> file_get (fs_casm (tx_file_handlers txn)) l \<noteq> None" for l
      using wf by (auto simp: classes_wf_def classes_readable_def)
    with file_append_same [OF app fwf] that show ?thesis
      unfolding get_casm_eq [OF wf'] get_casm_eq [OF wf] t
      by (cases "fmlookup (tx_casms txn) c'") simp_all
  qed
  moreover have "get_casm txn' c = Inr (Some x)"
    unfolding get_casm_eq [OF wf'] t by (simp add: file_append_get [OF app])
  ultimately show ?thesis using wf' by simp
qed

section \<open>Properties\<close>

text \<open>
  \<^bold>\<open>C32.\<close> Storing the classes of a block: \<open>append_classes\<close> succeeds exactly at the class marker with
  class hashes that are new and distinct; afterwards every class is read back by its hash, a
  deprecated class only if none was stored under its hash before, and no other class changes.
\<close>

theorem classes_append_reads:
  assumes "classes_wf txn" and "sizes_positive sz"
  shows "case append_classes sz txn b cs dcs of
      Inr txn' \<Rightarrow>
        b = get_class_marker txn \<and> distinct (map fst cs) \<and> (\<forall>c \<in> fst ` set cs. get_class txn c = Inr None) \<and>
        get_class_marker txn' = Suc b \<and> classes_wf txn' \<and>
        (\<forall>c. get_class txn' c = (case map_of cs c of Some x \<Rightarrow> Inr (Some x) | None \<Rightarrow> get_class txn c)) \<and>
        (\<forall>c. get_deprecated_class txn' c =
          (if get_deprecated_class txn c = Inr None then Inr (map_of dcs c) else get_deprecated_class txn c))
    | Inl _ \<Rightarrow> \<not> (b = get_class_marker txn \<and> distinct (map fst cs) \<and>
        (\<forall>c \<in> fst ` set cs. get_class txn c = Inr None))"
proof (cases "append_classes sz txn b cs dcs")
  case (Inr txn')
  from append_classes_spec [OF assms this] append_classes_frame(2,3) [OF this] show ?thesis
    unfolding Inr sum.case by blast
next
  case (Inl e)
  then show ?thesis using append_classes_ok [OF assms, of b cs dcs] unfolding Inl sum.case by fastforce
qed

theorem classes_append_reads_witness:
  "\<exists>u. append_classes demo_sizes (empty_txn FullArchive) 0 [(50, 5), (51, 6)] [(60, 7), (60, 8)] = Inr u \<and>
     get_class u 50 = Inr (Some 5) \<and> get_class u 52 = Inr None \<and> get_deprecated_class u 60 = Inr (Some 7)"
proof -
  have none: "get_class (empty_txn FullArchive) c = Inr None" "get_deprecated_class (empty_txn FullArchive) c = Inr None"
    "get_class_marker (empty_txn FullArchive) = 0" for c
    by (simp_all add: get_class_marker_def) (simp_all add: get_class_def get_deprecated_class_def empty_txn_def tbl_get_def)
  show ?thesis
    using classes_append_reads [OF classes_wf_empty [of FullArchive] sizes_positive_demo, of 0 "[(50, 5), (51, 6)]"
        "[(60, 7), (60, 8)]"] none
    by (auto split: sum.splits)
qed


lemma casm_rel_empty: "casm_rel (empty_txn scope) [] 0"
  by (rule casm_relI) (simp_all add: declared_before_def)

lemma demo_casm_state:
  "\<exists>u. append_state_diff demo_sizes (empty_txn FullArchive) 0 demo_diff = Inr u \<and>
     state_rel u [demo_diff] \<and> casm_rel u [demo_diff] 0 \<and> classes_wf u"
proof -
  from append_demo_diffs obtain u
    where u: "append_state_diff demo_sizes (empty_txn FullArchive) 0 demo_diff = Inr u" "state_rel u [demo_diff]"
    by blast
  have "casm_rel u ([] @ [demo_diff]) 0"
    by (rule append_state_diff_casm [OF u(1) state_rel_empty demo_diff_wf(1) sizes_positive_demo casm_rel_empty])
      (simp add: empty_txn_def)
  moreover have "classes_wf u" using append_state_diff_frame(2) [OF u(1)] classes_wf_empty by simp
  ultimately show ?thesis using u by simp
qed


text \<open>
  \<^bold>\<open>C24.\<close> A block of state can be reverted: after appending a state diff and the classes it declares,
  \<open>revert_state_diff\<close> returns the diff, restores the state of the diffs before it, their declaring
  blocks and versioned tables, and the exactness of the compiled class marker.
\<close>

theorem state_revert_roundtrip:
  assumes "state_rel txn ds" and "casm_rel txn ds n" and "classes_wf txn" and "diff_wf d" and "sizes_positive sz"
    and "append_state_diff sz txn b d = Inr u" and "append_classes sz u b cs dcs = Inr v"
    and "fst ` set (tsd_declared_classes d) \<subseteq> fst ` set cs"
    and "\<forall>c \<in> fst ` set (tsd_declared_classes d). get_casm txn c = Inr None" and "b < u64_max"
  shows "\<exists>w deleted. revert_state_diff ord v b = Inr (w, Some (d, deleted)) \<and> state_rel w ds \<and> casm_rel w ds n"
proof -
  have b: "b = length ds" and urel: "state_rel u (ds @ [d])"
    using append_state_diff_rel [OF assms(6,1,4,5)] by blast+
  note frame = append_classes_frame(1) [OF assms(7)]
  have vrel: "state_rel v (ds @ [d])" using urel class_frame_state_rel [OF frame] by simp
  have uwf: "classes_wf u" using append_state_diff_frame(2) [OF assms(6)] assms(3) by simp
  note classes = append_classes_spec [OF uwf assms(5,7)]
  then have vwf: "classes_wf v" by blast
  have "fmlookup (tx_casms txn) c = None" if "c \<in> fst ` set (tsd_declared_classes d)" for c
    using bspec [OF assms(9) that] by (simp add: get_casm_eq_None [OF assms(3)])
  from append_state_diff_casm [OF assms(6,1,4,5,2) this] have "casm_rel u (ds @ [d]) n" .
  moreover have "tx_casms v = tx_casms u" using frame by (simp add: class_frame_def)
  moreover have "get_marker v MkCompiledClass = get_marker u MkCompiledClass"
    using frame by (simp add: class_frame_def)
  ultimately have casm: "casm_rel v (ds @ [d]) n" by (simp add: casm_rel_def get_compiled_class_marker_def)
  have "fmlookup (tx_declared_classes v) c \<noteq> None" if "c \<in> fst ` set (tsd_declared_classes d)" for c
  proof -
    have "map_of cs c \<noteq> None" using that assms(8) unfolding map_of_eq_None_iff by blast
    then have "get_class v c \<noteq> Inr None" using classes by auto
    then show ?thesis by (simp add: get_class_eq_None [OF vwf])
  qed
  from revert_state_diff_casm [OF vrel _ _ this casm, of ord] vwf assms(10) b
  show ?thesis using casm_relD(2) [OF assms(2)] by (auto simp: classes_wf_def min_def)
qed

theorem state_revert_roundtrip_witness:
  "\<exists>u v w deleted. append_state_diff demo_sizes (empty_txn FullArchive) 0 demo_diff = Inr u \<and>
     append_classes demo_sizes u 0 [(50, 5)] [] = Inr v \<and>
     revert_state_diff sorted_list_of_set v 0 = Inr (w, Some (demo_diff, deleted)) \<and> state_rel w []"
proof -
  from append_demo_diffs obtain u
    where u: "append_state_diff demo_sizes (empty_txn FullArchive) 0 demo_diff = Inr u" by blast
  have wf: "classes_wf u" using append_state_diff_frame(2) [OF u] classes_wf_empty by simp
  have "get_class u c = Inr None" for c
    by (simp add: get_class_eq_None [OF wf] append_state_diff_frame(1) [OF u]) (simp add: empty_txn_def)
  moreover have "get_class_marker u = 0"
    using append_state_diff_frame(3) [OF u] by (simp add: get_class_marker_def)
  ultimately obtain v where v: "append_classes demo_sizes u 0 [(50, 5)] [] = Inr v"
    using append_classes_ok [OF wf sizes_positive_demo, of 0 "[(50, 5)]" "[]"] by auto
  have "get_casm (empty_txn FullArchive) c = Inr None" for c
    by (simp add: get_casm_def tbl_get_def empty_txn_def)
  with state_revert_roundtrip [OF state_rel_empty casm_rel_empty classes_wf_empty demo_diff_wf(1) sizes_positive_demo u v,
      of sorted_list_of_set] u v
  show ?thesis by (fastforce simp: demo_diff_def u64_max_def)
qed



end
