(* ===== verification/Storage_Header.thy ===== *)
theory Storage_Header
  imports Storage_Txn
begin

text \<open>
  Block headers: \<open>crates/papyrus_storage/src/header.rs\<close>. The header marker is the number of headers
  stored; headers are appended at the marker and only the last one can be reverted. The Starknet
  version of a block is stored only where it changes and looked up as the last entry at or before
  the block.

  \<open>header_wf\<close> is what the module keeps; with it no read can reach the \<open>unreachable!\<close>, what is
  appended is read back, and a revert undoes an append exactly.
\<close>

section \<open>Reading\<close>

definition get_header_marker :: "storage_txn \<Rightarrow> block_number" where
  "get_header_marker txn = get_marker txn MkHeader"

definition get_starknet_version :: "storage_txn \<Rightarrow> block_number \<Rightarrow> starknet_version option sresult" where
  "get_starknet_version txn b =
     (if get_header_marker txn \<le> b then Inr None
      else case bn_next b of
          None \<Rightarrow> Inr None
        | Some next_block_number \<Rightarrow>
            (case tbl_before (tx_starknet_version txn) next_block_number of
               Some (_, v) \<Rightarrow> Inr (Some v)
             | None \<Rightarrow> Inl (SPanic ''starknet_version_table should have at least a single mapping'')))"

definition of_storage_header :: "storage_block_header \<Rightarrow> starknet_version \<Rightarrow> block_header" where
  "of_storage_header h v =
     \<lparr>sbh_block_hash = sbh_block_hash h,
      sbh_parent_hash = sbh_parent_hash h,
      sbh_block_number = sbh_block_number h,
      sbh_l1_gas_price = sbh_l1_gas_price h,
      sbh_l1_data_gas_price = sbh_l1_data_gas_price h,
      sbh_state_root = sbh_state_root h,
      sbh_sequencer = sbh_sequencer h,
      sbh_timestamp = sbh_timestamp h,
      sbh_l1_da_mode = sbh_l1_da_mode h,
      sbh_state_diff_commitment = sbh_state_diff_commitment h,
      sbh_transaction_commitment = sbh_transaction_commitment h,
      sbh_event_commitment = sbh_event_commitment h,
      sbh_receipt_commitment = sbh_receipt_commitment h,
      sbh_state_diff_length = sbh_state_diff_length h,
      sbh_n_transactions = sbh_n_transactions h,
      sbh_n_events = sbh_n_events h,
      bh_starknet_version = v\<rparr>"

definition get_block_header :: "storage_txn \<Rightarrow> block_number \<Rightarrow> block_header option sresult" where
  "get_block_header txn b =
     (case tbl_get (tx_headers txn) b of
        None \<Rightarrow> Inr None
      | Some h \<Rightarrow>
          res_bind (get_starknet_version txn b) (\<lambda>v.
            case v of None \<Rightarrow> Inr None | Some v \<Rightarrow> Inr (Some (of_storage_header h v))))"

definition get_block_number_by_hash :: "storage_txn \<Rightarrow> block_hash \<Rightarrow> block_number option" where
  "get_block_number_by_hash txn h = tbl_get (tx_block_hash_to_number txn) h"

definition get_block_signature :: "storage_txn \<Rightarrow> block_number \<Rightarrow> block_signature option" where
  "get_block_signature txn b = tbl_get (tx_block_signatures txn) b"

section \<open>Writing\<close>

definition header_update_marker :: "storage_txn \<Rightarrow> block_number \<Rightarrow> storage_txn sresult" where
  "header_update_marker txn b =
     (if get_marker txn MkHeader \<noteq> b then Inl (SErr (MarkerMismatch (get_marker txn MkHeader) b))
      else Inr (set_marker txn MkHeader (Suc b)))"

definition update_hash_mapping ::
  "storage_txn \<Rightarrow> storage_block_header \<Rightarrow> block_number \<Rightarrow> storage_txn sresult" where
  "update_hash_mapping txn h b =
     res_bind (db_res (tbl_insert ''block_hash_to_number'' (tx_block_hash_to_number txn) (sbh_block_hash h) b))
       (\<lambda>t. Inr (txn\<lparr>tx_block_hash_to_number := t\<rparr>))"

definition update_starknet_version ::
  "storage_txn \<Rightarrow> block_number \<Rightarrow> starknet_version \<Rightarrow> storage_txn sresult" where
  "update_starknet_version txn b v =
     (let insert = res_bind (db_res (tbl_insert ''starknet_version'' (tx_starknet_version txn) b v))
            (\<lambda>t. Inr (txn\<lparr>tx_starknet_version := t\<rparr>))
      in case tbl_before (tx_starknet_version txn) b of
           Some (_, last_v) \<Rightarrow> if last_v = v then Inr txn else insert
         | None \<Rightarrow> insert)"

definition to_storage_header :: "block_header \<Rightarrow> storage_block_header" where
  "to_storage_header h =
     \<lparr>sbh_block_hash = sbh_block_hash h,
      sbh_parent_hash = sbh_parent_hash h,
      sbh_block_number = sbh_block_number h,
      sbh_l1_gas_price = sbh_l1_gas_price h,
      sbh_l1_data_gas_price = sbh_l1_data_gas_price h,
      sbh_state_root = sbh_state_root h,
      sbh_sequencer = sbh_sequencer h,
      sbh_timestamp = sbh_timestamp h,
      sbh_l1_da_mode = sbh_l1_da_mode h,
      sbh_state_diff_commitment = sbh_state_diff_commitment h,
      sbh_transaction_commitment = sbh_transaction_commitment h,
      sbh_event_commitment = sbh_event_commitment h,
      sbh_receipt_commitment = sbh_receipt_commitment h,
      sbh_state_diff_length = sbh_state_diff_length h,
      sbh_n_transactions = sbh_n_transactions h,
      sbh_n_events = sbh_n_events h\<rparr>"

definition append_header :: "storage_txn \<Rightarrow> block_number \<Rightarrow> block_header \<Rightarrow> storage_txn sresult" where
  "append_header txn b h =
     res_bind (header_update_marker txn b) (\<lambda>txn.
       let sh = to_storage_header h in
       res_bind (db_res (tbl_append (tx_headers txn) b sh)) (\<lambda>t.
         let txn = txn\<lparr>tx_headers := t\<rparr> in
         res_bind (update_hash_mapping txn sh b) (\<lambda>txn.
           update_starknet_version txn b (bh_starknet_version h))))"

definition revert_header ::
  "storage_txn \<Rightarrow> block_number \<Rightarrow> (storage_txn \<times> block_header option \<times> block_signature option) sresult" where
  "revert_header txn b =
     (case bn_next b of
        None \<Rightarrow> Inr (txn, None, None)
      | Some next_block_number \<Rightarrow>
          if next_block_number \<noteq> get_header_marker txn then Inr (txn, None, None)
          else case tbl_get (tx_headers txn) b of
              None \<Rightarrow> Inl (SPanic ''Missing header'')
            | Some h \<Rightarrow>
                let txn = set_marker txn MkHeader b;
                    txn = txn\<lparr>tx_headers := tbl_delete (tx_headers txn) b\<rparr>;
                    txn = txn\<lparr>tx_block_hash_to_number :=
                              tbl_delete (tx_block_hash_to_number txn) (sbh_block_hash h)\<rparr>
                in case tbl_before (tx_starknet_version txn) next_block_number of
                     None \<Rightarrow> Inl (SPanic ''starknet_version_table should have at least a single mapping'')
                   | Some (_, v) \<Rightarrow>
                       let txn = txn\<lparr>tx_starknet_version := tbl_delete (tx_starknet_version txn) b\<rparr>;
                           sig = tbl_get (tx_block_signatures txn) b;
                           txn = (if sig \<noteq> None
                                  then txn\<lparr>tx_block_signatures := tbl_delete (tx_block_signatures txn) b\<rparr>
                                  else txn)
                       in Inr (txn, Some (of_storage_header h v), sig))"

definition append_block_signature ::
  "storage_txn \<Rightarrow> block_number \<Rightarrow> block_signature \<Rightarrow> storage_txn sresult" where
  "append_block_signature txn b sig =
     (if get_header_marker txn \<le> b then Inl (SErr (BlockSignatureForNonExistingBlock b sig))
      else res_bind (db_res (tbl_insert ''block_signatures'' (tx_block_signatures txn) b sig))
             (\<lambda>t. Inr (txn\<lparr>tx_block_signatures := t\<rparr>)))"

section \<open>What the module keeps\<close>

definition header_wf :: "storage_txn \<Rightarrow> bool" where
  "header_wf txn \<longleftrightarrow>
     (\<forall>b. b |\<in>| fmdom (tx_headers txn) \<longleftrightarrow> b < get_header_marker txn) \<and>
     (\<forall>b. b |\<in>| fmdom (tx_starknet_version txn) \<longrightarrow> b < get_header_marker txn) \<and>
     (0 < get_header_marker txn \<longrightarrow> 0 |\<in>| fmdom (tx_starknet_version txn)) \<and>
     (\<forall>b. b |\<in>| fmdom (tx_block_signatures txn) \<longrightarrow> b < get_header_marker txn) \<and>
     (\<forall>h b. fmlookup (tx_block_hash_to_number txn) h = Some b \<longleftrightarrow>
        (\<exists>sh. fmlookup (tx_headers txn) b = Some sh \<and> sbh_block_hash sh = h))"

lemma header_wfI:
  assumes "get_header_marker txn = m"
    and "\<And>b. b |\<in>| fmdom (tx_headers txn) \<longleftrightarrow> b < m"
    and "\<And>b. b |\<in>| fmdom (tx_starknet_version txn) \<Longrightarrow> b < m"
    and "0 < m \<Longrightarrow> 0 |\<in>| fmdom (tx_starknet_version txn)"
    and "\<And>b. b |\<in>| fmdom (tx_block_signatures txn) \<Longrightarrow> b < m"
    and "\<And>h b. fmlookup (tx_block_hash_to_number txn) h = Some b \<longleftrightarrow>
       (\<exists>sh. fmlookup (tx_headers txn) b = Some sh \<and> sbh_block_hash sh = h)"
  shows "header_wf txn"
  unfolding header_wf_def assms(1) using assms(2-) by blast

lemma header_wfD:
  assumes "header_wf txn" and "get_header_marker txn = m"
  shows "b |\<in>| fmdom (tx_headers txn) \<longleftrightarrow> b < m"
    and "b |\<in>| fmdom (tx_starknet_version txn) \<Longrightarrow> b < m"
    and "0 < m \<Longrightarrow> 0 |\<in>| fmdom (tx_starknet_version txn)"
    and "b |\<in>| fmdom (tx_block_signatures txn) \<Longrightarrow> b < m"
    and "fmlookup (tx_block_hash_to_number txn) h = Some b \<longleftrightarrow>
       (\<exists>sh. fmlookup (tx_headers txn) b = Some sh \<and> sbh_block_hash sh = h)"
  using assms(1) unfolding header_wf_def assms(2) by blast+

lemma of_to_storage_header [simp]: "of_storage_header (to_storage_header h) (bh_starknet_version h) = h"
  by (simp add: of_storage_header_def to_storage_header_def)

lemma to_storage_header_hash [simp]: "sbh_block_hash (to_storage_header h) = sbh_block_hash h"
  by (simp add: to_storage_header_def)

text \<open>The version table after an append: a new entry only where the version changes.\<close>

definition version_table ::
  "(block_number, starknet_version) table \<Rightarrow> block_number \<Rightarrow> starknet_version \<Rightarrow>
   (block_number, starknet_version) table" where
  "version_table t b v =
     (case tbl_before t b of
        Some (_, v') \<Rightarrow> if v' = v then t else fmupd b v t
      | None \<Rightarrow> fmupd b v t)"

lemma append_header_eq_Inr:
  assumes "append_header txn b h = Inr txn'"
  shows "get_header_marker txn = b" and "fmlookup (tx_block_hash_to_number txn) (sbh_block_hash h) = None"
    and "txn' = (set_marker txn MkHeader (Suc b))\<lparr>
      tx_headers := fmupd b (to_storage_header h) (tx_headers txn),
      tx_block_hash_to_number := fmupd (sbh_block_hash h) b (tx_block_hash_to_number txn),
      tx_starknet_version := version_table (tx_starknet_version txn) b (bh_starknet_version h)\<rparr>"
  using assms
  by (auto simp: append_header_def header_update_marker_def update_hash_mapping_def
      update_starknet_version_def version_table_def get_header_marker_def set_marker_def res_simps Let_def
      split: if_splits option.splits)

lemma append_header_ok:
  assumes "header_wf txn" and "get_header_marker txn = b"
    and "fmlookup (tx_block_hash_to_number txn) (sbh_block_hash h) = None"
  shows "append_header txn b h = Inr ((set_marker txn MkHeader (Suc b))\<lparr>
      tx_headers := fmupd b (to_storage_header h) (tx_headers txn),
      tx_block_hash_to_number := fmupd (sbh_block_hash h) b (tx_block_hash_to_number txn),
      tx_starknet_version := version_table (tx_starknet_version txn) b (bh_starknet_version h)\<rparr>)"
proof -
  have "\<forall>k. k |\<in>| fmdom (tx_headers txn) \<longrightarrow> k \<le> b" using assms(1,2) by (auto simp: header_wf_def)
  moreover have "fmlookup (tx_starknet_version txn) b = None"
    using assms(1,2) by (auto simp: header_wf_def)
  ultimately show ?thesis using assms(2,3)
    by (auto simp: append_header_def header_update_marker_def update_hash_mapping_def
        update_starknet_version_def version_table_def get_header_marker_def set_marker_def
        tbl_insert_def tbl_append_def tbl_get_def Let_def split: option.splits)
qed

lemma get_header_marker_simps [simp]:
  "get_header_marker (txn\<lparr>tx_headers := a\<rparr>) = get_header_marker txn"
  "get_header_marker (txn\<lparr>tx_block_hash_to_number := c\<rparr>) = get_header_marker txn"
  "get_header_marker (txn\<lparr>tx_starknet_version := d\<rparr>) = get_header_marker txn"
  "get_header_marker (txn\<lparr>tx_block_signatures := e\<rparr>) = get_header_marker txn"
  "get_header_marker (set_marker txn k m) = (if k = MkHeader then m else get_header_marker txn)"
  by (simp_all add: get_header_marker_def) (simp_all add: get_marker_def)

lemma version_table_dom:
  "k |\<in>| fmdom (version_table t b v) \<Longrightarrow> k = b \<or> k |\<in>| fmdom t"
  "k |\<in>| fmdom t \<Longrightarrow> k |\<in>| fmdom (version_table t b v)"
  by (auto simp: version_table_def split: option.splits if_splits)

lemma version_table_before:
  assumes "\<And>k. k |\<in>| fmdom t \<Longrightarrow> k < b"
  shows "tbl_before (version_table t b v) (Suc b) \<noteq> None"
    and "tbl_before (version_table t b v) (Suc b) = Some e \<Longrightarrow> snd e = v"
    and "k \<le> b \<Longrightarrow> tbl_before (version_table t b v) k = tbl_before t k"
proof -
  have up: "tbl_before (fmupd b v t) (Suc b) = Some (b, v)"
    using assms by (auto simp: tbl_before_eq_Some less_Suc_eq_le dest: less_imp_le)
  have skip: "tbl_before t (Suc b) = tbl_before t b"
  proof (rule tbl.before_skip)
    fix k assume "tbl_get t k \<noteq> None" "b \<le> k"
    then show "\<not> k < Suc b" using assms [of k] by (auto simp: tbl_get_def dest: fmdomI)
  qed simp
  show "tbl_before (version_table t b v) (Suc b) \<noteq> None"
    and "tbl_before (version_table t b v) (Suc b) = Some e \<Longrightarrow> snd e = v"
    by (auto simp: version_table_def up skip split: option.splits if_splits)
  show "k \<le> b \<Longrightarrow> tbl_before (version_table t b v) k = tbl_before t k"
    using tbl.before_put_later [of k b t v]
    by (auto simp: version_table_def tbl_upsert_def split: option.splits)
qed

lemma append_header_wf [inv_intros]:
  assumes "header_wf txn" and "append_header txn b h = Inr txn'"
  shows "header_wf txn'"
proof (rule header_wfI)
  note app = append_header_eq_Inr [OF assms(2)]
  let ?v = "version_table (tx_starknet_version txn) b (bh_starknet_version h)"
  note wf = header_wfD [OF assms(1) app(1)]
  show "get_header_marker txn' = Suc b" by (simp add: app(3))
  have t: "tx_headers txn' = fmupd b (to_storage_header h) (tx_headers txn)"
    "tx_block_hash_to_number txn' = fmupd (sbh_block_hash h) b (tx_block_hash_to_number txn)"
    "tx_starknet_version txn' = ?v" "tx_block_signatures txn' = tx_block_signatures txn"
    by (simp_all add: app(3) set_marker_def)
  show "k |\<in>| fmdom (tx_headers txn') \<longleftrightarrow> k < Suc b" for k using wf(1) [of k] by (auto simp: t)
  show "k < Suc b" if "k |\<in>| fmdom (tx_block_signatures txn')" for k using wf(4) [of k] that by (simp add: t)
  show "k < Suc b" if "k |\<in>| fmdom (tx_starknet_version txn')" for k
    using version_table_dom(1) [OF that [unfolded t]] wf(2) [of k] by auto
  show "0 |\<in>| fmdom (tx_starknet_version txn')"
  proof (cases "b = 0")
    case True
    then have "tbl_before (tx_starknet_version txn) b = None" by (simp add: tbl_before_eq_None)
    then show ?thesis using True by (simp add: version_table_def t)
  qed (auto simp: t intro: version_table_dom(2) wf(3))
  have none: "fmlookup (tx_headers txn) b = None" using wf(1) [of b] by (simp add: fmdom_notD)
  show "fmlookup (tx_block_hash_to_number txn') h' = Some k \<longleftrightarrow>
      (\<exists>sh. fmlookup (tx_headers txn') k = Some sh \<and> sbh_block_hash sh = h')" for h' k
  proof (cases "k = b")
    case True
    with wf(5) [of h' b] none show ?thesis by (auto simp: t)
  next
    case False
    with wf(5) [of h' k] app(2) show ?thesis by (auto simp: t)
  qed
qed

lemma header_wf_header:
  assumes "header_wf txn" and "b < get_header_marker txn"
  obtains sh where "fmlookup (tx_headers txn) b = Some sh"
proof -
  have "b |\<in>| fmdom (tx_headers txn)" using assms by (simp add: header_wf_def)
  then show ?thesis using that by (auto simp: fmlookup_dom_iff)
qed

lemma header_wf_version:
  assumes "header_wf txn" and "b < get_header_marker txn"
  shows "\<exists>k v. tbl_before (tx_starknet_version txn) (Suc b) = Some (k, v)"
proof (cases "tbl_before (tx_starknet_version txn) (Suc b)")
  case None
  moreover have "0 |\<in>| fmdom (tx_starknet_version txn)"
    using header_wfD(3) [OF assms(1) refl] assms(2) by simp
  ultimately show ?thesis by (auto simp: tbl_before_eq_None)
qed auto

lemma get_block_header_total:
  assumes "header_wf txn" and "b < u64_max"
  shows "\<exists>r. get_block_header txn b = Inr r \<and> (r \<noteq> None \<longleftrightarrow> b < get_header_marker txn)"
proof (cases "b < get_header_marker txn")
  case True
  from header_wf_header [OF assms(1) this] obtain sh where "fmlookup (tx_headers txn) b = Some sh" .
  with header_wf_version [OF assms(1) True] True assms(2) show ?thesis
    by (auto simp: get_block_header_def get_starknet_version_def tbl_get_def bn_next_def)
next
  case False
  then have "fmlookup (tx_headers txn) b = None" using assms(1) by (auto simp: header_wf_def)
  with False show ?thesis by (simp add: get_block_header_def tbl_get_def)
qed

lemma append_header_get:
  assumes "header_wf txn" and "append_header txn b h = Inr txn'" and "b < u64_max"
  shows "get_block_header txn' k = (if k = b then Inr (Some h) else get_block_header txn k)"
proof -
  note app = append_header_eq_Inr [OF assms(2)]
  let ?v = "version_table (tx_starknet_version txn) b (bh_starknet_version h)"
  have dom: "\<And>k. k |\<in>| fmdom (tx_starknet_version txn) \<Longrightarrow> k < b"
    and hdom: "\<And>k. k |\<in>| fmdom (tx_headers txn) \<Longrightarrow> k < b"
    using assms(1) app(1) by (simp_all add: header_wf_def)
  have m: "get_header_marker txn' = Suc b" by (simp add: app(3))
  have t: "tx_headers txn' = fmupd b (to_storage_header h) (tx_headers txn)" "tx_starknet_version txn' = ?v"
    by (simp_all add: app(3) set_marker_def)
  obtain e where e: "tbl_before ?v (Suc b) = Some e" "snd e = bh_starknet_version h"
    using version_table_before(1,2) [OF dom] by (metis not_None_eq)
  show ?thesis
  proof (cases "k = b")
    case True
    then show ?thesis using e assms(3)
      by (cases e) (simp add: get_block_header_def get_starknet_version_def m t tbl_get_def bn_next_def)
  next
    case False
    have "get_starknet_version txn' k = get_starknet_version txn k" if "k < b"
      using that version_table_before(3) [where k = "Suc k", OF dom] app(1)
      by (simp add: get_starknet_version_def m t bn_next_def)
    then show ?thesis using False hdom [of k]
      by (cases "fmlookup (tx_headers txn) k") (auto simp: get_block_header_def t tbl_get_def dest: fmdomI)
  qed
qed

lemma version_table_delete:
  assumes "\<And>k. k |\<in>| fmdom t \<Longrightarrow> k < b"
  shows "fmdrop b (version_table t b v) = t"
proof -
  have "fmlookup t b = None" using assms [of b] by (meson fmdom_notD less_irrefl)
  then show ?thesis by (auto simp: version_table_def intro!: fmap_ext split: option.splits)
qed

lemma append_revert_header:
  assumes "header_wf txn" and "append_header txn b h = Inr txn'" and "b < u64_max"
  shows "revert_header txn' b = Inr (set_marker txn MkHeader b, Some h, None)"
proof -
  note app = append_header_eq_Inr [OF assms(2)]
  let ?v = "version_table (tx_starknet_version txn) b (bh_starknet_version h)"
  have dom: "\<And>k. k |\<in>| fmdom (tx_starknet_version txn) \<Longrightarrow> k < b"
    and none: "fmlookup (tx_headers txn) b = None" "fmlookup (tx_block_signatures txn) b = None"
    using assms(1) app(1) by (auto simp: header_wf_def)
  obtain e where e: "tbl_before ?v (Suc b) = Some e" "snd e = bh_starknet_version h"
    using version_table_before(1,2) [OF dom] by (metis not_None_eq)
  have drop: "fmdrop b (fmupd b (to_storage_header h) (tx_headers txn)) = tx_headers txn"
    "fmdrop (sbh_block_hash h) (fmupd (sbh_block_hash h) b (tx_block_hash_to_number txn)) =
      tx_block_hash_to_number txn" "fmdrop b ?v = tx_starknet_version txn"
    using none app(2) version_table_delete [OF dom] by (auto intro!: fmap_ext)
  show ?thesis unfolding app(3)
    using assms(3) e none drop
    by (cases e) (simp add: revert_header_def bn_next_def tbl_get_def tbl_delete_def tbl_upsert_def
        set_marker_def get_header_marker_def get_marker_def)
qed

lemma revert_header_wf [inv_intros]:
  assumes "header_wf txn" and "revert_header txn b = Inr (txn', h, sig)"
  shows "header_wf txn'"
proof (cases "b < u64_max \<and> Suc b = get_header_marker txn")
  case False
  then have "txn' = txn" using assms(2)
    by (auto simp: revert_header_def split: option.splits if_splits)
  then show ?thesis using assms(1) by simp
next
  case True
  then have b: "b < u64_max" and m: "get_header_marker txn = Suc b" by simp_all
  then have "b < get_header_marker txn" by simp
  from header_wf_header [OF assms(1) this] obtain sh where sh: "fmlookup (tx_headers txn) b = Some sh" .
  have t: "tx_headers txn' = fmdrop b (tx_headers txn)"
    "tx_block_hash_to_number txn' = fmdrop (sbh_block_hash sh) (tx_block_hash_to_number txn)"
    "tx_starknet_version txn' = fmdrop b (tx_starknet_version txn)"
    "fmdom (tx_block_signatures txn') = fmdom (fmdrop b (tx_block_signatures txn))"
    and m': "get_header_marker txn' = b"
    using assms(2) sh b m
    by (auto simp: revert_header_def tbl_get_def tbl_delete_def set_marker_def tbl_upsert_def
        get_header_marker_def get_marker_def Let_def split: option.splits if_splits prod.splits)
  note wf = header_wfD [OF assms(1) m]
  show ?thesis
  proof (rule header_wfI [OF m'])
    show "k |\<in>| fmdom (tx_headers txn') \<longleftrightarrow> k < b" for k using wf(1) [of k] by (auto simp: t)
    show "k < b" if "k |\<in>| fmdom (tx_starknet_version txn')" for k using wf(2) [of k] that by (simp add: t)
    show "k < b" if "k |\<in>| fmdom (tx_block_signatures txn')" for k using wf(4) [of k] that by (simp add: t)
    show "0 |\<in>| fmdom (tx_starknet_version txn')" if "0 < b" using wf(3) that by (simp add: t)
    show "fmlookup (tx_block_hash_to_number txn') h' = Some k \<longleftrightarrow>
        (\<exists>sh. fmlookup (tx_headers txn') k = Some sh \<and> sbh_block_hash sh = h')" for h' k
    proof (cases "h' = sbh_block_hash sh")
      case True
      with wf(5) [of h' k] wf(5) [of h' b] sh show ?thesis by (auto simp: t)
    next
      case False
      with wf(5) [of h' k] wf(5) [of h' b] sh show ?thesis by (auto simp: t)
    qed
  qed
qed

lemma append_block_signature_wf [inv_intros]:
  assumes "header_wf txn" and "append_block_signature txn b sig = Inr txn'"
  shows "header_wf txn'"
  using assms
  by (auto simp: append_block_signature_def header_wf_def res_simps split: if_splits)

lemma header_wf_empty: "header_wf (empty_txn scope)"
  by (simp add: header_wf_def get_header_marker_def) (simp add: empty_txn_def)

section \<open>The list of headers\<close>

text \<open>
  The abstract view is the list of the stored headers. The reader returns the header at its
  position; appending adds one at the end, reverting removes the last one.
\<close>

definition header_rel :: "storage_txn \<Rightarrow> block_header list \<Rightarrow> bool" where
  "header_rel txn hs \<longleftrightarrow>
     header_wf txn \<and> get_header_marker txn = length hs \<and>
     (\<forall>k < length hs. get_block_header txn k = Inr (Some (hs ! k)))"

lemma header_rel_empty: "header_rel (empty_txn scope) []"
  by (simp add: header_rel_def header_wf_empty get_header_marker_def)

lemma get_block_header_hash:
  assumes "get_block_header txn b = Inr (Some h)"
  shows "\<exists>sh. fmlookup (tx_headers txn) b = Some sh \<and> sbh_block_hash sh = sbh_block_hash h"
proof (cases "fmlookup (tx_headers txn) b")
  case (Some sh)
  with assms obtain v where "h = of_storage_header sh v"
    by (auto simp: get_block_header_def tbl_get_def res_bind_eq_Inr split: option.splits)
  with Some show ?thesis by (simp add: of_storage_header_def)
qed (use assms in \<open>simp add: get_block_header_def tbl_get_def\<close>)

lemma header_rel_hash:
  assumes "header_rel txn hs"
  shows "get_block_number_by_hash txn x = Some k \<longleftrightarrow> k < length hs \<and> sbh_block_hash (hs ! k) = x"
proof -
  have wf: "header_wf txn" and m: "get_header_marker txn = length hs" using assms by (simp_all add: header_rel_def)
  note D = header_wfD [OF wf m]
  show ?thesis
  proof (cases "k < length hs")
    case True
    then have "get_block_header txn k = Inr (Some (hs ! k))" using assms by (simp add: header_rel_def)
    from get_block_header_hash [OF this] obtain sh
      where "fmlookup (tx_headers txn) k = Some sh" "sbh_block_hash sh = sbh_block_hash (hs ! k)" by blast
    with D(5) [of x k] True show ?thesis by (simp add: get_block_number_by_hash_def tbl_get_def)
  next
    case False
    then have "fmlookup (tx_headers txn) k = None" using D(1) [of k] by (simp add: fmdom_notD)
    with D(5) [of x k] False show ?thesis by (simp add: get_block_number_by_hash_def tbl_get_def)
  qed
qed

lemma header_rel_hash_None:
  assumes "header_rel txn hs"
  shows "fmlookup (tx_block_hash_to_number txn) x = None \<longleftrightarrow> x \<notin> sbh_block_hash ` set hs"
proof -
  have "x \<in> sbh_block_hash ` set hs \<longleftrightarrow> (\<exists>k. k < length hs \<and> sbh_block_hash (hs ! k) = x)"
    by (metis (no_types, lifting) image_iff in_set_conv_nth)
  also have "\<dots> \<longleftrightarrow> (\<exists>k. fmlookup (tx_block_hash_to_number txn) x = Some k)"
    using header_rel_hash [OF assms] by (simp add: get_block_number_by_hash_def tbl_get_def)
  finally show ?thesis by (simp flip: not_None_eq)
qed

lemma append_header_rel:
  assumes rel: "header_rel txn hs" and append: "append_header txn b h = Inr txn'" and bound: "b < u64_max"
  shows "b = length hs \<and> sbh_block_hash h \<notin> sbh_block_hash ` set hs \<and> header_rel txn' (hs @ [h])"
proof -
  note app = append_header_eq_Inr [OF append]
  have wf: "header_wf txn" and m: "get_header_marker txn = length hs"
    and get: "\<And>k. k < length hs \<Longrightarrow> get_block_header txn k = Inr (Some (hs ! k))"
    using rel by (simp_all add: header_rel_def)
  have b: "b = length hs" using app(1) m by simp
  have "get_block_header txn' k = Inr (Some ((hs @ [h]) ! k))" if "k < length (hs @ [h])" for k
    using append_header_get [OF wf append bound, of k] get [of k] that b
    by (cases "k = b") (auto simp: nth_append)
  moreover have "header_wf txn'" by (rule append_header_wf [OF wf append])
  moreover have "get_header_marker txn' = length (hs @ [h])" using b by (simp add: app(3))
  ultimately show ?thesis using b app(2) header_rel_hash_None [OF rel] by (auto simp: header_rel_def)
qed

lemma revert_header_rel:
  assumes rel: "header_rel txn (hs @ [h])" and bound: "length hs < u64_max"
  shows "\<exists>txn'. revert_header txn (length hs) = Inr (txn', Some h, get_block_signature txn (length hs)) \<and>
    header_rel txn' hs"
proof -
  let ?b = "length hs"
  have wf: "header_wf txn" and m: "get_header_marker txn = Suc ?b"
    and get: "\<And>k. k < Suc ?b \<Longrightarrow> get_block_header txn k = Inr (Some ((hs @ [h]) ! k))"
    using rel by (simp_all add: header_rel_def)
  from header_wf_header [OF wf] m obtain sh where sh: "fmlookup (tx_headers txn) ?b = Some sh" by auto
  from header_wf_version [OF wf, of ?b] m obtain k v
    where v: "tbl_before (tx_starknet_version txn) (Suc ?b) = Some (k, v)" by auto
  have h: "of_storage_header sh v = h"
    using get [of ?b] sh v m bound
    by (simp add: get_block_header_def get_starknet_version_def tbl_get_def bn_next_def)
  define txn' where "txn' = (set_marker txn MkHeader ?b)\<lparr>tx_headers := fmdrop ?b (tx_headers txn),
    tx_block_hash_to_number := fmdrop (sbh_block_hash sh) (tx_block_hash_to_number txn),
    tx_starknet_version := fmdrop ?b (tx_starknet_version txn),
    tx_block_signatures := fmdrop ?b (tx_block_signatures txn)\<rparr>"
  have drop: "fmdrop ?b (tx_block_signatures txn) = tx_block_signatures txn"
    if "fmlookup (tx_block_signatures txn) ?b = None"
    using that by (intro fmap_ext) simp
  have revert: "revert_header txn ?b = Inr (txn', Some h, get_block_signature txn ?b)"
    using sh v m h bound drop
    by (cases "fmlookup (tx_block_signatures txn) ?b")
      (simp_all add: revert_header_def bn_next_def tbl_get_def tbl_delete_def tbl_upsert_def set_marker_def
        get_block_signature_def txn'_def Let_def)
  have m': "get_header_marker txn' = ?b" by (simp add: txn'_def)
  have t: "tx_headers txn' = fmdrop ?b (tx_headers txn)"
    "tx_starknet_version txn' = fmdrop ?b (tx_starknet_version txn)"
    by (simp_all add: txn'_def)
  have "get_block_header txn' k = Inr (Some (hs ! k))" if k: "k < ?b" for k
  proof -
    have "tbl_before (fmdrop ?b (tx_starknet_version txn)) (Suc k) = tbl_before (tx_starknet_version txn) (Suc k)"
      using k tbl.before_del_later [of "Suc k" ?b "tx_starknet_version txn"] by (simp add: tbl_delete_def)
    then have "get_starknet_version txn' k = get_starknet_version txn k"
      using k m m' by (simp add: get_starknet_version_def t bn_next_def)
    then have "get_block_header txn' k = get_block_header txn k"
      using k by (simp add: get_block_header_def tbl_get_def t split: option.split)
    then show ?thesis using get [of k] k by (simp add: nth_append)
  qed
  then have "header_rel txn' hs"
    using revert_header_wf [OF wf revert] m' by (simp add: header_rel_def)
  then show ?thesis using revert by blast
qed

section \<open>Properties\<close>

text \<open>
  \<^bold>\<open>C19.\<close> Appending a header appends to the list of stored headers: \<open>append_header\<close> succeeds exactly
  when the block number is the number of stored headers and the block hash is new; afterwards every
  header, the new one and its Starknet version included, is read back, and the others are unchanged.
\<close>

theorem header_append_refines:
  assumes "header_rel txn hs" and "length hs < u64_max"
  shows "case append_header txn b h of
      Inr txn' \<Rightarrow> b = length hs \<and> sbh_block_hash h \<notin> sbh_block_hash ` set hs \<and> header_rel txn' (hs @ [h])
    | Inl _ \<Rightarrow> \<not> (b = length hs \<and> sbh_block_hash h \<notin> sbh_block_hash ` set hs)"
proof (cases "append_header txn b h")
  case (Inr txn')
  then have "b = length hs" using append_header_eq_Inr(1) [OF Inr] assms(1) by (simp add: header_rel_def)
  with append_header_rel [OF assms(1) Inr] assms(2) Inr show ?thesis by simp
next
  case (Inl e)
  have "\<not> (b = length hs \<and> sbh_block_hash h \<notin> sbh_block_hash ` set hs)"
  proof
    assume "b = length hs \<and> sbh_block_hash h \<notin> sbh_block_hash ` set hs"
    then show False
      using append_header_ok [of txn b h] Inl assms(1) header_rel_hash_None [OF assms(1)]
      by (simp add: header_rel_def)
  qed
  then show ?thesis using Inl by simp
qed

definition demo_header :: block_header where
  "demo_header =
     \<lparr>sbh_block_hash = 11, sbh_parent_hash = 10, sbh_block_number = 0, sbh_l1_gas_price = (1, 2),
      sbh_l1_data_gas_price = (3, 4), sbh_state_root = 5, sbh_sequencer = 6, sbh_timestamp = 7,
      sbh_l1_da_mode = True, sbh_state_diff_commitment = None, sbh_transaction_commitment = Some 8,
      sbh_event_commitment = None, sbh_receipt_commitment = None, sbh_state_diff_length = None,
      sbh_n_transactions = 9, sbh_n_events = 10, bh_starknet_version = ''0.13.1''\<rparr>"

lemma append_demo_header: "\<exists>txn'. append_header (empty_txn FullArchive) 0 demo_header = Inr txn'"
  using append_header_ok [OF header_wf_empty, of FullArchive 0 demo_header]
  by (simp add: get_header_marker_def) (simp add: empty_txn_def)

theorem header_append_refines_witness:
  "\<exists>txn'. append_header (empty_txn FullArchive) 0 demo_header = Inr txn' \<and> header_rel txn' [demo_header]"
  using header_append_refines [OF header_rel_empty [of FullArchive], of 0 demo_header] append_demo_header
  by (auto simp: u64_max_def)

text \<open>
  Reverting undoes appending: after a successful \<open>append_header\<close>, \<open>revert_header\<close> at the
  same block returns the header with its Starknet version, and leaves exactly the transaction before
  the append (with the marker written as the block number); on any stored chain it removes the last
  header only and returns it with its signature.
\<close>

theorem header_revert_roundtrip:
  assumes "header_rel txn hs" and "append_header txn b h = Inr txn'" and "b < u64_max"
    and "append_block_signature txn' b sig = Inr txn''"
  shows "revert_header txn' b = Inr (set_marker txn MkHeader b, Some h, None) \<and>
    (\<exists>u. revert_header txn'' b = Inr (u, Some h, Some sig) \<and> header_rel u hs)"
proof -
  have wf: "header_wf txn" using assms(1) by (simp add: header_rel_def)
  have b: "b = length hs" and rel: "header_rel txn' (hs @ [h])"
    using append_header_rel [OF assms(1-3)] by simp_all
  have sig: "txn'' = txn'\<lparr>tx_block_signatures := fmupd b sig (tx_block_signatures txn')\<rparr>"
    using assms(4) by (auto simp: append_block_signature_def res_simps split: if_splits)
  have "header_wf txn''"
    using append_block_signature_wf [OF _ assms(4)] rel by (simp add: header_rel_def)
  moreover have "get_block_header txn'' k = get_block_header txn' k" for k
    by (simp add: sig get_block_header_def get_starknet_version_def split: option.split)
  ultimately have "header_rel txn'' (hs @ [h])" using rel by (simp add: header_rel_def) (simp add: sig)
  from revert_header_rel [OF this] assms(3) have
    "\<exists>u. revert_header txn'' b = Inr (u, Some h, get_block_signature txn'' b) \<and> header_rel u hs"
    by (simp add: b)
  moreover have "get_block_signature txn'' b = Some sig"
    by (simp add: sig get_block_signature_def tbl_get_def)
  ultimately show ?thesis using append_revert_header [OF wf assms(2,3)] by simp
qed

theorem header_revert_roundtrip_witness:
  "\<exists>txn' txn'' u. append_header (empty_txn FullArchive) 0 demo_header = Inr txn' \<and>
     append_block_signature txn' 0 3 = Inr txn'' \<and>
     revert_header txn'' 0 = Inr (u, Some demo_header, Some 3)"
proof -
  obtain txn' where txn': "append_header (empty_txn FullArchive) 0 demo_header = Inr txn'"
    using append_demo_header by blast
  note app = append_header_eq_Inr [OF txn']
  have "append_block_signature txn' 0 3 = Inr (txn'\<lparr>tx_block_signatures := fmupd 0 3 fmempty\<rparr>)"
    by (simp add: append_block_signature_def app(3) tbl_insert_def tbl_get_def)
      (simp add: set_marker_def empty_txn_def)
  then show ?thesis
    using header_revert_roundtrip [OF header_rel_empty txn'] txn' by (fastforce simp: u64_max_def)
qed

end
