(* ===== verification/Storage_Frames.thy ===== *)
theory Storage_Frames
  imports Storage_Class Storage_Body Storage_Header
begin

text \<open>
  The modules of the storage work on one transaction, each on its own part of it. This theory names
  the parts, shows that the abstract view of a module depends on its part only, and that every
  operation of a module leaves the parts of the others as they are. The programs that call several
  modules in one transaction are verified with these facts.
\<close>

section \<open>The parts of a transaction\<close>

definition header_part where
  "header_part txn =
     (tx_headers txn, tx_block_hash_to_number txn, tx_starknet_version txn, tx_block_signatures txn,
      get_marker txn MkHeader)"

definition body_part where
  "body_part txn =
     (tx_transaction_metadata txn, tx_transaction_hash_to_idx txn, tx_events txn,
      fs_transaction (tx_file_handlers txn), fs_transaction_output (tx_file_handlers txn),
      get_marker txn MkBody, get_marker txn MkEvent, tx_scope txn)"

definition state_part where
  "state_part txn =
     (tx_contract_storage txn, tx_nonces txn, tx_deployed_contracts txn, tx_state_diffs txn,
      tx_declared_classes_block txn, fs_thin_state_diff (tx_file_handlers txn),
      get_marker txn MkState, get_marker txn MkCompiledClass)"

definition class_part where
  "class_part txn =
     (tx_declared_classes txn, tx_deprecated_declared_classes txn, tx_casms txn,
      fs_contract_class (tx_file_handlers txn), fs_deprecated_contract_class (tx_file_handlers txn),
      fs_casm (tx_file_handlers txn), get_marker txn MkClass)"

lemmas part_defs = header_part_def body_part_def state_part_def class_part_def

lemma get_block_header_cong:
  assumes "tx_headers u = tx_headers txn" and "tx_starknet_version u = tx_starknet_version txn"
    and "get_marker u MkHeader = get_marker txn MkHeader"
  shows "get_block_header u = get_block_header txn" and "get_header_marker u = get_header_marker txn"
proof -
  show m: "get_header_marker u = get_header_marker txn" using assms(3) by (simp add: get_header_marker_def)
  have "get_starknet_version u = get_starknet_version txn"
    unfolding get_starknet_version_def [abs_def] m assms(2) ..
  then show "get_block_header u = get_block_header txn"
    unfolding get_block_header_def [abs_def] assms(1) by (simp only:)
qed

lemma header_part_rel:
  assumes "header_part u = header_part txn"
  shows "header_rel u hs \<longleftrightarrow> header_rel txn hs"
proof -
  have t: "tx_headers u = tx_headers txn" "tx_starknet_version u = tx_starknet_version txn"
    "get_marker u MkHeader = get_marker txn MkHeader" "tx_block_hash_to_number u = tx_block_hash_to_number txn"
    "tx_block_signatures u = tx_block_signatures txn"
    using assms by (simp_all add: header_part_def)
  show ?thesis unfolding header_rel_def header_wf_def get_block_header_cong [OF t(1-3)] t ..
qed

lemma body_part_rel: "body_part u = body_part txn \<Longrightarrow> body_rel u bs \<longleftrightarrow> body_rel txn bs"
  by (simp add: body_part_def body_rel_def body_tables_def stored_as_def [abs_def])

lemma state_part_rel: "state_part u = state_part txn \<Longrightarrow> state_rel u ds \<longleftrightarrow> state_rel txn ds"
  by (simp add: state_part_def state_rel_def)

lemma class_part_wf: "class_part u = class_part txn \<Longrightarrow> classes_wf u \<longleftrightarrow> classes_wf txn"
  by (simp add: class_part_def classes_wf_def classes_readable_def)

lemma get_marker_update [simp]:
  "get_marker (txn\<lparr>tx_headers := x1\<rparr>) k = get_marker txn k"
  "get_marker (txn\<lparr>tx_block_hash_to_number := x2\<rparr>) k = get_marker txn k"
  "get_marker (txn\<lparr>tx_starknet_version := x3\<rparr>) k = get_marker txn k"
  "get_marker (txn\<lparr>tx_block_signatures := x4\<rparr>) k = get_marker txn k"
  "get_marker (txn\<lparr>tx_transaction_metadata := x5\<rparr>) k = get_marker txn k"
  "get_marker (txn\<lparr>tx_transaction_hash_to_idx := x6\<rparr>) k = get_marker txn k"
  "get_marker (txn\<lparr>tx_events := x7\<rparr>) k = get_marker txn k"
  "get_marker (txn\<lparr>tx_file_handlers := x8\<rparr>) k = get_marker txn k"
  "get_marker (txn\<lparr>tx_casms := x9\<rparr>) k = get_marker txn k"
  "get_marker (txn\<lparr>tx_file_offsets := x10\<rparr>) k = get_marker txn k"
  "get_marker (txn\<lparr>tx_deployed_contracts := x11\<rparr>) k = get_marker txn k"
  "get_marker (txn\<lparr>tx_nonces := x12\<rparr>) k = get_marker txn k"
  "get_marker (txn\<lparr>tx_contract_storage := x13\<rparr>) k = get_marker txn k"
  "get_marker (txn\<lparr>tx_declared_classes_block := x14\<rparr>) k = get_marker txn k"
  "get_marker (txn\<lparr>tx_state_diffs := x15\<rparr>) k = get_marker txn k"
  "get_marker (txn\<lparr>tx_declared_classes := x16\<rparr>) k = get_marker txn k"
  "get_marker (txn\<lparr>tx_deprecated_declared_classes := x17\<rparr>) k = get_marker txn k"
  by (simp_all add: get_marker_def)

section \<open>Headers\<close>

lemma append_header_parts:
  assumes "append_header txn b h = Inr u"
  shows "body_part u = body_part txn" "state_part u = state_part txn" "class_part u = class_part txn"
    "get_marker u MkBaseLayerBlock = get_marker txn MkBaseLayerBlock"
  by (simp_all add: append_header_eq_Inr(3) [OF assms] part_defs)

lemma append_block_signature_eq_Inr:
  assumes "append_block_signature txn b sig = Inr u"
  shows "\<exists>t. u = txn\<lparr>tx_block_signatures := t\<rparr>"
  using assms by (auto simp: append_block_signature_def res_simps split: if_splits)

lemma append_block_signature_parts:
  assumes "append_block_signature txn b sig = Inr u"
  shows "body_part u = body_part txn" "state_part u = state_part txn" "class_part u = class_part txn"
    "get_marker u MkBaseLayerBlock = get_marker txn MkBaseLayerBlock"
  using append_block_signature_eq_Inr [OF assms] by (auto simp: part_defs)

lemma append_block_signature_rel:
  assumes "header_rel txn hs" and "append_block_signature txn b sig = Inr u"
  shows "header_rel u hs"
proof -
  obtain t where u: "u = txn\<lparr>tx_block_signatures := t\<rparr>" using append_block_signature_eq_Inr [OF assms(2)] by blast
  have "get_block_header u = get_block_header txn" "get_header_marker u = get_header_marker txn"
    by (rule get_block_header_cong; simp add: u)+
  then show ?thesis
    using assms(1) append_block_signature_wf [OF _ assms(2)] unfolding header_rel_def by metis
qed

lemma revert_header_parts:
  assumes "revert_header txn b = Inr (u, r)"
  shows "body_part u = body_part txn" "state_part u = state_part txn" "class_part u = class_part txn"
    "get_marker u MkBaseLayerBlock = get_marker txn MkBaseLayerBlock"
  using assms
  by (auto simp: revert_header_def part_defs Let_def split: option.splits if_splits prod.splits)

section \<open>Bodies\<close>

definition body_frame :: "storage_txn \<Rightarrow> storage_txn \<Rightarrow> bool" where
  "body_frame txn u \<longleftrightarrow>
     header_part u = header_part txn \<and> state_part u = state_part txn \<and> class_part u = class_part txn \<and>
     get_marker u MkBaseLayerBlock = get_marker txn MkBaseLayerBlock"

lemma body_frame_refl: "body_frame txn txn"
  and body_frame_trans: "body_frame a b \<Longrightarrow> body_frame b c \<Longrightarrow> body_frame a c"
  by (simp_all add: body_frame_def)

lemma write_event_body_frame: "write_event idx a txn = Inr u \<Longrightarrow> body_frame txn u"
  by (auto simp: write_event_def res_bind_eq_Inr body_frame_def part_defs)

lemma write_events_body_frame:
  assumes "write_events out idx txn = Inr u"
  shows "body_frame txn u"
  by (rule fold_res_invariant [OF assms [unfolded write_events_def]])
    (auto intro: body_frame_refl body_frame_trans write_event_body_frame)

lemma append_files_body_frame:
  "append_transaction sz txn tx = (u, loc) \<Longrightarrow> body_frame txn u"
  "append_transaction_output sz txn out = (u, loc) \<Longrightarrow> body_frame txn u"
  by (auto simp: append_transaction_def append_transaction_output_def body_frame_def part_defs Let_def split: prod.splits)

lemma write_transaction_body_frame:
  assumes "write_transaction sz b n entry txn = Inr u"
  shows "body_frame txn u"
proof -
  obtain index tx out h where entry: "entry = (index, (tx, out), h)" by (metis surj_pair)
  obtain t1 loc1 where t1: "append_transaction sz txn tx = (t1, loc1)" by (metis surj_pair)
  obtain t2 loc2 where t2: "append_transaction_output sz t1 out = (t2, loc2)" by (metis surj_pair)
  from assms obtain t3 where t3: "write_events out (b, index) t2 = Inr t3" and "body_frame t3 u"
    by (auto simp: write_transaction_def entry t1 t2 Let_def res_bind_eq_Inr body_frame_def part_defs
        set_file_offset_def)
  then show ?thesis
    using append_files_body_frame(1) [OF t1] append_files_body_frame(2) [OF t2] write_events_body_frame [OF t3]
    by (blast intro: body_frame_trans)
qed

lemma write_transactions_body_frame:
  assumes "write_transactions sz body b txn = Inr u"
  shows "body_frame txn u"
  by (rule fold_res_invariant [OF assms [unfolded write_transactions_def]], rule body_frame_refl)
    (erule body_frame_trans [OF _ write_transaction_body_frame])

lemma append_body_eq_Inr:
  assumes "append_body sz txn b body = Inr u"
  shows "let t = set_marker (set_marker txn MkBody (Suc b)) MkEvent (Suc b) in
    u = t \<or> write_transactions sz body b t = Inr u"
proof -
  from assms obtain t where t: "body_update_marker txn b = Inr t"
    and u: "u = t \<or> write_transactions sz body b t = Inr u"
    by (cases "body_update_marker txn b") (auto simp: append_body_def res_bind_eq_Inr split: if_splits)
  have "t = set_marker (set_marker txn MkBody (Suc b)) MkEvent (Suc b)"
    using t by (simp add: body_update_marker_def split: if_splits)
  then show ?thesis using u by (simp add: Let_def)
qed

lemma append_body_frame:
  assumes "append_body sz txn b body = Inr u"
  shows "body_frame txn u"
proof -
  let ?t = "set_marker (set_marker txn MkBody (Suc b)) MkEvent (Suc b)"
  have "body_frame txn ?t" by (simp add: body_frame_def part_defs)
  moreover have "body_frame ?t u"
    using append_body_eq_Inr [OF assms] unfolding Let_def
    by (elim disjE) (simp_all only: body_frame_refl write_transactions_body_frame)
  ultimately show ?thesis by (rule body_frame_trans)
qed

lemma delete_transaction_body_frame: "body_frame txn (delete_transaction b entry txn)"
proof -
  have "body_frame t (fold (\<lambda>e txn. txn\<lparr>tx_events := tbl_delete (tx_events txn) (ev_from_address e, idx)\<rparr>) es t)"
    for idx es t
  proof (induction es arbitrary: t)
    case (Cons e es)
    let ?t = "t\<lparr>tx_events := tbl_delete (tx_events t) (ev_from_address e, idx)\<rparr>"
    have "body_frame t ?t" by (simp add: body_frame_def part_defs)
    with Cons.IH [of ?t] show ?case by (auto intro: body_frame_trans)
  qed (simp add: body_frame_refl)
  then show ?thesis
    by (auto simp: delete_transaction_def Let_def body_frame_def part_defs split: prod.split)
qed

lemma revert_body_frame:
  assumes "revert_body txn b = Inr (u, r)"
  shows "body_frame txn u"
proof -
  have del: "body_frame t (fold (delete_transaction b) es t)" for es t
  proof (induction es arbitrary: t)
    case (Cons e es)
    show ?case
      using body_frame_trans [OF delete_transaction_body_frame Cons.IH [of "delete_transaction b e t"]] by simp
  qed (simp add: body_frame_refl)
  have mark: "body_frame t (set_marker (set_marker t MkBody b) MkEvent b)" for t
    by (simp add: body_frame_def part_defs)
  have both: "body_frame t (set_marker (set_marker (fold (delete_transaction b) es t) MkBody b) MkEvent b)" for es t
    by (rule body_frame_trans [OF del mark])
  show ?thesis
    using assms
    by (auto simp: revert_body_def Let_def res_bind_eq_Inr body_frame_refl mark both
        split: option.splits if_splits)
qed

section \<open>State diffs and classes\<close>

definition state_frame :: "storage_txn \<Rightarrow> storage_txn \<Rightarrow> bool" where
  "state_frame txn u \<longleftrightarrow>
     header_part u = header_part txn \<and> body_part u = body_part txn \<and>
     get_marker u MkBaseLayerBlock = get_marker txn MkBaseLayerBlock"

lemma state_frame_refl: "state_frame txn txn"
  and state_frame_trans: "state_frame a b \<Longrightarrow> state_frame b c \<Longrightarrow> state_frame a c"
  by (simp_all add: state_frame_def)

lemma advance_loop_state_frame:
  assumes "advance_loop sm cm txn = Inr u"
  shows "state_frame txn u"
  using assms
proof (induction sm cm txn rule: advance_loop.induct)
  case (1 sm cm txn)
  show ?case
  proof (cases "cm < sm")
    case True
    with 1(2) obtain loc d where loc: "tbl_get (tx_state_diffs txn) cm = Some loc"
      "get_thin_state_diff_unchecked txn loc = Inr d"
      by (auto simp: advance_loop.simps [of sm cm] res_bind_eq_Inr split: option.splits)
    show ?thesis
    proof (cases "tsd_declared_classes d = []")
      case empty: True
      have "state_frame txn (set_marker txn MkCompiledClass (Suc cm))" by (simp add: state_frame_def part_defs)
      moreover have "state_frame (set_marker txn MkCompiledClass (Suc cm)) u"
        using 1(1) [OF True loc] 1(2) True loc empty by (simp add: advance_loop.simps [of sm cm])
      ultimately show ?thesis by (rule state_frame_trans)
    qed (use 1(2) True loc in \<open>simp add: advance_loop.simps [of sm cm] state_frame_refl\<close>)
  qed (use 1(2) in \<open>simp add: advance_loop.simps [of sm cm] state_frame_refl\<close>)
qed

lemma append_state_diff_state_frame:
  assumes "append_state_diff sz txn b d = Inr u"
  shows "state_frame txn u"
proof -
  obtain f loc where app: "file_append (sz_thin_state_diff sz) (fs_thin_state_diff (tx_file_handlers txn)) d = (f, loc)"
    by fastforce
  from assms [unfolded append_state_diff_eq_Inr [OF app]] obtain t1 t2 t3 t4 sm cm
    where "advance_loop sm cm (state_written txn b f loc t1 t2 t3 t4) = Inr u"
    by (auto simp: advance_compiled_class_marker_over_blocks_without_classes_def)
  then have "state_frame (state_written txn b f loc t1 t2 t3 t4) u" by (rule advance_loop_state_frame)
  moreover have "state_frame txn (state_written txn b f loc t1 t2 t3 t4)"
    by (simp add: state_frame_def part_defs state_written_def set_file_offset_def)
  ultimately show ?thesis using state_frame_trans by blast
qed

lemma write_class_state_frame: "write_class sz cx txn = Inr u \<Longrightarrow> state_frame txn u"
proof -
  assume w: "write_class sz cx txn = Inr u"
  obtain c x where cx: "cx = (c, x)" by (cases cx)
  obtain f loc where app: "file_append (sz_contract_class sz) (fs_contract_class (tx_file_handlers txn)) x = (f, loc)"
    by fastforce
  from w [unfolded cx write_class_eq_Inr [OF app]] show ?thesis
    by (auto simp: state_frame_def part_defs set_file_offset_def get_marker_def)
qed

lemma write_deprecated_class_state_frame: "write_deprecated_class sz b cx txn = Inr u \<Longrightarrow> state_frame txn u"
proof -
  assume w: "write_deprecated_class sz b cx txn = Inr u"
  obtain c x where cx: "cx = (c, x)" by (cases cx)
  obtain f loc where app: "file_append (sz_deprecated_contract_class sz)
      (fs_deprecated_contract_class (tx_file_handlers txn)) x = (f, loc)" by fastforce
  show ?thesis
  proof (cases "fmlookup (tx_deprecated_declared_classes txn) c")
    case None
    from w [unfolded cx write_deprecated_class_new [OF app None]] show ?thesis
      by (auto simp: state_frame_def part_defs set_file_offset_def get_marker_def)
  next
    case (Some v)
    then show ?thesis using w by (simp add: cx write_deprecated_class_def tbl_get_def state_frame_refl)
  qed
qed

lemma append_classes_state_frame:
  assumes "append_classes sz txn b cs dcs = Inr u"
  shows "state_frame txn u"
proof -
  from assms obtain v w where v: "write_classes sz cs txn = Inr v"
    and w: "write_deprecated_classes sz b dcs v = Inr w" and u: "u = set_marker w MkClass (Suc b)"
    by (auto simp: append_classes_def res_bind_eq_Inr split: if_splits)
  have "state_frame txn v"
    by (rule fold_res_invariant [OF v [unfolded write_classes_def]], rule state_frame_refl)
      (erule state_frame_trans [OF _ write_class_state_frame])
  moreover have "state_frame v w"
    by (rule fold_res_invariant [OF w [unfolded write_deprecated_classes_def]], rule state_frame_refl)
      (erule state_frame_trans [OF _ write_deprecated_class_state_frame])
  moreover have "state_frame w u" by (simp add: state_frame_def part_defs u)
  ultimately show ?thesis by (meson state_frame_trans)
qed

section \<open>Compiled classes\<close>

text \<open>The loop over the marker of the compiled classes does not pass the state marker.\<close>

lemma casm_marker_loop_bound:
  assumes "casm_marker_loop c b txn = Inr u" and "\<And>k. k |\<in>| fmdom (tx_state_diffs txn) \<Longrightarrow> k < n"
    and "get_marker txn MkCompiledClass \<le> n"
  shows "state_frame txn u \<and> (\<exists>m. m \<le> n \<and> u = txn\<lparr>tx_markers := tx_markers u\<rparr> \<and>
    (\<forall>k. get_marker u k = (if k = MkCompiledClass then m else get_marker txn k)))"
  using assms
proof (induction c b txn rule: casm_marker_loop.induct)
  case (1 c b txn)
  note loop = casm_marker_loop.simps [of c b]
  have stop: ?case if "u = txn"
    using that 1(4) by (auto simp: state_frame_refl intro: exI [of _ "get_marker txn MkCompiledClass"])
  show ?case
  proof (cases "tbl_get (tx_state_diffs txn) b")
    case None
    then show ?thesis using stop 1(2) by (simp add: loop)
  next
    case (Some loc)
    with 1(2) obtain d where d: "get_thin_state_diff_unchecked txn loc = Inr d"
      by (auto simp: loop res_bind_eq_Inr)
    have b: "b < n" using Some 1(3) by (simp add: tbl_get_def fmdomI)
    let ?t = "set_marker txn MkCompiledClass (Suc b)"
    show ?thesis
    proof (cases "tsd_declared_classes d \<noteq> [] \<and> fst (last (tsd_declared_classes d)) \<noteq> c")
      case True
      then show ?thesis using stop 1(2) Some d by (simp add: loop)
    next
      case False
      have step: "casm_marker_loop c (Suc b) ?t = Inr u" using 1(2) Some d False by (simp add: loop)
      have "state_frame ?t u \<and> (\<exists>m. m \<le> n \<and> u = ?t\<lparr>tx_markers := tx_markers u\<rparr> \<and>
          (\<forall>k. get_marker u k = (if k = MkCompiledClass then m else get_marker ?t k)))"
        by (rule 1(1) [OF Some d False step]) (use 1(3) b in simp_all)
      then obtain m where m: "state_frame ?t u" "m \<le> n" "u = ?t\<lparr>tx_markers := tx_markers u\<rparr>"
        "\<And>k. get_marker u k = (if k = MkCompiledClass then m else get_marker ?t k)" by blast
      have "state_frame txn ?t" by (simp add: state_frame_def part_defs)
      moreover have "u = txn\<lparr>tx_markers := tx_markers u\<rparr>" using m(3) by (simp add: set_marker_def)
      moreover have "get_marker u k = (if k = MkCompiledClass then m else get_marker txn k)" for k
        unfolding m(4) by simp
      ultimately show ?thesis using m(1,2) state_frame_trans by blast
    qed
  qed
qed

lemma append_casm_parts:
  assumes rel: "state_rel txn ds" and append: "append_casm sz txn c x = Inr u"
  shows "state_frame txn u" and "state_rel u ds" and "tx_declared_classes u = tx_declared_classes txn"
    and "get_marker u MkClass = get_marker txn MkClass"
proof -
  obtain f loc where app: "file_append (sz_casm sz) (fs_casm (tx_file_handlers txn)) x = (f, loc)" by fastforce
  define t where "t = set_file_offset (txn\<lparr>tx_file_handlers := (tx_file_handlers txn)\<lparr>fs_casm := f\<rparr>,
    tx_casms := fmupd c loc (tx_casms txn)\<rparr>) OkCasm loc"
  have tm: "get_marker t k = get_marker txn k" for k by (simp add: t_def)
  have trel: "state_rel t ds" using rel unfolding state_rel_def tm by (simp add: t_def set_file_offset_def)
  have keys: "k < length ds" if "k |\<in>| fmdom (tx_state_diffs t)" for k
    using that state_relD(6) [OF trel, of k] by (auto simp: fmlookup_dom_iff split: if_splits)
  have loop: "casm_marker_loop c (get_marker txn MkCompiledClass) t = Inr u"
    using append unfolding append_casm_eq_Inr [OF app] t_def by simp
  have bound: "get_marker t MkCompiledClass \<le> length ds" using state_relD(2) [OF trel] .
  from casm_marker_loop_bound [OF loop keys bound] obtain m
    where m: "state_frame t u" "m \<le> length ds" "u = t\<lparr>tx_markers := tx_markers u\<rparr>"
      "\<And>k. get_marker u k = (if k = MkCompiledClass then m else get_marker t k)" by blast
  have "state_frame txn t" by (simp add: state_frame_def part_defs t_def set_file_offset_def)
  then show "state_frame txn u" using m(1) by (rule state_frame_trans)
  have fields: "tx_contract_storage u = tx_contract_storage t" "tx_nonces u = tx_nonces t"
    "tx_deployed_contracts u = tx_deployed_contracts t" "tx_state_diffs u = tx_state_diffs t"
    "tx_declared_classes_block u = tx_declared_classes_block t" "tx_file_handlers u = tx_file_handlers t"
    "tx_declared_classes u = tx_declared_classes t"
    by (subst m(3), simp)+
  show "state_rel u ds" using trel m(2) unfolding state_rel_def fields m(4) by simp
  show "tx_declared_classes u = tx_declared_classes txn" "get_marker u MkClass = get_marker txn MkClass"
    by (simp_all add: fields m(4) tm) (simp add: t_def set_file_offset_def)
qed

lemma revert_state_diff_state_frame:
  assumes "revert_frame txn u" and "tx_file_handlers u = tx_file_handlers txn"
    and "\<And>k. get_marker u k = get_marker (revert_markers txn b) k"
  shows "state_frame txn u"
  using assms by (simp add: revert_frame_def state_frame_def part_defs)

end
