(* ===== verification/Sync.thy ===== *)
theory Sync
  imports Storage_Frames "HOL-Library.Multiset"
begin

text \<open>
  Synchronization with the central source: \<open>crates/papyrus_sync/src/lib.rs\<close>. The database is the
  transaction state that was committed last. Every event opens a transaction, calls the writers of
  several storage modules and commits; when one of them fails nothing is committed.

  \<^item> \<open>process_sync_event\<close> and the functions it calls; \<open>handle_block_reverts\<close>, which commits after every
    reverted block and therefore returns the database together with its outcome.
  \<^item> One round of each stream, as a function of the database and of what its source answers.
    The central source, the base layer and the conversion of a state diff (starknet_api) are
    parameters.
  \<^item> \<open>synced\<close>: the databases that synchronization can reach. \<open>sync_inv\<close> is their invariant.
\<close>

section \<open>Events and errors\<close>

record state_diff =
  sd_deployed_contracts :: "(contract_address \<times> class_hash) list"
  sd_storage_diffs :: "(contract_address \<times> (storage_key \<times> felt) list) list"
  sd_declared_classes :: "(class_hash \<times> (compiled_class_hash \<times> sierra_class)) list"
  sd_deprecated_declared_classes :: "(class_hash \<times> cairo0_class) list"
  sd_nonces :: "(contract_address \<times> nonce) list"
  sd_replaced_classes :: "(contract_address \<times> class_hash) list"

datatype sync_event =
    NoProgressEvent
  | BlockAvailable block_number block_header block_body block_signature
  | StateDiffAvailable block_number block_hash state_diff "(class_hash \<times> cairo0_class) list"
  | CompiledClassAvailable class_hash compiled_class_hash casm_class
  | NewBaseLayerBlock block_number block_hash

datatype sync_error =
    NoProgress
  | StorageFailure storage_failure
  | CentralSourceError
  | PendingSourceError
  | BaseLayerSourceError
  | ParentBlockHashMismatch block_number block_hash block_hash
  | BaseLayerBlockWithoutMatchingHeader block_number
  | BaseLayerHashMismatch block_number block_hash block_hash
  | SequencerPubKeyChanged nat nat

type_synonym 'a sync_result = "(sync_error, 'a) result"

definition storage :: "'a sresult \<Rightarrow> 'a sync_result" where
  "storage r = (case r of Inl e \<Rightarrow> Inl (StorageFailure e) | Inr x \<Rightarrow> Inr x)"

text \<open>Errors after which \<open>run\<close> starts to sync again; every other error ends it. A panic is not an error.\<close>

fun is_recoverable :: "sync_error \<Rightarrow> bool" where
  "is_recoverable (StorageFailure (SErr (InnerError _))) = True"
| "is_recoverable (StorageFailure _) = False"
| "is_recoverable (SequencerPubKeyChanged _ _) = False"
| "is_recoverable _ = True"

section \<open>Storing\<close>

definition verify_parent_block_hash :: "storage_txn \<Rightarrow> block_number \<Rightarrow> block_header \<Rightarrow> unit sync_result" where
  "verify_parent_block_hash db block_number header =
     (case block_number of
        0 \<Rightarrow> Inr ()
      | Suc prev_block_number \<Rightarrow>
          res_bind (storage (get_block_header db prev_block_number)) (\<lambda>prev.
          case prev of
            None \<Rightarrow> Inl (StorageFailure (SErr (DBInconsistency ''Missing block in the storage'')))
          | Some prev \<Rightarrow>
              if sbh_block_hash prev \<noteq> sbh_parent_hash header
              then Inl (ParentBlockHashMismatch block_number (sbh_parent_hash header) (sbh_block_hash prev))
              else Inr ()))"

definition store_block ::
  "serde_sizes \<Rightarrow> storage_txn \<Rightarrow> block_number \<Rightarrow> block_header \<Rightarrow> block_body \<Rightarrow> block_signature \<Rightarrow>
   storage_txn sync_result" where
  "store_block sz db block_number header body signature =
     res_bind (verify_parent_block_hash db block_number header) (\<lambda>_.
     storage
       (res_bind (append_header db block_number header) (\<lambda>txn.
        res_bind (append_block_signature txn block_number signature) (\<lambda>txn.
        append_body sz txn block_number body))))"

type_synonym thin_of =
  "state_diff \<Rightarrow> thin_state_diff \<times> (class_hash \<times> sierra_class) list \<times> (class_hash \<times> cairo0_class) list"

definition store_state_diff ::
  "serde_sizes \<Rightarrow> thin_of \<Rightarrow> storage_txn \<Rightarrow> block_number \<Rightarrow> state_diff \<Rightarrow>
   (class_hash \<times> cairo0_class) list \<Rightarrow> storage_txn sync_result" where
  "store_state_diff sz from_state_diff db block_number state_diff deployed_contract_class_definitions =
     (case from_state_diff state_diff of (thin_state_diff, classes, deprecated_classes) \<Rightarrow>
        storage
          (res_bind (append_state_diff sz db block_number thin_state_diff) (\<lambda>txn.
           append_classes sz txn block_number classes
             (deprecated_classes @ deployed_contract_class_definitions))))"

text \<open>
  A transaction that is dropped leaves the tables as they were. The objects it appended to the memory
  mapped files stay behind the last committed one, where no location refers to them.
\<close>

definition store_compiled_class ::
  "serde_sizes \<Rightarrow> storage_txn \<Rightarrow> class_hash \<Rightarrow> casm_class \<Rightarrow> storage_txn sync_result" where
  "store_compiled_class sz db class_hash compiled_class =
     (case append_casm sz db class_hash compiled_class of
        Inr txn \<Rightarrow> Inr txn
      | Inl (SErr (InnerError (DbKeyAlreadyExists _))) \<Rightarrow> Inr (fst (append_casm_file sz db compiled_class))
      | Inl e \<Rightarrow> Inl (StorageFailure e))"

definition store_base_layer_block ::
  "storage_txn \<Rightarrow> block_number \<Rightarrow> block_hash \<Rightarrow> storage_txn sync_result" where
  "store_base_layer_block db block_number block_hash =
     res_bind (storage (get_block_header db block_number)) (\<lambda>header.
     case header of
       None \<Rightarrow> Inl (BaseLayerBlockWithoutMatchingHeader block_number)
     | Some header \<Rightarrow>
         if sbh_block_hash header \<noteq> block_hash
         then Inl (BaseLayerHashMismatch block_number block_hash (sbh_block_hash header))
         else if get_base_layer_block_marker db \<noteq> Suc block_number
         then Inr (update_base_layer_block_marker db (Suc block_number))
         else Inr db)"

fun process_sync_event ::
  "serde_sizes \<Rightarrow> thin_of \<Rightarrow> storage_txn \<Rightarrow> sync_event \<Rightarrow> storage_txn sync_result" where
  "process_sync_event sz fsd db (BlockAvailable block_number header body signature) =
     store_block sz db block_number header body signature"
| "process_sync_event sz fsd db (StateDiffAvailable block_number block_hash state_diff definitions) =
     store_state_diff sz fsd db block_number state_diff definitions"
| "process_sync_event sz fsd db (CompiledClassAvailable class_hash compiled_class_hash compiled_class) =
     store_compiled_class sz db class_hash compiled_class"
| "process_sync_event sz fsd db (NewBaseLayerBlock block_number block_hash) =
     store_base_layer_block db block_number block_hash"
| "process_sync_event sz fsd db NoProgressEvent = Inl NoProgress"

section \<open>Reverting\<close>

definition revert_block ::
  "(class_hash set \<Rightarrow> class_hash list) \<Rightarrow> storage_txn \<Rightarrow> block_number \<Rightarrow> storage_txn sync_result" where
  "revert_block ord db block_number =
     storage
       (let txn = try_revert_base_layer_marker db block_number in
        res_bind (revert_header txn block_number) (\<lambda>(txn, header, _).
        case header of
          None \<Rightarrow> Inr txn
        | Some _ \<Rightarrow>
            res_bind (revert_body txn block_number) (\<lambda>(txn, _).
            res_bind (revert_state_diff ord txn block_number) (\<lambda>(txn, _). Inr txn))))"

type_synonym central_hashes = "block_number \<Rightarrow> block_hash option sync_result"

definition should_revert_block :: "central_hashes \<Rightarrow> storage_txn \<Rightarrow> block_number \<Rightarrow> bool sync_result" where
  "should_revert_block central db block_number =
     res_bind (central block_number) (\<lambda>central_block_hash.
     case central_block_hash of
       Some central_block_hash \<Rightarrow>
         res_bind (storage (get_block_header db block_number)) (\<lambda>header.
         case header of
           Some header \<Rightarrow> Inr (sbh_block_hash header \<noteq> central_block_hash)
         | None \<Rightarrow> Inr False)
     | None \<Rightarrow> Inr True)"

text \<open>The argument is the number of blocks up to and including the last one that may be reverted.\<close>

fun handle_block_reverts_loop ::
  "(class_hash set \<Rightarrow> class_hash list) \<Rightarrow> central_hashes \<Rightarrow> nat \<Rightarrow> storage_txn \<Rightarrow>
   storage_txn \<times> unit sync_result" where
  "handle_block_reverts_loop ord central 0 db = (db, Inr ())"
| "handle_block_reverts_loop ord central (Suc block_number) db =
     (case should_revert_block central db block_number of
        Inl e \<Rightarrow> (db, Inl e)
      | Inr False \<Rightarrow> (db, Inr ())
      | Inr True \<Rightarrow>
          (case revert_block ord db block_number of
             Inl e \<Rightarrow> (db, Inl e)
           | Inr db \<Rightarrow> handle_block_reverts_loop ord central block_number db))"

definition handle_block_reverts ::
  "(class_hash set \<Rightarrow> class_hash list) \<Rightarrow> central_hashes \<Rightarrow> storage_txn \<Rightarrow> storage_txn \<times> unit sync_result" where
  "handle_block_reverts ord central db = handle_block_reverts_loop ord central (get_header_marker db) db"

definition track_sequencer_public_key_changes :: "nat option \<Rightarrow> nat sync_result \<Rightarrow> nat option \<times> unit sync_result" where
  "track_sequencer_public_key_changes current answer =
     (case answer of
        Inl e \<Rightarrow> (current, Inl e)
      | Inr sequencer_pub_key \<Rightarrow>
          (case current of
             None \<Rightarrow> (Some sequencer_pub_key, Inr ())
           | Some cur_key \<Rightarrow>
               if cur_key \<noteq> sequencer_pub_key
               then (Some sequencer_pub_key, Inl (SequencerPubKeyChanged cur_key sequencer_pub_key))
               else (current, Inr ())))"

section \<open>The streams\<close>

text \<open>
  One round of the loop of a stream: it waits, polls the pending block, or yields what its source streams
  for a range of blocks, up to and including the first error.
\<close>

datatype stream_round = Wait | PollPending | Yield "sync_event sync_result list"

fun yield_all :: "('a \<Rightarrow> sync_event) \<Rightarrow> 'a sync_result list \<Rightarrow> sync_event sync_result list" where
  "yield_all f [] = []"
| "yield_all f (Inl e # xs) = [Inl e]"
| "yield_all f (Inr x # xs) = Inr (f x) # yield_all f xs"

type_synonym 'a source = "block_number \<Rightarrow> block_number \<Rightarrow> 'a sync_result list"

definition stream_new_blocks ::
  "storage_txn \<Rightarrow> (block_hash \<times> block_number) option sync_result \<Rightarrow>
   (block_number \<times> block_header \<times> block_body \<times> block_signature) source \<Rightarrow> nat \<Rightarrow>
   (block_hash \<times> block_number) option \<Rightarrow> (block_hash \<times> block_number) option \<times> stream_round" where
  "stream_new_blocks db latest_block central_blocks max_stream_size shared_highest_block =
     (case latest_block of
        Inl e \<Rightarrow> (shared_highest_block, Yield [Inl e])
      | Inr latest_central_block \<Rightarrow>
          (latest_central_block,
           let header_marker = get_header_marker db;
               central_block_marker = (case latest_central_block of None \<Rightarrow> 0 | Some (_, n) \<Rightarrow> Suc n)
           in if header_marker = central_block_marker
              then if get_state_marker db = header_marker then PollPending else Wait
              else Yield (yield_all (\<lambda>(block_number, header, body, signature).
                       BlockAvailable block_number header body signature)
                     (central_blocks header_marker (min central_block_marker (header_marker + max_stream_size))))))"

definition sort_state_diff :: "state_diff \<Rightarrow> state_diff" where
  "sort_state_diff diff =
     diff\<lparr>sd_declared_classes := sort_key fst (sd_declared_classes diff),
          sd_deprecated_declared_classes := sort_key fst (sd_deprecated_declared_classes diff),
          sd_deployed_contracts := sort_key fst (sd_deployed_contracts diff),
          sd_nonces := sort_key fst (sd_nonces diff),
          sd_replaced_classes := sort_key fst (sd_replaced_classes diff),
          sd_storage_diffs :=
            map (\<lambda>(address, storage_entries). (address, sort_key fst storage_entries))
              (sort_key fst (sd_storage_diffs diff))\<rparr>"

definition stream_new_state_diffs ::
  "storage_txn \<Rightarrow> (block_number \<times> block_hash \<times> state_diff \<times> (class_hash \<times> cairo0_class) list) source \<Rightarrow> nat \<Rightarrow>
   stream_round" where
  "stream_new_state_diffs db central_state_updates max_stream_size =
     (let state_marker = get_state_marker db;
          last_block_number = get_header_marker db
      in if state_marker = last_block_number then Wait
         else Yield (yield_all (\<lambda>(block_number, block_hash, state_diff, definitions).
                  StateDiffAvailable block_number block_hash (sort_state_diff state_diff) definitions)
                (central_state_updates state_marker (min last_block_number (state_marker + max_stream_size)))))"

function skip_blocks_without_classes :: "storage_txn \<Rightarrow> block_number \<Rightarrow> block_number \<Rightarrow> block_number sresult" where
  "skip_blocks_without_classes db state_marker from =
     (if from < state_marker then
        res_bind (get_state_diff db from) (\<lambda>diff.
        case diff of
          None \<Rightarrow> Inl (SPanic ''Expecting to have state diff up to the marker.'')
        | Some state_diff \<Rightarrow>
            if tsd_declared_classes state_diff = [] then skip_blocks_without_classes db state_marker (Suc from)
            else Inr from)
      else Inr from)"
  by pat_completeness auto
termination by (relation "measure (\<lambda>(_, state_marker, from). state_marker - from)") auto

declare skip_blocks_without_classes.simps [simp del]

definition stream_new_compiled_classes ::
  "storage_txn \<Rightarrow> (class_hash \<times> compiled_class_hash \<times> casm_class) source \<Rightarrow> nat \<Rightarrow> stream_round sresult" where
  "stream_new_compiled_classes db central_compiled_classes max_stream_size =
     (let state_marker = get_state_marker db in
      res_bind (skip_blocks_without_classes db state_marker (get_compiled_class_marker db)) (\<lambda>from.
        Inr (if from = state_marker then Wait
             else Yield (yield_all (\<lambda>(class_hash, compiled_class_hash, compiled_class).
                      CompiledClassAvailable class_hash compiled_class_hash compiled_class)
                    (central_compiled_classes from (min state_marker (from + max_stream_size)))))))"

definition stream_new_base_layer_block ::
  "storage_txn \<Rightarrow> (block_number \<times> block_hash) option sync_result \<Rightarrow> stream_round" where
  "stream_new_base_layer_block db latest_proved_block =
     (case latest_proved_block of
        Inl e \<Rightarrow> Yield [Inl e]
      | Inr (Some (block_number, block_hash)) \<Rightarrow>
          if get_header_marker db \<le> block_number then Wait
          else Yield [Inr (NewBaseLayerBlock block_number block_hash)]
      | Inr None \<Rightarrow> Wait)"

definition check_sync_progress ::
  "block_number \<times> block_number \<times> block_number \<Rightarrow> storage_txn \<Rightarrow>
   (block_number \<times> block_number \<times> block_number) \<times> stream_round" where
  "check_sync_progress markers db =
     (case markers of (header_marker, state_marker, casm_marker) \<Rightarrow>
        let new_header_marker = get_header_marker db;
            new_state_marker = get_state_marker db;
            new_casm_marker = get_compiled_class_marker db
        in ((new_header_marker, new_state_marker, new_casm_marker),
            if header_marker = new_header_marker \<or> state_marker = new_state_marker \<or> casm_marker = new_casm_marker
            then Yield [Inr NoProgressEvent] else Wait))"

section \<open>The main loop\<close>

text \<open>
  \<open>sync_while_ok\<close> with the answers of the central source and the sequence in which the events of the
  streams are selected; a sequence that is used up means that the loop still waits. \<open>run\<close> starts it again
  after every recoverable error.
\<close>

fun process_events ::
  "serde_sizes \<Rightarrow> thin_of \<Rightarrow> storage_txn \<Rightarrow> sync_event sync_result list \<Rightarrow> storage_txn \<times> sync_error option" where
  "process_events sz fsd db [] = (db, None)"
| "process_events sz fsd db (Inl e # events) = (db, Some e)"
| "process_events sz fsd db (Inr sync_event # events) =
     (case process_sync_event sz fsd db sync_event of
        Inl e \<Rightarrow> (db, Some e)
      | Inr db \<Rightarrow> process_events sz fsd db events)"

type_synonym sync_state = "nat option \<times> storage_txn"

type_synonym sync_input = "nat sync_result \<times> central_hashes \<times> sync_event sync_result list"

definition sync_while_ok ::
  "serde_sizes \<Rightarrow> thin_of \<Rightarrow> (class_hash set \<Rightarrow> class_hash list) \<Rightarrow> bool \<Rightarrow> sync_state \<Rightarrow> sync_input \<Rightarrow>
   sync_state \<times> sync_error option" where
  "sync_while_ok sz fsd ord verify_blocks = (\<lambda>(key, db) (key_answer, central, events).
     case (if verify_blocks then track_sequencer_public_key_changes key key_answer else (key, Inr ())) of
       (key, Inl e) \<Rightarrow> ((key, db), Some e)
     | (key, Inr _) \<Rightarrow>
         (case handle_block_reverts ord central db of
            (db, Inl e) \<Rightarrow> ((key, db), Some e)
          | (db, Inr _) \<Rightarrow> (case process_events sz fsd db events of (db, e) \<Rightarrow> ((key, db), e))))"

fun run ::
  "serde_sizes \<Rightarrow> thin_of \<Rightarrow> (class_hash set \<Rightarrow> class_hash list) \<Rightarrow> bool \<Rightarrow> sync_state \<Rightarrow> sync_input list \<Rightarrow>
   sync_state \<times> sync_error option" where
  "run sz fsd ord verify_blocks state [] = (state, None)"
| "run sz fsd ord verify_blocks state (input # inputs) =
     (case sync_while_ok sz fsd ord verify_blocks state input of
        (state, Some err) \<Rightarrow>
          if is_recoverable err then run sz fsd ord verify_blocks state inputs else (state, Some err)
      | (state, None) \<Rightarrow> (state, None))"

section \<open>The databases synchronization reaches\<close>

text \<open>
  What the streams guarantee of an event: a block number below the largest one; a state diff for a block
  whose header is stored, since its range ends at the header marker and headers are only reverted after
  the streams are dropped; maps without duplicate keys.
\<close>

definition sd_wf :: "state_diff \<Rightarrow> bool" where
  "sd_wf sd \<longleftrightarrow>
     distinct (map fst (sd_deployed_contracts sd)) \<and> distinct (map fst (sd_storage_diffs sd)) \<and>
     (\<forall>(a, es) \<in> set (sd_storage_diffs sd). distinct (map fst es)) \<and>
     distinct (map fst (sd_declared_classes sd)) \<and> distinct (map fst (sd_deprecated_declared_classes sd)) \<and>
     distinct (map fst (sd_nonces sd)) \<and> distinct (map fst (sd_replaced_classes sd))"

fun event_from_stream :: "storage_txn \<Rightarrow> sync_event \<Rightarrow> bool" where
  "event_from_stream db (BlockAvailable b _ _ _) \<longleftrightarrow> b < u64_max"
| "event_from_stream db (StateDiffAvailable b _ sd _) \<longleftrightarrow> b < get_header_marker db \<and> sd_wf sd"
| "event_from_stream db _ \<longleftrightarrow> True"

text \<open>A dropped transaction may have appended an object to any of the files.\<close>

definition abandoned_append :: "serde_sizes \<Rightarrow> storage_txn \<Rightarrow> storage_txn \<Rightarrow> bool" where
  "abandoned_append sz db db' \<longleftrightarrow>
     (\<exists>x. db' = fst (append_thin_state_diff sz db x)) \<or> (\<exists>x. db' = fst (append_contract_class sz db x)) \<or>
     (\<exists>x. db' = fst (append_casm_file sz db x)) \<or> (\<exists>x. db' = fst (append_deprecated_contract_class sz db x)) \<or>
     (\<exists>x. db' = fst (append_transaction_output sz db x)) \<or> (\<exists>x. db' = fst (append_transaction sz db x))"

inductive synced ::
  "serde_sizes \<Rightarrow> thin_of \<Rightarrow> (class_hash set \<Rightarrow> class_hash list) \<Rightarrow> storage_txn \<Rightarrow> bool"
  for sz fsd ord where
  start: "synced sz fsd ord (empty_txn FullArchive)"
| event: "synced sz fsd ord db \<Longrightarrow> event_from_stream db ev \<Longrightarrow> process_sync_event sz fsd db ev = Inr db' \<Longrightarrow>
    synced sz fsd ord db'"
| abandoned: "synced sz fsd ord db \<Longrightarrow> abandoned_append sz db db' \<Longrightarrow> synced sz fsd ord db'"
| reverted: "synced sz fsd ord db \<Longrightarrow> get_header_marker db = Suc b \<Longrightarrow> revert_block ord db b = Inr db' \<Longrightarrow>
    synced sz fsd ord db'"

text \<open>What is relied on of the conversion of a state diff.\<close>

definition thin_law :: "thin_of \<Rightarrow> bool" where
  "thin_law fsd \<longleftrightarrow>
     (\<forall>sd. sd_wf sd \<longrightarrow>
        (case fsd sd of (d, cs, dcs) \<Rightarrow>
           diff_wf d \<and> map fst cs = map fst (tsd_declared_classes d)))"

fun linked :: "block_header list \<Rightarrow> bool" where
  "linked (a # b # hs) \<longleftrightarrow> sbh_parent_hash b = sbh_block_hash a \<and> linked (b # hs)"
| "linked _ \<longleftrightarrow> True"

definition sync_inv ::
  "storage_txn \<Rightarrow> block_header list \<Rightarrow> stored_tx list list \<Rightarrow> thin_state_diff list \<Rightarrow> bool" where
  "sync_inv db hs bs ds \<longleftrightarrow>
     header_rel db hs \<and> body_rel db bs \<and> state_rel db ds \<and> classes_wf db \<and> length bs = length hs \<and>
     length ds \<le> length hs \<and> get_marker db MkClass = length ds \<and>
     distinct (declared_order ds) \<and>
     (\<forall>c. fmlookup (tx_declared_classes db) c = None \<longleftrightarrow> c \<notin> set (declared_order ds)) \<and>
     get_marker db MkBaseLayerBlock \<le> length hs \<and> linked hs \<and> length hs \<le> u64_max"

section \<open>Every step keeps the invariant\<close>

lemma storage_eq_Inr [simp]: "storage r = Inr x \<longleftrightarrow> r = Inr x"
  by (cases r) (simp_all add: storage_def)

lemma linked_append: "linked (hs @ [h]) \<longleftrightarrow> linked hs \<and> (hs \<noteq> [] \<longrightarrow> sbh_parent_hash h = sbh_block_hash (last hs))"
  by (induction hs rule: linked.induct) auto

lemma linked_nth: "linked hs \<Longrightarrow> Suc b < length hs \<Longrightarrow> sbh_parent_hash (hs ! Suc b) = sbh_block_hash (hs ! b)"
proof (induction hs arbitrary: b rule: linked.induct)
  case (1 x y hs)
  then show ?case by (cases b) auto
qed auto

lemma sync_invD:
  assumes "sync_inv db hs bs ds"
  shows "header_rel db hs" "body_rel db bs" "state_rel db ds" "classes_wf db" "length bs = length hs"
    "length ds \<le> length hs" "get_marker db MkClass = length ds"
    "distinct (declared_order ds)" "\<And>c. fmlookup (tx_declared_classes db) c = None \<longleftrightarrow> c \<notin> set (declared_order ds)"
    "get_marker db MkBaseLayerBlock \<le> length hs" "linked hs" "length hs \<le> u64_max"
  using assms unfolding sync_inv_def by blast+

lemma sync_inv_empty: "sync_inv (empty_txn FullArchive) [] [] []"
  by (simp add: sync_inv_def header_rel_empty body_rel_empty state_rel_empty classes_wf_empty) (simp add: empty_txn_def)

lemma header_rel_get: "header_rel db hs \<Longrightarrow> b < length hs \<Longrightarrow> get_block_header db b = Inr (Some (hs ! b))"
  by (simp add: header_rel_def)

lemma header_rel_get_beyond:
  assumes "header_rel db hs" and "length hs \<le> b" and "get_block_header db b = Inr r"
  shows "r = None"
proof (rule ccontr)
  assume "r \<noteq> None"
  then obtain h where "r = Some h" by blast
  with get_block_header_hash [of db b h] assms(3) obtain sh where "fmlookup (tx_headers db) b = Some sh" by blast
  then show False using assms(1,2) by (auto simp: header_rel_def header_wf_def dest: fmdomI)
qed

lemma verify_parent_linked:
  assumes rel: "header_rel db hs" and linked: "linked hs"
    and verify: "verify_parent_block_hash db (length hs) h = Inr ()"
  shows "linked (hs @ [h])"
proof (cases hs rule: rev_cases)
  case (snoc hs' h')
  have "get_block_header db (length hs') = Inr (Some h')" using header_rel_get [OF rel, of "length hs'"] snoc by simp
  then show ?thesis
    using verify linked unfolding linked_append by (simp add: snoc verify_parent_block_hash_def storage_def split: if_splits)
qed simp

lemma store_block_inv:
  assumes inv: "sync_inv db hs bs ds" and sz: "sizes_positive sz" and b: "b < u64_max"
    and store: "store_block sz db b h body sig = Inr db'"
  shows "b = length hs \<and> sync_inv db' (hs @ [h]) (bs @ [body_block body]) ds"
proof -
  note I = sync_invD [OF inv]
  from store obtain t u where verify: "verify_parent_block_hash db b h = Inr ()"
    and t: "append_header db b h = Inr t" and u: "append_block_signature t b sig = Inr u"
    and db': "append_body sz u b body = Inr db'"
    by (auto simp: store_block_def res_bind_eq_Inr)
  note frame = append_body_frame [OF db', unfolded body_frame_def]
  note parts = append_header_parts [OF t] append_block_signature_parts [OF u]
  have "header_rel t (hs @ [h])" and len: "b = length hs" using append_header_rel [OF I(1) t b] by simp_all
  then have "header_rel db' (hs @ [h])"
    using header_part_rel [of db' u] append_block_signature_rel [OF _ u] frame by blast
  moreover have "body_rel u bs" using I(2) body_part_rel [of u db] parts(1,5) by simp
  with append_body_rel [OF db' _ sz] have "body_rel db' (bs @ [body_block body])" by blast
  moreover have "state_part db' = state_part db" "class_part db' = class_part db"
    "get_marker db' MkBaseLayerBlock = get_marker db MkBaseLayerBlock" using frame parts by simp_all
  moreover from this(2) have "tx_declared_classes db' = tx_declared_classes db"
    "get_marker db' MkClass = get_marker db MkClass" by (simp_all add: class_part_def)
  moreover have "linked (hs @ [h])" using verify_parent_linked [OF I(1,11)] verify len by simp
  ultimately show ?thesis
    using I b len state_part_rel [of db' db] class_part_wf [of db' db] unfolding sync_inv_def by simp
qed

lemma state_frame_rels:
  assumes "state_frame db u"
  shows "header_rel u hs = header_rel db hs" "body_rel u bs = body_rel db bs"
    "get_marker u MkBaseLayerBlock = get_marker db MkBaseLayerBlock"
  using assms header_part_rel [of u db] body_part_rel [of u db] by (simp_all add: state_frame_def)

lemma diff_new_declared_order:
  "diff_new ds d \<Longrightarrow> set (declared_order ds) \<inter> fst ` set (tsd_declared_classes d) = {}"
  by (simp add: diff_new_def declared_order_def) blast

lemma store_state_diff_inv:
  assumes inv: "sync_inv db hs bs ds" and sz: "sizes_positive sz" and law: "thin_law fsd"
    and b: "b < length hs" and wf: "sd_wf sd"
    and store: "store_state_diff sz fsd db b sd defs = Inr db'"
  shows "b = length ds \<and> sync_inv db' hs bs (ds @ [fst (fsd sd)])"
proof -
  note I = sync_invD [OF inv]
  obtain d cs dcs where fsd: "fsd sd = (d, cs, dcs)" by (metis surj_pair)
  from store obtain t where t: "append_state_diff sz db b d = Inr t"
    and db': "append_classes sz t b cs (dcs @ defs) = Inr db'"
    by (auto simp: store_state_diff_def fsd res_bind_eq_Inr)
  have dwf: "diff_wf d" and keys: "map fst cs = map fst (tsd_declared_classes d)"
    using law [unfolded thin_law_def, rule_format, OF wf] by (simp_all add: fsd)
  have rel: "state_rel t (ds @ [d])" and len: "b = length ds" and new: "diff_new ds d"
    using append_state_diff_rel [OF t I(3) dwf sz] by simp_all
  have twf: "classes_wf t" using append_state_diff_frame(2) [OF t] I(4) by simp
  note classes = append_classes_spec [OF twf sz db']
  note cf = append_classes_frame [OF db']
  have frame: "state_frame db db'"
    by (rule state_frame_trans [OF append_state_diff_state_frame [OF t] append_classes_state_frame [OF db']])
  have declared: "fmlookup (tx_declared_classes db') c = None \<longleftrightarrow> c \<notin> set (declared_order (ds @ [d]))" for c
  proof -
    have get: "get_class db' c = (case map_of cs c of Some x \<Rightarrow> Inr (Some x) | None \<Rightarrow> get_class t c)"
      using classes by blast
    have "get_class db' c = Inr None \<longleftrightarrow> map_of cs c = None \<and> get_class t c = Inr None"
      unfolding get by (cases "map_of cs c") simp_all
    also have "\<dots> \<longleftrightarrow> c \<notin> set (map fst (tsd_declared_classes d)) \<and> c \<notin> set (declared_order ds)"
      unfolding keys [symmetric] get_class_eq_None [OF twf] append_state_diff_frame(1) [OF t] I(9)
      by (simp add: map_of_eq_None_iff)
    finally show ?thesis using classes get_class_eq_None [of db' c] by auto
  qed
  have "distinct (declared_order (ds @ [d]))"
    using I(8) dwf new diff_new_declared_order unfolding diff_wf_def by simp
  moreover have "state_rel db' (ds @ [d])" using rel class_frame_state_rel [OF cf(1)] by simp
  moreover have "get_marker db' MkClass = Suc (length ds)" using cf(3) len by (simp add: get_class_marker_def)
  moreover have "classes_wf db'" using classes by blast
  ultimately show ?thesis
    using I(1,2,5,10,11,12) b len unfolding sync_inv_def state_frame_rels [OF frame] fsd fst_conv
    by (intro conjI allI) (simp_all only: declared, simp_all)
qed

lemma store_compiled_class_inv:
  assumes inv: "sync_inv db hs bs ds" and sz: "sizes_positive sz"
    and append: "append_casm sz db c x = Inr db'"
  shows "sync_inv db' hs bs ds"
proof -
  note I = sync_invD [OF inv] and P = append_casm_parts [OF sync_invD(3) [OF inv] append]
  have "classes_wf db'" using append_casm_reads [OF I(4) sz append] by blast
  then show ?thesis using I P unfolding sync_inv_def state_frame_rels [OF P(1)] by simp
qed

lemma base_marker_rels:
  "header_rel (set_marker db MkBaseLayerBlock b) hs = header_rel db hs"
  "body_rel (set_marker db MkBaseLayerBlock b) bs = body_rel db bs"
  "state_rel (set_marker db MkBaseLayerBlock b) ds = state_rel db ds"
  "classes_wf (set_marker db MkBaseLayerBlock b) = classes_wf db"
  by (rule header_part_rel body_part_rel state_part_rel class_part_wf; simp add: part_defs)+

lemma store_base_layer_block_inv:
  assumes inv: "sync_inv db hs bs ds" and store: "store_base_layer_block db b h = Inr db'"
  shows "sync_inv db' hs bs ds"
proof -
  note I = sync_invD [OF inv]
  from store obtain header where header: "get_block_header db b = Inr (Some header)"
    and db': "db' = db \<or> db' = set_marker db MkBaseLayerBlock (Suc b)"
    by (auto simp: store_base_layer_block_def res_bind_eq_Inr update_base_layer_block_marker_def
        split: option.splits if_splits)
  have "b < length hs" using header_rel_get_beyond [OF I(1) _ header] by (simp add: not_le [symmetric]) blast
  then show ?thesis using db' inv unfolding sync_inv_def by (elim disjE) (simp_all add: base_marker_rels)
qed

text \<open>An object that is appended and not referred to changes nothing that can be read.\<close>

lemma stored_as_mono:
  assumes "stored_as db md e"
    and "\<And>loc w. file_get (fs_transaction (tx_file_handlers db)) loc = Some w \<Longrightarrow>
      file_get (fs_transaction (tx_file_handlers u)) loc = Some w"
    and "\<And>loc w. file_get (fs_transaction_output (tx_file_handlers db)) loc = Some w \<Longrightarrow>
      file_get (fs_transaction_output (tx_file_handlers u)) loc = Some w"
  shows "stored_as u md e"
  using assms by (simp add: stored_as_def)

definition file_grown :: "'a file_handler \<Rightarrow> 'a file_handler \<Rightarrow> bool" where
  "file_grown f f' \<longleftrightarrow> (file_wf f \<longrightarrow> file_wf f' \<and> (\<forall>loc w. file_get f loc = Some w \<longrightarrow> file_get f' loc = Some w))"

lemma file_grown_refl [simp]: "file_grown f f"
  by (simp add: file_grown_def)

lemma file_grownD:
  "file_grown f f' \<Longrightarrow> file_wf f \<Longrightarrow> file_wf f'"
  "file_grown f f' \<Longrightarrow> file_wf f \<Longrightarrow> file_get f loc \<noteq> None \<Longrightarrow> file_get f' loc \<noteq> None"
  by (auto simp: file_grown_def)

lemma file_grown_append:
  assumes "0 < len v"
  shows "file_grown f (fst (file_append len f v))"
proof -
  obtain f' loc where app: "file_append len f v = (f', loc)" by fastforce
  show ?thesis unfolding file_grown_def app fst_conv
    using file_append_wf [where len = len, OF _ assms app] file_append_keeps [OF app] by blast
qed

definition files_grown :: "file_handlers \<Rightarrow> file_handlers \<Rightarrow> bool" where
  "files_grown fs fs' \<longleftrightarrow>
     file_grown (fs_thin_state_diff fs) (fs_thin_state_diff fs') \<and>
     file_grown (fs_contract_class fs) (fs_contract_class fs') \<and> file_grown (fs_casm fs) (fs_casm fs') \<and>
     file_grown (fs_deprecated_contract_class fs) (fs_deprecated_contract_class fs') \<and>
     file_grown (fs_transaction_output fs) (fs_transaction_output fs') \<and>
     file_grown (fs_transaction fs) (fs_transaction fs')"

lemma append_files_grown:
  assumes sz: "sizes_positive sz" and "abandoned_append sz db db'"
  shows "\<exists>fs. files_grown (tx_file_handlers db) fs \<and> db' = db\<lparr>tx_file_handlers := fs\<rparr>"
  using assms(2) unfolding abandoned_append_def
  by (elim disjE exE; intro exI [of _ "tx_file_handlers db'"])
    (auto simp: append_thin_state_diff_def append_contract_class_def append_casm_file_def
      append_deprecated_contract_class_def append_transaction_output_def append_transaction_def files_grown_def
      Let_def split_beta intro!: file_grown_append sz [unfolded sizes_positive_def, THEN conjunct1, rule_format]
      simp: sz [unfolded sizes_positive_def])

lemma grown_body_rel:
  assumes rel: "body_rel db bs" and grown: "files_grown (tx_file_handlers db) fs"
  shows "body_rel (db\<lparr>tx_file_handlers := fs\<rparr>) bs"
proof -
  let ?u = "db\<lparr>tx_file_handlers := fs\<rparr>"
  have tables: "body_tables db (tx_at bs)" using rel by (simp add: body_rel_def)
  then have files: "file_wf (fs_transaction (tx_file_handlers db))" "file_wf (fs_transaction_output (tx_file_handlers db))"
    by (simp_all add: body_tables_def)
  have mono: "stored_as ?u md e" if "stored_as db md e" for md e
    by (rule stored_as_mono [OF that]) (use grown files in \<open>auto simp: files_grown_def file_grown_def\<close>)
  have "rel_option (stored_as ?u) x y" if "rel_option (stored_as db) x y" for x y
    using that mono by (auto intro: option.rel_mono_strong)
  then have "body_tables ?u (tx_at bs)"
    using tables grown files by (simp add: body_tables_def files_grown_def file_grown_def)
  then show ?thesis using rel by (simp add: body_rel_def)
qed

lemma grown_state_rel:
  assumes rel: "state_rel db ds" and grown: "files_grown (tx_file_handlers db) fs"
  shows "state_rel (db\<lparr>tx_file_handlers := fs\<rparr>) ds"
proof -
  note D = state_relD [OF rel]
  have f: "file_wf (fs_thin_state_diff fs)" "\<And>loc w. file_get (fs_thin_state_diff (tx_file_handlers db)) loc = Some w \<Longrightarrow>
      file_get (fs_thin_state_diff fs) loc = Some w"
    using grown D(8) by (simp_all add: files_grown_def file_grown_def)
  have "rel_option (\<lambda>loc d. file_get (fs_thin_state_diff fs) loc = Some d) x y"
    if "rel_option (\<lambda>loc d. file_get (fs_thin_state_diff (tx_file_handlers db)) loc = Some d) x y" for x y
    using that f(2) by (auto intro: option.rel_mono_strong)
  then show ?thesis using rel f(1) unfolding state_rel_def by simp
qed

lemma grown_classes_wf:
  assumes "classes_wf db" and "files_grown (tx_file_handlers db) fs"
  shows "classes_wf (db\<lparr>tx_file_handlers := fs\<rparr>)"
  using assms unfolding classes_wf_def classes_readable_def files_grown_def
  by (simp del: not_None_eq) (meson file_grownD)

lemma abandoned_inv:
  assumes inv: "sync_inv db hs bs ds" and sz: "sizes_positive sz" and abandoned: "abandoned_append sz db db'"
  shows "sync_inv db' hs bs ds"
proof -
  from append_files_grown [OF sz abandoned] obtain fs
    where fs: "files_grown (tx_file_handlers db) fs" and db': "db' = db\<lparr>tx_file_handlers := fs\<rparr>" by blast
  note I = sync_invD [OF inv]
  have "header_rel db' hs" using I(1) header_part_rel [of db' db] by (simp add: db' part_defs)
  then show ?thesis
    using I grown_body_rel [OF I(2) fs] grown_state_rel [OF I(3) fs] grown_classes_wf [OF I(4) fs]
    unfolding sync_inv_def by (simp add: db')
qed

lemma process_sync_event_inv:
  assumes inv: "sync_inv db hs bs ds" and sz: "sizes_positive sz" and law: "thin_law fsd"
    and ev: "event_from_stream db ev" and process: "process_sync_event sz fsd db ev = Inr db'"
  shows "\<exists>hs bs ds. sync_inv db' hs bs ds"
proof (cases ev)
  case (BlockAvailable b h body sig)
  then show ?thesis using store_block_inv [OF inv sz] ev process by fastforce
next
  case (StateDiffAvailable b bh sd defs)
  have "b < length hs" using ev sync_invD(1) [OF inv] by (simp add: StateDiffAvailable header_rel_def)
  then show ?thesis using store_state_diff_inv [OF inv sz law] ev process by (fastforce simp: StateDiffAvailable)
next
  case (CompiledClassAvailable c ch x)
  with process consider "append_casm sz db c x = Inr db'" | "db' = fst (append_casm_file sz db x)"
    by (auto simp: store_compiled_class_def split: sum.splits storage_failure.splits storage_error.splits
        db_error.splits)
  then show ?thesis
  proof cases
    case 1
    then show ?thesis using store_compiled_class_inv [OF inv sz] by blast
  next
    case 2
    then have "abandoned_append sz db db'" by (auto simp: abandoned_append_def)
    then show ?thesis using abandoned_inv [OF inv sz] by blast
  qed
next
  case (NewBaseLayerBlock b h)
  then show ?thesis using store_base_layer_block_inv [OF inv] process by fastforce
qed (use process in simp)

section \<open>Reverting\<close>

lemma try_revert_base_layer_marker_inv:
  assumes "sync_inv db (hs @ [h]) bs ds"
  defines "u \<equiv> try_revert_base_layer_marker db (length hs)"
  shows "sync_inv u (hs @ [h]) bs ds" and "get_marker u MkBaseLayerBlock \<le> length hs"
  using assms(1) sync_invD(10) [OF assms(1)]
  by (simp_all add: u_def try_revert_base_layer_marker_def get_base_layer_block_marker_def sync_inv_def
      update_base_layer_block_marker_def base_marker_rels)

lemma revert_state_diff_noop:
  assumes "state_rel txn ds" and "length ds \<noteq> Suc b"
  shows "revert_state_diff ord txn b = Inr (txn, None)"
  using assms state_relD(1) [OF assms(1)] by (auto simp: revert_state_diff_def get_state_marker_def bn_next_def)

lemma revert_state_diff_inv:
  assumes rel: "state_rel u (ds @ [d])" and wf: "classes_wf u" and bound: "length ds < u64_max"
    and class_marker: "get_marker u MkClass = Suc (length ds)" and distinct: "distinct (declared_order (ds @ [d]))"
    and declared: "\<And>c. fmlookup (tx_declared_classes u) c = None \<longleftrightarrow> c \<notin> set (declared_order (ds @ [d]))"
  shows "\<exists>v r. revert_state_diff ord u (length ds) = Inr (v, r) \<and> state_rel v ds \<and> classes_wf v \<and>
    get_marker v MkClass = length ds \<and> state_frame u v \<and>
    (\<forall>c. fmlookup (tx_declared_classes v) c = None \<longleftrightarrow> c \<notin> set (declared_order ds))"
proof -
  have readable: "classes_readable u" using wf by (simp add: classes_wf_def)
  have stored: "fmlookup (tx_declared_classes u) c \<noteq> None" if "c \<in> fst ` set (tsd_declared_classes d)" for c
    unfolding declared using that by simp
  from revert_state_diff_rel [OF rel bound readable _ stored, of ord] distinct obtain v deleted
    where v: "revert_state_diff ord u (length ds) = Inr (v, Some (d, deleted))" "state_rel v ds"
      "\<And>k. get_marker v k = get_marker (revert_markers u (length ds)) k" "tx_file_handlers v = tx_file_handlers u"
      "tx_declared_classes v = fmfilter (\<lambda>c. c \<notin> fst ` set (tsd_declared_classes d)) (tx_declared_classes u)"
      "classes_readable v" "revert_frame u v" by auto
  have "classes_wf v" using v(4,6) wf by (simp add: classes_wf_def)
  moreover have "get_marker v MkClass = length ds"
    unfolding v(3) using class_marker by (simp add: revert_markers_def Let_def)
  moreover have "state_frame u v" by (rule revert_state_diff_state_frame [OF v(7,4,3)])
  moreover have "fmlookup (tx_declared_classes v) c = None \<longleftrightarrow> c \<notin> set (declared_order ds)" for c
    using declared [of c] distinct by (auto simp: v(5))
  ultimately show ?thesis using v(1,2) by blast
qed

text \<open>Reverting the last block never fails, and leaves the blocks before it as they were.\<close>

lemma revert_block_inv:
  assumes inv: "sync_inv db (hs @ [h]) (bs @ [blk]) ds" and len: "length bs = length hs"
  shows "\<exists>db'. revert_block ord db (length hs) = Inr db' \<and> sync_inv db' hs bs (take (length hs) ds)"
proof -
  let ?b = "length hs"
  define t where "t = try_revert_base_layer_marker db ?b"
  note I = sync_invD [OF try_revert_base_layer_marker_inv(1) [OF inv], folded t_def]
  note base = try_revert_base_layer_marker_inv(2) [OF inv, folded t_def]
  have bound: "?b < u64_max" using I(12) by simp
  from revert_header_rel [OF I(1) bound] obtain u sig
    where u: "revert_header t ?b = Inr (u, Some h, sig)" "header_rel u hs" by blast
  note P = revert_header_parts [OF u(1)]
  have urel: "body_rel u (bs @ [blk])" using I(2) body_part_rel [OF P(1)] by simp
  from revert_body_rel [OF urel] bound len obtain v r
    where v: "revert_body u ?b = Inr (v, r)" "body_rel v bs" by auto
  note F = revert_body_frame [OF v(1), unfolded body_frame_def]
  have vs: "state_rel v ds" "classes_wf v"
    using I(3,4) state_part_rel [of v t] class_part_wf [of v t] P(2,3) F by simp_all
  have vc: "get_marker v MkClass = length ds" "tx_declared_classes v = tx_declared_classes t"
    using I(7) P(3) F by (simp_all add: class_part_def)
  have vh: "header_rel v hs" using u(2) header_part_rel [of v u] F by simp
  have vb: "get_marker v MkBaseLayerBlock \<le> ?b" using base P(4) F by simp
  have link: "linked hs" using I(11) by (simp add: linked_append)
  have "\<exists>w r. revert_state_diff ord v ?b = Inr (w, r) \<and> sync_inv w hs bs (take ?b ds)"
  proof (cases "length ds = Suc ?b")
    case True
    then obtain ds' d where ds: "ds = ds' @ [d]" and len': "length ds' = ?b" by (cases ds rule: rev_cases) auto
    from revert_state_diff_inv [of v ds' d ord] vs vc I(8,9) bound obtain w r
      where w: "revert_state_diff ord v ?b = Inr (w, r)" "state_rel w ds'" "classes_wf w"
        "get_marker w MkClass = ?b" "state_frame v w"
        "\<forall>c. fmlookup (tx_declared_classes w) c = None \<longleftrightarrow> c \<notin> set (declared_order ds')"
      unfolding ds len' [symmetric] by auto
    have "sync_inv w hs bs ds'"
      using w(2,3,4,6) vh v(2) vb link bound len len' I(8) ds unfolding sync_inv_def state_frame_rels [OF w(5)] by simp
    then show ?thesis using w(1) by (auto simp: ds len')
  next
    case False
    then have "length ds \<le> ?b" using I(6) by simp
    then have "sync_inv v hs bs (take ?b ds)"
      using vs vc vh v(2) vb link bound len I(8,9) unfolding sync_inv_def by simp
    then show ?thesis using revert_state_diff_noop [OF vs(1) False] by blast
  qed
  then show ?thesis
    by (auto simp: revert_block_def t_def [symmetric] u(1) v(1) storage_def Let_def)
qed

lemma synced_inv:
  assumes "synced sz fsd ord db" and "sizes_positive sz" and "thin_law fsd"
  shows "\<exists>hs bs ds. sync_inv db hs bs ds"
  using assms(1)
proof induction
  case start
  show ?case using sync_inv_empty by blast
next
  case (event db ev db')
  then show ?case using process_sync_event_inv [OF _ assms(2,3)] by blast
next
  case (abandoned db db')
  then show ?case using abandoned_inv [OF _ assms(2)] by blast
next
  case (reverted db b db')
  then obtain hs bs ds where inv: "sync_inv db hs bs ds" by blast
  have len: "length hs = Suc b" "length bs = Suc b"
    using reverted.hyps(2) sync_invD(1,5) [OF inv] by (simp_all add: header_rel_def)
  obtain hs' h where hs: "hs = hs' @ [h]" "length hs' = b" using len(1) by (cases hs rule: rev_cases) auto
  obtain bs' blk where bs: "bs = bs' @ [blk]" "length bs' = b" using len(2) by (cases bs rule: rev_cases) auto
  from revert_block_inv [of db hs' h bs' blk ds ord] inv reverted.hyps(3) show ?case by (auto simp: hs bs)
qed

lemma should_revert_block_eq:
  assumes "sync_inv db hs bs ds" and "b < length hs" and "central b = Inr answer"
  shows "should_revert_block central db b = Inr (answer \<noteq> Some (sbh_block_hash (hs ! b)))"
  using header_rel_get [OF sync_invD(1) [OF assms(1)] assms(2)] assms(3)
  by (cases answer) (auto simp: should_revert_block_def storage_def)

lemma handle_block_reverts_loop_spec:
  assumes "sync_inv db hs bs ds" and "n = length hs" and "\<And>b. b < n \<Longrightarrow> \<exists>answer. central b = Inr answer"
  shows "\<exists>db' m. handle_block_reverts_loop ord central n db = (db', Inr ()) \<and> m \<le> n \<and>
    sync_inv db' (take m hs) (take m bs) (take m ds) \<and>
    (\<forall>b. m \<le> b \<longrightarrow> b < n \<longrightarrow> central b \<noteq> Inr (Some (sbh_block_hash (hs ! b)))) \<and>
    (0 < m \<longrightarrow> central (m - 1) = Inr (Some (sbh_block_hash (hs ! (m - 1))))) \<and>
    (synced sz fsd ord db \<longrightarrow> synced sz fsd ord db')"
  using assms
proof (induction n arbitrary: db hs bs ds)
  case 0
  then show ?case using sync_invD(5,6) [OF 0(1)] by auto
next
  case (Suc n)
  obtain answer where answer: "central n = Inr answer" using Suc.prems(3) by blast
  have should: "should_revert_block central db n = Inr (answer \<noteq> Some (sbh_block_hash (hs ! n)))"
    by (rule should_revert_block_eq [where central = central and b = n, OF Suc.prems(1) _ answer]) (use Suc.prems(2) in simp)
  note len = Suc.prems(2) sync_invD(5,6) [OF Suc.prems(1)]
  show ?case
  proof (cases "answer = Some (sbh_block_hash (hs ! n))")
    case True
    have "take (Suc n) hs = hs" "take (Suc n) bs = bs" "take (Suc n) ds = ds" using len by simp_all
    then show ?thesis
      using should answer Suc.prems(1) True by (intro exI [of _ db] exI [of _ "Suc n"]) auto
  next
    case False
    obtain hs' h where hs: "hs = hs' @ [h]" "length hs' = n" using len(1) by (cases hs rule: rev_cases) auto
    obtain bs' blk where bs: "bs = bs' @ [blk]" "length bs' = n" using len(1,2) by (cases bs rule: rev_cases) auto
    from revert_block_inv [of db hs' h bs' blk ds ord] Suc.prems(1) obtain u
      where u: "revert_block ord db n = Inr u" "sync_inv u hs' bs' (take n ds)" by (auto simp: hs bs)
    from Suc.IH [OF u(2)] hs(2) Suc.prems(3) obtain db' m
      where ih: "handle_block_reverts_loop ord central n u = (db', Inr ())" "m \<le> n"
        "sync_inv db' (take m hs') (take m bs') (take m (take n ds))"
        "\<forall>b. m \<le> b \<longrightarrow> b < n \<longrightarrow> central b \<noteq> Inr (Some (sbh_block_hash (hs' ! b)))"
        "0 < m \<longrightarrow> central (m - 1) = Inr (Some (sbh_block_hash (hs' ! (m - 1))))"
        "synced sz fsd ord u \<longrightarrow> synced sz fsd ord db'" by auto
    have "get_header_marker db = Suc n" using sync_invD(1) [OF Suc.prems(1)] len(1) by (simp add: header_rel_def)
    then have sync: "synced sz fsd ord db \<longrightarrow> synced sz fsd ord db'" using ih(6) synced.reverted u(1) by blast
    have take: "take m hs = take m hs'" "take m bs = take m bs'" "take m (take n ds) = take m ds"
      using ih(2) hs bs by simp_all
    have "central b \<noteq> Inr (Some (sbh_block_hash (hs ! b)))" if "m \<le> b" "b < Suc n" for b
      using that ih(4) False answer hs by (cases "b = n") (simp_all add: nth_append)
    moreover have "0 < m \<longrightarrow> central (m - 1) = Inr (Some (sbh_block_hash (hs ! (m - 1))))"
      using ih(2,5) hs by (auto simp: nth_append)
    moreover have "handle_block_reverts_loop ord central (Suc n) db = (db', Inr ())"
      using should False u(1) ih(1) by simp
    ultimately show ?thesis using ih(2,3) take sync by (intro exI [of _ db'] exI [of _ m]) simp
  qed
qed

section \<open>What the streams ask for next is stored\<close>

lemma store_block_ok:
  assumes inv: "sync_inv db hs bs ds" and sz: "sizes_positive sz" and bound: "length hs < u64_max"
    and parent: "hs \<noteq> [] \<Longrightarrow> sbh_parent_hash h = sbh_block_hash (last hs)"
    and hash: "sbh_block_hash h \<notin> sbh_block_hash ` set hs"
    and txs: "distinct (stored_hashes (bs @ [body_block body]))"
  shows "\<exists>db'. store_block sz db (length hs) h body sig = Inr db'"
proof -
  note I = sync_invD [OF inv]
  have wf: "header_wf db" "get_header_marker db = length hs" using I(1) by (simp_all add: header_rel_def)
  have verify: "verify_parent_block_hash db (length hs) h = Inr ()"
  proof (cases hs rule: rev_cases)
    case (snoc hs' h')
    then show ?thesis
      using header_rel_get [OF I(1), of "length hs'"] parent by (simp add: verify_parent_block_hash_def storage_def)
  qed (simp add: verify_parent_block_hash_def)
  from append_header_ok [OF wf] header_rel_hash_None [OF I(1)] hash obtain t
    where t: "append_header db (length hs) h = Inr t" by blast
  have "header_rel t (hs @ [h])" using append_header_rel [OF I(1) t bound] by blast
  moreover have "length hs |\<notin>| fmdom (tx_block_signatures db)"
    using wf unfolding header_wf_def by (metis less_irrefl)
  then have "fmlookup (tx_block_signatures t) (length hs) = None"
    by (simp add: append_header_eq_Inr(3) [OF t] fmdom_notD)
  ultimately obtain u where u: "append_block_signature t (length hs) sig = Inr u"
    by (simp add: append_block_signature_def header_rel_def tbl_insert_def tbl_get_def)
  have "body_rel u bs"
    using I(2) body_part_rel [of u db] append_header_parts(1) [OF t] append_block_signature_parts(1) [OF u] by simp
  from append_body_ok [OF this sz txs] obtain v where "append_body sz u (length bs) body = Inr v" by blast
  then show ?thesis using verify t u I(5) by (simp add: store_block_def storage_def)
qed

lemma store_state_diff_ok:
  assumes inv: "sync_inv db hs bs ds" and sz: "sizes_positive sz" and law: "thin_law fsd" and wf: "sd_wf sd"
    and new: "diff_new ds (fst (fsd sd))"
  shows "\<exists>db'. store_state_diff sz fsd db (length ds) sd defs = Inr db'"
proof -
  note I = sync_invD [OF inv]
  obtain d cs dcs where fsd: "fsd sd = (d, cs, dcs)" by (metis surj_pair)
  have dwf: "diff_wf d" and keys: "map fst cs = map fst (tsd_declared_classes d)"
    using law [unfolded thin_law_def, rule_format, OF wf] by (simp_all add: fsd)
  have new': "diff_new ds d" using new by (simp add: fsd)
  from append_state_diff_ok [OF I(3) dwf sz new'] obtain t where t: "append_state_diff sz db (length ds) d = Inr t" ..
  have twf: "classes_wf t" using append_state_diff_frame(2) [OF t] I(4) by simp
  have "get_class t c = Inr None" if "c \<in> set (map fst cs)" for c
    unfolding get_class_eq_None [OF twf] append_state_diff_frame(1) [OF t] I(9)
    using that diff_new_declared_order [OF new'] unfolding keys by auto
  moreover have "distinct (map fst cs)" using dwf unfolding keys diff_wf_def by simp
  moreover have "length ds = get_class_marker t"
    using I(7) append_state_diff_frame(3) [OF t] by (simp add: get_class_marker_def)
  ultimately have "\<exists>u. append_classes sz t (length ds) cs (dcs @ defs) = Inr u"
    by (intro append_classes_ok [OF twf sz]) auto
  then show ?thesis using t by (auto simp: store_state_diff_def fsd storage_def)
qed

text \<open>
  Of the central source the streams rely on this: for a range of blocks it yields blocks, and state diffs,
  of that range only.
\<close>

definition in_range :: "('a \<Rightarrow> block_number) \<Rightarrow> 'a source \<Rightarrow> bool" where
  "in_range number source \<longleftrightarrow>
     (\<forall>from up_to x. Inr x \<in> set (source from up_to) \<longrightarrow> from \<le> number x \<and> number x < up_to)"

lemma yield_all_from: "Inr ev \<in> set (yield_all f xs) \<Longrightarrow> \<exists>x. Inr x \<in> set xs \<and> ev = f x"
  by (induction f xs rule: yield_all.induct) auto

lemma skip_blocks_spec:
  assumes rel: "state_rel db ds" and "from \<le> length ds"
  shows "\<exists>r. skip_blocks_without_classes db (length ds) from = Inr r \<and> from \<le> r \<and> r \<le> length ds \<and>
    (\<forall>b. from \<le> b \<longrightarrow> b < r \<longrightarrow> tsd_declared_classes (ds ! b) = []) \<and>
    (r < length ds \<longrightarrow> tsd_declared_classes (ds ! r) \<noteq> [])"
  using assms(2)
proof (induction "length ds - from" arbitrary: "from")
  case 0
  then show ?case by (simp add: skip_blocks_without_classes.simps [of _ _ "from"])
next
  case (Suc n)
  have diff: "get_state_diff db from = Inr (Some (ds ! from))" using state_rel_diff [OF rel] Suc.hyps(2) by simp
  have less: "from < length ds" using Suc.hyps(2) by simp
  show ?case
  proof (cases "tsd_declared_classes (ds ! from) = []")
    case True
    have "n = length ds - Suc from" using Suc.hyps(2) by simp
    from Suc.hyps(1) [OF this] less obtain r
      where r: "skip_blocks_without_classes db (length ds) (Suc from) = Inr r" "Suc from \<le> r" "r \<le> length ds"
        "\<forall>b. Suc from \<le> b \<longrightarrow> b < r \<longrightarrow> tsd_declared_classes (ds ! b) = []"
        "r < length ds \<longrightarrow> tsd_declared_classes (ds ! r) \<noteq> []" by auto
    have "tsd_declared_classes (ds ! b) = []" if "from \<le> b" "b < r" for b
      using r(4) True that by (cases "b = from") auto
    then show ?thesis using r less diff True
      by (intro exI [of _ r]) (simp add: skip_blocks_without_classes.simps [of _ _ "from"])
  next
    case False
    then show ?thesis using less diff
      by (intro exI [of _ "from"]) (simp add: skip_blocks_without_classes.simps [of _ _ "from"])
  qed
qed

lemma distinct_keys_sort_key [simp]: "distinct (map fst (sort_key fst xs)) \<longleftrightarrow> distinct (map fst xs)"
  by (metis mset_map mset_sort mset_eq_imp_distinct_iff)

lemma sort_state_diff_wf: "sd_wf (sort_state_diff sd) = sd_wf sd"
  by (auto simp: sd_wf_def sort_state_diff_def comp_def split_beta)

lemma stream_new_state_diffs_events:
  assumes "in_range fst central" 
    and wf: "\<And>b h sd defs from up_to. Inr (b, h, sd, defs) \<in> set (central from up_to) \<Longrightarrow> sd_wf sd"
    and "stream_new_state_diffs db central n = Yield events" and "Inr ev \<in> set events"
  shows "event_from_stream db ev"
proof -
  let ?up_to = "min (get_header_marker db) (get_state_marker db + n)"
  from assms(3,4) yield_all_from obtain x
    where x: "Inr x \<in> set (central (get_state_marker db) ?up_to)"
      and ev: "ev = (case x of (b, h, sd, defs) \<Rightarrow> StateDiffAvailable b h (sort_state_diff sd) defs)"
    by (force simp: stream_new_state_diffs_def Let_def split: if_splits)
  then have "fst x < get_header_marker db" using assms(1) unfolding in_range_def by (metis min_less_iff_conj)
  then show ?thesis using x wf ev by (auto simp: sort_state_diff_wf split: prod.splits)
qed

text \<open>The events of a run are ones that the streams may deliver at the time.\<close>

fun events_ok :: "serde_sizes \<Rightarrow> thin_of \<Rightarrow> storage_txn \<Rightarrow> sync_event sync_result list \<Rightarrow> bool" where
  "events_ok sz fsd db (Inr ev # events) \<longleftrightarrow>
     event_from_stream db ev \<and>
     (case process_sync_event sz fsd db ev of Inl _ \<Rightarrow> True | Inr db' \<Rightarrow> events_ok sz fsd db' events)"
| "events_ok sz fsd db (Inl _ # _) \<longleftrightarrow> True"
| "events_ok sz fsd db [] \<longleftrightarrow> True"

fun run_ok ::
  "serde_sizes \<Rightarrow> thin_of \<Rightarrow> (class_hash set \<Rightarrow> class_hash list) \<Rightarrow> bool \<Rightarrow> sync_state \<Rightarrow> sync_input list \<Rightarrow> bool" where
  "run_ok sz fsd ord verify state ((k, central, events) # inputs) \<longleftrightarrow>
     events_ok sz fsd (fst (handle_block_reverts ord central (snd state))) events \<and>
     run_ok sz fsd ord verify (fst (sync_while_ok sz fsd ord verify state (k, central, events))) inputs"
| "run_ok sz fsd ord verify state [] \<longleftrightarrow> True"

lemma process_events_synced:
  "synced sz fsd ord db \<Longrightarrow> events_ok sz fsd db events \<Longrightarrow> synced sz fsd ord (fst (process_events sz fsd db events))"
proof (induction sz fsd db events rule: process_events.induct)
  case (3 sz fsd db ev events)
  then show ?case by (cases "process_sync_event sz fsd db ev") (auto intro: synced.event)
qed simp_all

lemma handle_block_reverts_loop_synced:
  assumes "synced sz fsd ord db" and "get_header_marker db = n" and "sizes_positive sz" and "thin_law fsd"
  shows "synced sz fsd ord (fst (handle_block_reverts_loop ord central n db))"
  using assms
proof (induction n arbitrary: db)
  case (Suc n)
  from synced_inv [OF Suc.prems(1,3,4)] obtain hs bs ds where inv: "sync_inv db hs bs ds" by blast
  have len: "length hs = Suc n" "length bs = Suc n"
    using Suc.prems(2) sync_invD(1,5) [OF inv] by (simp_all add: header_rel_def)
  obtain hs' h where hs: "hs = hs' @ [h]" "length hs' = n" using len(1) by (cases hs rule: rev_cases) auto
  obtain bs' blk where bs: "bs = bs' @ [blk]" "length bs' = n" using len(2) by (cases bs rule: rev_cases) auto
  from revert_block_inv [of db hs' h bs' blk ds ord] inv obtain u
    where u: "revert_block ord db n = Inr u" "sync_inv u hs' bs' (take n ds)" by (auto simp: hs bs)
  have "get_header_marker u = n" using sync_invD(1) [OF u(2)] hs(2) by (simp add: header_rel_def)
  with Suc.IH synced.reverted [OF Suc.prems(1,2) u(1)] Suc.prems(3,4)
  have "synced sz fsd ord (fst (handle_block_reverts_loop ord central n u))" by blast
  then show ?case using u(1) Suc.prems(1) by (auto split: sum.splits bool.splits)
qed simp

lemma sync_while_ok_synced:
  assumes "synced sz fsd ord (snd state)" and "sizes_positive sz" and "thin_law fsd"
    and "events_ok sz fsd (fst (handle_block_reverts ord central (snd state))) events"
  shows "synced sz fsd ord (snd (fst (sync_while_ok sz fsd ord verify state (k, central, events))))"
proof -
  have "synced sz fsd ord (fst (handle_block_reverts ord central (snd state)))"
    unfolding handle_block_reverts_def by (rule handle_block_reverts_loop_synced [OF assms(1) refl assms(2,3)])
  with process_events_synced [OF this assms(4)] assms(1) show ?thesis
    by (auto simp: sync_while_ok_def split: prod.splits sum.splits)
qed

section \<open>Properties\<close>

text \<open>
  \<^bold>\<open>C4.\<close> Whatever events the streams deliver, in whatever order, and whatever blocks are reverted in
  between, the modules of the committed database agree with each other: as many bodies as headers, no
  more state diffs than headers, as many processed blocks of classes as state diffs, the compiled class
  marker and the base layer marker inside the chain; every block below the header marker has a header
  whose parent hash is the hash of the block before it; every class that a stored diff declares is stored.
\<close>

theorem synced_storage_consistent:
  assumes "synced sz fsd ord db" and "sizes_positive sz" and "thin_law fsd"
  shows "get_body_marker db = get_header_marker db \<and> get_state_marker db \<le> get_header_marker db \<and>
    get_class_marker db = get_state_marker db \<and> get_compiled_class_marker db \<le> get_state_marker db \<and>
    get_base_layer_block_marker db \<le> get_header_marker db \<and>
    (\<forall>b < get_header_marker db. \<exists>h. get_block_header db b = Inr (Some h) \<and>
       (0 < b \<longrightarrow> (\<exists>p. get_block_header db (b - 1) = Inr (Some p) \<and> sbh_parent_hash h = sbh_block_hash p))) \<and>
    (\<forall>b < get_state_marker db. \<exists>d. get_state_diff db b = Inr (Some d) \<and>
       (\<forall>c \<in> fst ` set (tsd_declared_classes d). \<exists>x. get_class db c = Inr (Some x)))"
proof -
  from synced_inv [OF assms] obtain hs bs ds where inv: "sync_inv db hs bs ds" by blast
  note I = sync_invD [OF inv]
  have m: "get_header_marker db = length hs" "get_body_marker db = length hs" "get_state_marker db = length ds"
    using I(1,5) body_rel_marker [OF I(2)] state_relD(1) [OF I(3)] by (simp_all add: header_rel_def get_state_marker_def)
  have link: "\<exists>h. get_block_header db b = Inr (Some h) \<and>
      (0 < b \<longrightarrow> (\<exists>p. get_block_header db (b - 1) = Inr (Some p) \<and> sbh_parent_hash h = sbh_block_hash p))"
    if "b < length hs" for b
    using that header_rel_get [OF I(1)] linked_nth [OF I(11), of "b - 1"] by (cases b) auto
  have stored: "\<exists>x. get_class db c = Inr (Some x)"
    if "b < length ds" "c \<in> fst ` set (tsd_declared_classes (ds ! b))" for b c
  proof -
    have "c \<in> set (declared_order ds)" using that by (force simp: declared_order_def)
    then have "get_class db c \<noteq> Inr None" unfolding get_class_eq_None [OF I(4)] I(9) by simp
    then show ?thesis unfolding get_class_eq [OF I(4)] by auto
  qed
  show ?thesis
    unfolding m using I(6,7,10) state_relD(2) [OF I(3)] link stored state_rel_diff [OF I(3)]
    by (intro conjI) (simp_all add: get_class_marker_def get_compiled_class_marker_def get_base_layer_block_marker_def)
qed

definition demo_from_state_diff :: thin_of where
  "demo_from_state_diff sd =
     (\<lparr>tsd_deployed_contracts = sd_deployed_contracts sd, tsd_storage_diffs = sd_storage_diffs sd,
       tsd_declared_classes = map (\<lambda>(c, h, _). (c, h)) (sd_declared_classes sd),
       tsd_deprecated_declared_classes = map fst (sd_deprecated_declared_classes sd),
       tsd_nonces = sd_nonces sd, tsd_replaced_classes = sd_replaced_classes sd\<rparr>,
      map (\<lambda>(c, _, x). (c, x)) (sd_declared_classes sd), sd_deprecated_declared_classes sd)"

lemma demo_thin_law: "thin_law demo_from_state_diff"
  by (simp add: thin_law_def demo_from_state_diff_def sd_wf_def diff_wf_def comp_def split_beta)

definition demo_state_diff :: state_diff where
  "demo_state_diff = \<lparr>sd_deployed_contracts = [(1, 50)], sd_storage_diffs = [(1, [(10, 5), (11, 6)])],
     sd_declared_classes = [(50, (500, 5))], sd_deprecated_declared_classes = [(60, 7)], sd_nonces = [(1, 3)],
     sd_replaced_classes = []\<rparr>"

lemma demo_state_diff_wf: "sd_wf demo_state_diff"
  by (simp add: sd_wf_def demo_state_diff_def)

definition demo_synced :: "storage_txn \<Rightarrow> bool" where
  "demo_synced = synced demo_sizes demo_from_state_diff sorted_list_of_set"

lemma demo_sync:
  "\<exists>db1 db2. store_block demo_sizes (empty_txn FullArchive) 0 demo_header demo_body 3 = Inr db1 \<and>
     store_state_diff demo_sizes demo_from_state_diff db1 0 demo_state_diff [] = Inr db2 \<and>
     demo_synced db1 \<and> sync_inv db1 [demo_header] [body_block demo_body] [] \<and>
     demo_synced db2 \<and> sync_inv db2 [demo_header] [body_block demo_body] [fst (demo_from_state_diff demo_state_diff)]"
proof -
  let ?e1 = "BlockAvailable 0 demo_header demo_body 3" and ?e2 = "StateDiffAvailable 0 11 demo_state_diff []"
  have "distinct (stored_hashes [body_block demo_body])"
    by (simp add: stored_hashes_def body_block_def demo_body_def)
  from store_block_ok [OF sync_inv_empty sizes_positive_demo, of demo_header demo_body 3] this obtain db1
    where db1: "store_block demo_sizes (empty_txn FullArchive) 0 demo_header demo_body 3 = Inr db1"
    by (auto simp: u64_max_def)
  have inv1: "sync_inv db1 [demo_header] [body_block demo_body] []"
    using store_block_inv [OF sync_inv_empty sizes_positive_demo _ db1] by (simp add: u64_max_def)
  have "diff_new [] (fst (demo_from_state_diff demo_state_diff))"
    by (simp add: diff_new_def demo_from_state_diff_def demo_state_diff_def)
  from store_state_diff_ok [OF inv1 sizes_positive_demo demo_thin_law demo_state_diff_wf this, of "[]"] obtain db2
    where db2: "store_state_diff demo_sizes demo_from_state_diff db1 0 demo_state_diff [] = Inr db2" by auto
  have inv2: "sync_inv db2 [demo_header] [body_block demo_body] [fst (demo_from_state_diff demo_state_diff)]"
    using store_state_diff_inv [OF inv1 sizes_positive_demo demo_thin_law _ demo_state_diff_wf db2] by simp
  have "event_from_stream (empty_txn FullArchive) ?e1" by (simp add: u64_max_def)
  from synced.event [OF synced.start this] db1 have s1: "demo_synced db1" by (simp add: demo_synced_def)
  have "event_from_stream db1 ?e2"
    using sync_invD(1) [OF inv1] demo_state_diff_wf by (simp add: header_rel_def)
  from synced.event [OF s1 [unfolded demo_synced_def] this] db2 have "demo_synced db2" by (simp add: demo_synced_def)
  with db1 db2 inv1 inv2 s1 show ?thesis by blast
qed

theorem synced_storage_consistent_witness:
  "\<exists>db. demo_synced db \<and> get_header_marker db = 1 \<and> get_state_marker db = 1 \<and>
     get_body_marker db = 1 \<and> (\<exists>x. get_class db 50 = Inr (Some x))"
proof -
  from demo_sync obtain db where db: "demo_synced db"
    and inv: "sync_inv db [demo_header] [body_block demo_body] [fst (demo_from_state_diff demo_state_diff)]" by blast
  have m: "get_header_marker db = 1" "get_state_marker db = 1"
    using sync_invD(1,3) [OF inv] state_relD(1) [OF sync_invD(3) [OF inv]]
    by (simp_all add: header_rel_def get_state_marker_def)
  have d: "get_state_diff db 0 = Inr (Some (fst (demo_from_state_diff demo_state_diff)))"
    using state_rel_diff [OF sync_invD(3) [OF inv], of 0] by simp
  note C = synced_storage_consistent [OF db [unfolded demo_synced_def] sizes_positive_demo demo_thin_law]
  have "\<exists>x. get_class db 50 = Inr (Some x)"
    using C d m by (auto simp: demo_from_state_diff_def demo_state_diff_def)
  then show ?thesis using C m db by auto
qed



text \<open>The next block of a chain, and the conditions under which it is one.\<close>

definition extends :: "block_header list \<Rightarrow> stored_tx list list \<Rightarrow> block_number \<Rightarrow> block_header \<Rightarrow> block_body \<Rightarrow> bool" where
  "extends hs bs b h body \<longleftrightarrow>
     b = length hs \<and> (hs \<noteq> [] \<longrightarrow> sbh_parent_hash h = sbh_block_hash (last hs)) \<and>
     sbh_block_hash h \<notin> sbh_block_hash ` set hs \<and> distinct (stored_hashes (bs @ [body_block body]))"

lemma store_block_extends:
  assumes inv: "sync_inv db hs bs ds" and sz: "sizes_positive sz" and b: "b < u64_max"
    and store: "store_block sz db b h body sig = Inr db'"
  shows "extends hs bs b h body"
proof -
  from store_block_inv [OF assms] have inv': "sync_inv db' (hs @ [h]) (bs @ [body_block body]) ds" and len: "b = length hs"
    by simp_all
  from store obtain t where "append_header db b h = Inr t" by (auto simp: store_block_def res_bind_eq_Inr)
  from append_header_rel [OF sync_invD(1) [OF inv] this b] have "sbh_block_hash h \<notin> sbh_block_hash ` set hs" by blast
  then show ?thesis
    using len sync_invD(11) [OF inv'] body_rel_distinct [OF sync_invD(2) [OF inv']]
    by (simp add: extends_def linked_append)
qed

lemma store_state_diff_new:
  assumes inv: "sync_inv db hs bs ds" and sz: "sizes_positive sz" and law: "thin_law fsd" and wf: "sd_wf sd"
    and store: "store_state_diff sz fsd db b sd defs = Inr db'"
  shows "diff_new ds (fst (fsd sd))"
proof -
  obtain d cs dcs where fsd: "fsd sd = (d, cs, dcs)" by (metis surj_pair)
  from store obtain t where t: "append_state_diff sz db b d = Inr t"
    by (auto simp: store_state_diff_def fsd res_bind_eq_Inr)
  have "diff_wf d" using law [unfolded thin_law_def, rule_format, OF wf] by (simp add: fsd)
  with append_state_diff_rel [OF t sync_invD(3) [OF inv] _ sz] show ?thesis by (simp add: fsd)
qed



text \<open>
  On every database that synchronization reaches, the compiled class stream finds the state diff
  of every block it looks at: it does not panic. It waits only when no block from the compiled class
  marker on declares a class, and otherwise downloads from the first block that does, up to the state
  marker and at most \<open>max_stream_size\<close> blocks.
\<close>

theorem compiled_class_stream_total:
  assumes "synced sz fsd ord db" and "sizes_positive sz" and "thin_law fsd"
  shows "\<exists>r. stream_new_compiled_classes db central max_stream_size =
      Inr (if r = get_state_marker db then Wait
           else Yield (yield_all (\<lambda>(c, h, x). CompiledClassAvailable c h x)
                  (central r (min (get_state_marker db) (r + max_stream_size))))) \<and>
    get_compiled_class_marker db \<le> r \<and> r \<le> get_state_marker db \<and>
    (\<forall>b d. get_compiled_class_marker db \<le> b \<longrightarrow> b < r \<longrightarrow> get_state_diff db b = Inr (Some d) \<longrightarrow>
       tsd_declared_classes d = []) \<and>
    (r < get_state_marker db \<longrightarrow> (\<exists>d. get_state_diff db r = Inr (Some d) \<and> tsd_declared_classes d \<noteq> []))"
proof -
  from synced_inv [OF assms] obtain hs bs ds where "sync_inv db hs bs ds" by blast
  note rel = sync_invD(3) [OF this]
  have m: "get_state_marker db = length ds" using state_relD(1) [OF rel] by (simp add: get_state_marker_def)
  have "get_compiled_class_marker db \<le> length ds" using state_relD(2) [OF rel] by (simp add: get_compiled_class_marker_def)
  from skip_blocks_spec [OF rel this] show ?thesis
    unfolding stream_new_compiled_classes_def Let_def m state_rel_diff [OF rel] by fastforce
qed

theorem compiled_class_stream_total_witness:
  "\<exists>db. demo_synced db \<and> get_header_marker db = 1 \<and> stream_new_compiled_classes db (\<lambda>_ _. []) 10 = Inr Wait"
proof -
  from demo_sync obtain db where db: "demo_synced db"
    and inv: "sync_inv db [demo_header] [body_block demo_body] []" by blast
  have m: "get_state_marker db = 0" "get_header_marker db = 1"
    using sync_invD(1) [OF inv] state_relD(1) [OF sync_invD(3) [OF inv]]
    by (simp_all add: get_state_marker_def header_rel_def)
  from compiled_class_stream_total [OF db [unfolded demo_synced_def] sizes_positive_demo demo_thin_law, of "\<lambda>_ _. []" 10]
  show ?thesis unfolding m(1) using db m(2) by (intro exI [of _ db]) auto
qed



end
