(* ===== verification/Storage_Serde.thy ===== *)
theory Storage_Serde
  imports Storage_Mmap "HOL-Library.Sublist"
begin

text \<open>
  How values become bytes: the trait \<open>StorageSerde\<close> and the val wrappers of
  \<open>crates/papyrus_storage/src/db/serialization.rs\<close>, the macros, primitive types and containers of
  \<open>crates/papyrus_storage/src/serialization/serializers.rs\<close>, and \<open>compression_utils.rs\<close>.

  An implementation of the trait is a \<open>codec\<close>: the bytes that \<open>serialize_into\<close> writes, what
  \<open>deserialize_from\<close> reads from the front of its input, and the values the type has that survive the trip.
  Reading may panic, so it has an outcome of its own. \<open>codec_ok\<close> is the contract; every container and
  macro case keeps it.

  The encodings of other crates (field elements, variable length integers, zstd, JSON, hints, big
  integers) are functions of the record \<open>serde_ext\<close>; \<open>serde_ext_ok\<close> is what is relied on of them. A string
  is its list of bytes. A \<open>HashMap\<close> is its list of entries in iteration order.
\<close>

section \<open>Codecs\<close>

datatype 'a decoded = Decoded 'a "u8 list" | Malformed | DecodePanic string

datatype serde_failure = SerdeError | SerPanic string

record 'a codec =
  serialize_into :: "'a \<Rightarrow> (serde_failure, u8 list) result"
  deserialize_from :: "u8 list \<Rightarrow> 'a decoded"
  fits :: "'a \<Rightarrow> bool"

fun dec_bind :: "'a decoded \<Rightarrow> ('a \<Rightarrow> u8 list \<Rightarrow> 'b decoded) \<Rightarrow> 'b decoded" where
  "dec_bind (Decoded x rest) f = f x rest"
| "dec_bind Malformed f = Malformed"
| "dec_bind (DecodePanic s) f = DecodePanic s"

definition codec_ok :: "'a codec \<Rightarrow> bool" where
  "codec_ok c \<longleftrightarrow>
     (\<forall>x. fits c x \<longrightarrow> (\<exists>bs. serialize_into c x = Inr bs \<and> (\<forall>rest. deserialize_from c (bs @ rest) = Decoded x rest)))"

named_theorems codec_intros

section \<open>What other crates provide\<close>

type_synonym json_value = nat
type_synonym hint = nat

record serde_ext =
  ext_felt_serialize :: "felt \<Rightarrow> u8 list"
  ext_felt_deserialize :: "u8 list \<Rightarrow> (felt \<times> u8 list) option"
  ext_is_felt :: "nat \<Rightarrow> bool"
  ext_is_patricia_key :: "felt \<Rightarrow> bool"
  ext_write_varint :: "nat \<Rightarrow> u8 list"
  ext_read_varint :: "u8 list \<Rightarrow> (nat \<times> u8 list) option"
  ext_compress :: "u8 list \<Rightarrow> u8 list option"
  ext_decompress :: "u8 list \<Rightarrow> nat \<Rightarrow> u8 list option"
  ext_json_to_vec :: "json_value \<Rightarrow> u8 list option"
  ext_json_from_slice :: "u8 list \<Rightarrow> json_value option"
  ext_hint_encode :: "hint \<Rightarrow> u8 list"
  ext_hint_decode :: "u8 list \<Rightarrow> hint option"
  ext_biguint_to_bytes_be :: "nat \<Rightarrow> u8 list"
  ext_biguint_from_bytes_be :: "u8 list \<Rightarrow> nat"

section \<open>Primitive types\<close>

definition u8_codec :: "u8 codec" where
  "u8_codec = \<lparr>serialize_into = (\<lambda>b. Inr [b]),
     deserialize_from = (\<lambda>bytes. case bytes of [] \<Rightarrow> Malformed | b # rest \<Rightarrow> Decoded b rest),
     fits = (\<lambda>b. True)\<rparr>"

text \<open>The macro case \<open>binary\<close>: a number in \<open>k\<close> bytes, most significant first.\<close>

definition binary_codec :: "nat \<Rightarrow> nat codec" where
  "binary_codec k = \<lparr>serialize_into = (\<lambda>n. Inr (low_bytes k n)),
     deserialize_from = (\<lambda>bytes. if length bytes < k then Malformed
        else Decoded (from_be_bytes (take k bytes)) (drop k bytes)),
     fits = (\<lambda>n. n < 256 ^ k)\<rparr>"

definition u32_codec :: "nat codec" where
  "u32_codec = binary_codec 4"

definition u64_codec :: "nat codec" where
  "u64_codec = binary_codec 8"

definition u128_codec :: "nat codec" where
  "u128_codec = binary_codec 16"

text \<open>On the platforms the storage supports \<open>usize\<close> has 64 bits, and the conversions do not fail.\<close>

definition usize_codec :: "nat codec" where
  "usize_codec = u64_codec"

definition bool_codec :: "bool codec" where
  "bool_codec = \<lparr>serialize_into = (\<lambda>b. serialize_into u8_codec (if b then 1 else 0)),
     deserialize_from = (\<lambda>bytes. dec_bind (deserialize_from u8_codec bytes) (\<lambda>b rest. Decoded (b \<noteq> 0) rest)),
     fits = (\<lambda>b. True)\<rparr>"

definition no_value_codec :: "unit codec" where
  "no_value_codec = \<lparr>serialize_into = (\<lambda>_. Inr []), deserialize_from = (\<lambda>bytes. Decoded () bytes), fits = (\<lambda>_. True)\<rparr>"

definition block_number_codec :: "block_number codec" where
  "block_number_codec = \<lparr>
     serialize_into = (\<lambda>n. if n < 2 ^ 32 then serialize_into u32_codec n
        else Inl (SerPanic ''BlockNumber should fit into 32 bits.'')),
     deserialize_from = deserialize_from u32_codec,
     fits = (\<lambda>n. n < 2 ^ 32)\<rparr>"

definition transaction_offset_codec :: "nat codec" where
  "transaction_offset_codec = \<lparr>
     serialize_into = (\<lambda>n. Inr (drop 5 (to_be_bytes n))),
     deserialize_from = (\<lambda>bytes. if length bytes < 3 then Malformed
        else Decoded (from_be_bytes (replicate 5 0 @ take 3 bytes)) (drop 3 bytes)),
     fits = (\<lambda>n. n < 2 ^ 24)\<rparr>"

definition location_codec :: "location_in_file codec" where
  "location_codec = \<lparr>
     serialize_into = (\<lambda>loc. Inr (location_serialize loc)),
     deserialize_from = (\<lambda>bytes. case location_deserialize bytes of None \<Rightarrow> Malformed | Some (loc, rest) \<Rightarrow> Decoded loc rest),
     fits = (\<lambda>loc. loc_len loc < 2 ^ 32 \<and> loc_offset loc < 2 ^ 48)\<rparr>"

definition felt_codec :: "serde_ext \<Rightarrow> felt codec" where
  "felt_codec ext = \<lparr>
     serialize_into = (\<lambda>f. Inr (ext_felt_serialize ext f)),
     deserialize_from = (\<lambda>bytes. case ext_felt_deserialize ext bytes of None \<Rightarrow> Malformed | Some (f, rest) \<Rightarrow> Decoded f rest),
     fits = ext_is_felt ext\<rparr>"

text \<open>\<open>ContractAddress\<close>, \<open>PatriciaKey\<close> and \<open>StorageKey\<close>: a field element within the bounds of a Patricia key.\<close>

definition patricia_key_codec :: "serde_ext \<Rightarrow> felt codec" where
  "patricia_key_codec ext = \<lparr>
     serialize_into = serialize_into (felt_codec ext),
     deserialize_from = (\<lambda>bytes. dec_bind (deserialize_from (felt_codec ext) bytes) (\<lambda>f rest.
        if ext_is_patricia_key ext f then Decoded f rest else Malformed)),
     fits = (\<lambda>f. ext_is_felt ext f \<and> ext_is_patricia_key ext f)\<rparr>"

section \<open>Containers\<close>

definition option_codec :: "'a codec \<Rightarrow> 'a option codec" where
  "option_codec c = \<lparr>
     serialize_into = (\<lambda>v. case v of
        Some val \<Rightarrow> res_bind (serialize_into c val) (\<lambda>bs. Inr (1 # bs))
      | None \<Rightarrow> Inr [0]),
     deserialize_from = (\<lambda>bytes. case bytes of
        [] \<Rightarrow> Malformed
      | b # rest \<Rightarrow>
          if b = 0 then Decoded None rest
          else if b = 1 then dec_bind (deserialize_from c rest) (\<lambda>x rest. Decoded (Some x) rest)
          else Malformed),
     fits = (\<lambda>v. case v of Some val \<Rightarrow> fits c val | None \<Rightarrow> True)\<rparr>"

fun serialize_all :: "'a codec \<Rightarrow> 'a list \<Rightarrow> (serde_failure, u8 list) result" where
  "serialize_all c [] = Inr []"
| "serialize_all c (x # xs) =
     res_bind (serialize_into c x) (\<lambda>bs. res_bind (serialize_all c xs) (\<lambda>bs'. Inr (bs @ bs')))"

fun deserialize_n :: "'a codec \<Rightarrow> nat \<Rightarrow> u8 list \<Rightarrow> 'a list decoded" where
  "deserialize_n c 0 bytes = Decoded [] bytes"
| "deserialize_n c (Suc n) bytes =
     dec_bind (deserialize_from c bytes) (\<lambda>x rest.
     dec_bind (deserialize_n c n rest) (\<lambda>xs rest. Decoded (x # xs) rest))"

definition read_varint :: "serde_ext \<Rightarrow> u8 list \<Rightarrow> nat decoded" where
  "read_varint ext bytes = (case ext_read_varint ext bytes of None \<Rightarrow> Malformed | Some (n, rest) \<Rightarrow> Decoded n rest)"

definition vec_codec :: "serde_ext \<Rightarrow> 'a codec \<Rightarrow> 'a list codec" where
  "vec_codec ext c = \<lparr>
     serialize_into = (\<lambda>xs. res_bind (serialize_all c xs) (\<lambda>bs. Inr (ext_write_varint ext (length xs) @ bs))),
     deserialize_from = (\<lambda>bytes. dec_bind (read_varint ext bytes) (\<lambda>n rest. deserialize_n c n rest)),
     fits = (\<lambda>xs. length xs < 2 ^ 64 \<and> (\<forall>x \<in> set xs. fits c x))\<rparr>"

definition pair_codec :: "'a codec \<Rightarrow> 'b codec \<Rightarrow> ('a \<times> 'b) codec" where
  "pair_codec c d = \<lparr>
     serialize_into = (\<lambda>(x, y). res_bind (serialize_into c x) (\<lambda>bs. res_bind (serialize_into d y) (\<lambda>bs'. Inr (bs @ bs')))),
     deserialize_from = (\<lambda>bytes.
        dec_bind (deserialize_from c bytes) (\<lambda>x rest.
        dec_bind (deserialize_from d rest) (\<lambda>y rest. Decoded (x, y) rest))),
     fits = (\<lambda>(x, y). fits c x \<and> fits d y)\<rparr>"

text \<open>Reading the entries of a map one by one; a key that was inserted before is refused.\<close>

fun deserialize_entries :: "('k \<Rightarrow> 'v \<Rightarrow> ('k \<times> 'v) list \<Rightarrow> ('k \<times> 'v) list) \<Rightarrow> 'k codec \<Rightarrow> 'v codec \<Rightarrow> nat \<Rightarrow>
    ('k \<times> 'v) list \<Rightarrow> u8 list \<Rightarrow> ('k \<times> 'v) list decoded" where
  "deserialize_entries insert_entry k v 0 res bytes = Decoded res bytes"
| "deserialize_entries insert_entry k v (Suc n) res bytes =
     dec_bind (deserialize_from k bytes) (\<lambda>key rest.
     dec_bind (deserialize_from v rest) (\<lambda>val rest.
     if key \<in> fst ` set res then Malformed
     else deserialize_entries insert_entry k v n (insert_entry key val res) rest))"

definition index_map_codec :: "serde_ext \<Rightarrow> 'k codec \<Rightarrow> 'v codec \<Rightarrow> ('k \<times> 'v) list codec" where
  "index_map_codec ext k v = \<lparr>
     serialize_into = (\<lambda>m. res_bind (serialize_all (pair_codec k v) m) (\<lambda>bs. Inr (ext_write_varint ext (length m) @ bs))),
     deserialize_from = (\<lambda>bytes. dec_bind (read_varint ext bytes) (\<lambda>n rest.
        deserialize_entries (\<lambda>key val res. res @ [(key, val)]) k v n [] rest)),
     fits = (\<lambda>m. length m < 2 ^ 64 \<and> distinct (map fst m) \<and> (\<forall>(key, val) \<in> set m. fits k key \<and> fits v val))\<rparr>"

definition hash_map_codec :: "serde_ext \<Rightarrow> 'k codec \<Rightarrow> 'v codec \<Rightarrow> ('k \<times> 'v) list codec" where
  "hash_map_codec ext k v = \<lparr>
     serialize_into = (\<lambda>m. res_bind (serialize_all (pair_codec k v) m) (\<lambda>bs. Inr (ext_write_varint ext (length m) @ bs))),
     deserialize_from = (\<lambda>bytes. dec_bind (read_varint ext bytes) (\<lambda>n rest.
        deserialize_entries (\<lambda>key val res. res @ [(key, val)]) k v n [] rest)),
     fits = (\<lambda>m. length m < 2 ^ 64 \<and> distinct (map fst m) \<and> (\<forall>(key, val) \<in> set m. fits k key \<and> fits v val))\<rparr>"

text \<open>A \<open>BTreeMap\<close> is its list of entries in the order of the keys.\<close>

definition btree_map_codec :: "serde_ext \<Rightarrow> 'k::linorder codec \<Rightarrow> 'v codec \<Rightarrow> ('k \<times> 'v) list codec" where
  "btree_map_codec ext k v = \<lparr>
     serialize_into = (\<lambda>m. res_bind (serialize_all (pair_codec k v) m) (\<lambda>bs. Inr (ext_write_varint ext (length m) @ bs))),
     deserialize_from = (\<lambda>bytes. dec_bind (read_varint ext bytes) (\<lambda>n rest.
        deserialize_entries (\<lambda>key val res. insort_key fst (key, val) res) k v n [] rest)),
     fits = (\<lambda>m. length m < 2 ^ 64 \<and> sorted_wrt (<) (map fst m) \<and> (\<forall>(key, val) \<in> set m. fits k key \<and> fits v val))\<rparr>"

definition array_codec :: "nat \<Rightarrow> 'a codec \<Rightarrow> 'a list codec" where
  "array_codec n c = \<lparr>serialize_into = serialize_all c, deserialize_from = deserialize_n c n,
     fits = (\<lambda>xs. length xs = n \<and> (\<forall>x \<in> set xs. fits c x))\<rparr>"

section \<open>Text and opaque payloads\<close>

type_synonym rust_string = "u8 list"

definition utf8_continuation :: "nat \<Rightarrow> bool" where
  "utf8_continuation b \<longleftrightarrow> 128 \<le> b \<and> b < 192"

text \<open>The byte sequences that \<open>String::from_utf8\<close> accepts.\<close>

fun utf8_bytes :: "nat list \<Rightarrow> bool" where
  "utf8_bytes [] \<longleftrightarrow> True"
| "utf8_bytes (a # bs) \<longleftrightarrow>
     (if a < 128 then utf8_bytes bs
      else case bs of
        [] \<Rightarrow> False
      | b # cs \<Rightarrow>
          if 194 \<le> a \<and> a < 224 then utf8_continuation b \<and> utf8_bytes cs
          else case cs of
            [] \<Rightarrow> False
          | c # ds \<Rightarrow>
              if 224 \<le> a \<and> a < 240
              then utf8_continuation b \<and> utf8_continuation c \<and> (a = 224 \<longrightarrow> 160 \<le> b) \<and> (a = 237 \<longrightarrow> b < 160) \<and>
                utf8_bytes ds
              else case ds of
                [] \<Rightarrow> False
              | d # es \<Rightarrow>
                  240 \<le> a \<and> a < 245 \<and> utf8_continuation b \<and> utf8_continuation c \<and> utf8_continuation d \<and>
                  (a = 240 \<longrightarrow> 144 \<le> b) \<and> (a = 244 \<longrightarrow> b < 144) \<and> utf8_bytes es)"

definition from_utf8 :: "u8 list \<Rightarrow> rust_string option" where
  "from_utf8 bs = (if utf8_bytes (map unat bs) then Some bs else None)"

text \<open>Bytes of a \<open>Vec\<close> that a further function reads.\<close>

definition via_bytes :: "serde_ext \<Rightarrow> ('a \<Rightarrow> u8 list option) \<Rightarrow> (u8 list \<Rightarrow> 'a option) \<Rightarrow> ('a \<Rightarrow> bool) \<Rightarrow> 'a codec" where
  "via_bytes ext to_bytes from_bytes ok = \<lparr>
     serialize_into = (\<lambda>x. case to_bytes x of
        None \<Rightarrow> Inl SerdeError | Some bs \<Rightarrow> serialize_into (vec_codec ext u8_codec) bs),
     deserialize_from = (\<lambda>bytes. dec_bind (deserialize_from (vec_codec ext u8_codec) bytes) (\<lambda>bs rest.
        case from_bytes bs of None \<Rightarrow> Malformed | Some x \<Rightarrow> Decoded x rest)),
     fits = (\<lambda>x. ok x \<and> (case to_bytes x of None \<Rightarrow> False | Some bs \<Rightarrow> length bs < 2 ^ 64))\<rparr>"

definition string_codec :: "serde_ext \<Rightarrow> rust_string codec" where
  "string_codec ext = via_bytes ext Some from_utf8 (\<lambda>s. utf8_bytes (map unat s))"

definition json_codec :: "serde_ext \<Rightarrow> json_value codec" where
  "json_codec ext = via_bytes ext (ext_json_to_vec ext) (ext_json_from_slice ext) (\<lambda>_. True)"

definition hint_codec :: "serde_ext \<Rightarrow> hint codec" where
  "hint_codec ext = via_bytes ext (\<lambda>h. Some (ext_hint_encode ext h)) (ext_hint_decode ext) (\<lambda>_. True)"

definition biguint_codec :: "serde_ext \<Rightarrow> nat codec" where
  "biguint_codec ext =
     via_bytes ext (\<lambda>n. Some (ext_biguint_to_bytes_be ext n)) (\<lambda>bs. Some (ext_biguint_from_bytes_be ext bs)) (\<lambda>_. True)"

section \<open>Structs and enums\<close>

text \<open>A struct: its fields one after the other.\<close>

definition struct_codec :: "('s \<Rightarrow> 'f) \<Rightarrow> ('f \<Rightarrow> 's) \<Rightarrow> 'f codec \<Rightarrow> 's codec" where
  "struct_codec get_fields build c = \<lparr>
     serialize_into = (\<lambda>s. serialize_into c (get_fields s)),
     deserialize_from = (\<lambda>bytes. dec_bind (deserialize_from c bytes) (\<lambda>x rest. Decoded (build x) rest)),
     fits = (\<lambda>s. fits c (get_fields s))\<rparr>"

text \<open>An enum without payloads: one byte, the number of the variant.\<close>

definition enum_codec :: "'a list \<Rightarrow> 'a codec" where
  "enum_codec variants = \<lparr>
     serialize_into = (\<lambda>x. Inr [of_nat (length (takeWhile (\<lambda>y. y \<noteq> x) variants))]),
     deserialize_from = (\<lambda>bytes. case bytes of
        [] \<Rightarrow> Malformed
      | kind # rest \<Rightarrow> if unat kind < length variants then Decoded (variants ! unat kind) rest else Malformed),
     fits = (\<lambda>x. x \<in> set variants)\<rparr>"

text \<open>The parts of an enum with payloads: a byte before the payload, and the byte it is recognized by.\<close>

definition with_kind :: "u8 \<Rightarrow> (serde_failure, u8 list) result \<Rightarrow> (serde_failure, u8 list) result" where
  "with_kind kind r = res_bind r (\<lambda>bs. Inr (kind # bs))"

definition read_kind :: "u8 list \<Rightarrow> (u8 \<Rightarrow> u8 list \<Rightarrow> 'a decoded) \<Rightarrow> 'a decoded" where
  "read_kind bytes f = (case bytes of [] \<Rightarrow> Malformed | kind # rest \<Rightarrow> f kind rest)"

definition dec_map :: "('a \<Rightarrow> 'b) \<Rightarrow> 'a decoded \<Rightarrow> 'b decoded" where
  "dec_map f d = dec_bind d (\<lambda>x rest. Decoded (f x) rest)"

section \<open>Compression\<close>

definition MAX_DECOMPRESSED_SIZE :: nat where
  "MAX_DECOMPRESSED_SIZE = 2 ^ 28"

definition COMPRESSION_THRESHOLD_BYTES :: nat where
  "COMPRESSION_THRESHOLD_BYTES = 384"

definition decompress :: "serde_ext \<Rightarrow> u8 list \<Rightarrow> u8 list option" where
  "decompress ext data = ext_decompress ext data MAX_DECOMPRESSED_SIZE"

definition serialize_and_compress :: "serde_ext \<Rightarrow> 'a codec \<Rightarrow> 'a \<Rightarrow> (serde_failure, u8 list) result" where
  "serialize_and_compress ext c x =
     res_bind (serialize_into c x) (\<lambda>bs. case ext_compress ext bs of None \<Rightarrow> Inl SerdeError | Some z \<Rightarrow> Inr z)"

definition decompress_from_reader :: "serde_ext \<Rightarrow> u8 list \<Rightarrow> u8 list decoded" where
  "decompress_from_reader ext bytes =
     dec_bind (deserialize_from (vec_codec ext u8_codec) bytes) (\<lambda>data rest.
       case decompress ext data of None \<Rightarrow> Malformed | Some bs \<Rightarrow> Decoded bs rest)"

text \<open>Reading a val from a buffer of its own: what the val leaves of the buffer is dropped.\<close>

definition from_buffer :: "'a codec \<Rightarrow> u8 list \<Rightarrow> u8 list \<Rightarrow> 'a decoded" where
  "from_buffer c buf rest = dec_bind (deserialize_from c buf) (\<lambda>x _. Decoded x rest)"

definition compressible :: "serde_ext \<Rightarrow> 'a codec \<Rightarrow> 'a \<Rightarrow> bool" where
  "compressible ext c x \<longleftrightarrow> fits c x \<and>
     (case serialize_into c x of Inl _ \<Rightarrow> False | Inr bs \<Rightarrow>
        length bs \<le> MAX_DECOMPRESSED_SIZE \<and>
        (case ext_compress ext bs of None \<Rightarrow> False | Some z \<Rightarrow> length z < 2 ^ 64))"

text \<open>A field that is compressed on its own (\<open>ContractClass\<close>): a bad buffer is malformed input.\<close>

definition compressed_field_codec :: "serde_ext \<Rightarrow> 'a codec \<Rightarrow> 'a codec" where
  "compressed_field_codec ext c = \<lparr>
     serialize_into = (\<lambda>x. res_bind (serialize_and_compress ext c x) (serialize_into (vec_codec ext u8_codec))),
     deserialize_from = (\<lambda>bytes. dec_bind (decompress_from_reader ext bytes) (from_buffer c)),
     fits = compressible ext c\<rparr>"

text \<open>Fields that are compressed together: a bad buffer is a panic.\<close>

definition compressed_codec :: "serde_ext \<Rightarrow> 'a codec \<Rightarrow> 'a codec" where
  "compressed_codec ext c = \<lparr>
     serialize_into = (\<lambda>x. res_bind (serialize_and_compress ext c x) (serialize_into (vec_codec ext u8_codec))),
     deserialize_from = (\<lambda>bytes. dec_bind (deserialize_from (vec_codec ext u8_codec) bytes) (\<lambda>data rest.
        case decompress ext data of
          None \<Rightarrow> DecodePanic ''destination buffer should be large enough''
        | Some buf \<Rightarrow> from_buffer c buf rest)),
     fits = compressible ext c\<rparr>"

datatype is_compressed = NotCompressed | Compressed

definition is_compressed_codec :: "is_compressed codec" where
  "is_compressed_codec = enum_codec [NotCompressed, Compressed]"

text \<open>The macro \<open>auto_storage_serde_conditionally_compressed\<close>: only long structs are compressed.\<close>

definition cond_compressed_codec :: "serde_ext \<Rightarrow> 'a codec \<Rightarrow> 'a codec" where
  "cond_compressed_codec ext c = \<lparr>
     serialize_into = (\<lambda>x. res_bind (serialize_into c x) (\<lambda>to_compress.
        if COMPRESSION_THRESHOLD_BYTES < length to_compress
        then res_bind (serialize_into is_compressed_codec Compressed) (\<lambda>flag.
             case ext_compress ext to_compress of
               None \<Rightarrow> Inl SerdeError
             | Some z \<Rightarrow> res_bind (serialize_into (vec_codec ext u8_codec) z) (\<lambda>bs. Inr (flag @ bs)))
        else res_bind (serialize_into is_compressed_codec NotCompressed) (\<lambda>flag.
             res_bind (serialize_into (vec_codec ext u8_codec) to_compress) (\<lambda>bs. Inr (flag @ bs))))),
     deserialize_from = (\<lambda>bytes.
        dec_bind (deserialize_from is_compressed_codec bytes) (\<lambda>is_compressed rest.
        dec_bind (deserialize_from (vec_codec ext u8_codec) rest) (\<lambda>maybe_compressed_data rest.
        case is_compressed of
          NotCompressed \<Rightarrow> from_buffer c maybe_compressed_data rest
        | Compressed \<Rightarrow>
            (case decompress ext maybe_compressed_data of
               None \<Rightarrow> DecodePanic ''destination buffer should be large enough''
             | Some buf \<Rightarrow> from_buffer c buf rest)))),
     fits = compressible ext c\<rparr>"

section \<open>Values with a version\<close>

definition is_all_bytes_read :: "u8 list \<Rightarrow> bool" where
  "is_all_bytes_read bytes \<longleftrightarrow> bytes = []"

definition serialization_error :: "(serde_failure, 'a) result \<Rightarrow> 'a sresult" where
  "serialization_error r = (case r of
     Inl SerdeError \<Rightarrow> Inl (SErr (InnerError DbSerialization))
   | Inl (SerPanic s) \<Rightarrow> Inl (SPanic s)
   | Inr x \<Rightarrow> Inr x)"

definition ex_serialize :: "'a codec \<Rightarrow> 'a \<Rightarrow> u8 list sresult" where
  "ex_serialize c x = serialization_error (serialize_into c x)"

definition ex_deserialize :: "'a codec \<Rightarrow> u8 list \<Rightarrow> 'a decoded" where
  "ex_deserialize c bytes =
     dec_bind (deserialize_from c bytes) (\<lambda>x rest. if is_all_bytes_read rest then Decoded x rest else Malformed)"

definition VERSION_ZERO :: u8 where
  "VERSION_ZERO = 0"

definition version_zero_serialize :: "'a codec \<Rightarrow> 'a \<Rightarrow> u8 list sresult" where
  "version_zero_serialize c x = res_bind (serialization_error (serialize_into c x)) (\<lambda>bs. Inr (VERSION_ZERO # bs))"

definition version_zero_deserialize :: "'a codec \<Rightarrow> u8 list \<Rightarrow> 'a decoded" where
  "version_zero_deserialize c bytes =
     read_kind bytes (\<lambda>version rest.
       if version \<noteq> VERSION_ZERO then Malformed
       else dec_bind (deserialize_from c rest) (\<lambda>x rest. if is_all_bytes_read rest then Decoded x rest else Malformed))"

text \<open>\<open>migrate\<close> is \<open>Migratable::try_from_older_version\<close> of the val type.\<close>

definition version_serialize :: "u8 \<Rightarrow> 'a codec \<Rightarrow> 'a \<Rightarrow> u8 list sresult" where
  "version_serialize VERSION c x = res_bind (serialization_error (serialize_into c x)) (\<lambda>bs. Inr (VERSION # bs))"

definition version_deserialize :: "(u8 \<Rightarrow> u8 list \<Rightarrow> 'a decoded) \<Rightarrow> u8 \<Rightarrow> 'a codec \<Rightarrow> u8 list \<Rightarrow> 'a decoded" where
  "version_deserialize migrate VERSION c bytes =
     read_kind bytes (\<lambda>version rest.
       if VERSION < version then Malformed
       else dec_bind (if version < VERSION then migrate version rest else deserialize_from c rest) (\<lambda>x rest.
         if is_all_bytes_read rest then Decoded x rest else Malformed))"

section \<open>What is relied on of the other crates\<close>

definition serde_ext_ok :: "serde_ext \<Rightarrow> bool" where
  "serde_ext_ok ext \<longleftrightarrow>
     (\<forall>f rest. ext_is_felt ext f \<longrightarrow> ext_felt_deserialize ext (ext_felt_serialize ext f @ rest) = Some (f, rest)) \<and>
     (\<forall>n rest. n < 2 ^ 64 \<longrightarrow> ext_read_varint ext (ext_write_varint ext n @ rest) = Some (n, rest)) \<and>
     (\<forall>xs z m. ext_compress ext xs = Some z \<longrightarrow>
        ext_decompress ext z m = (if length xs \<le> m then Some xs else None)) \<and>
     (\<forall>v bs. ext_json_to_vec ext v = Some bs \<longrightarrow> ext_json_from_slice ext bs = Some v) \<and>
     (\<forall>h. ext_hint_decode ext (ext_hint_encode ext h) = Some h) \<and>
     (\<forall>n. ext_biguint_from_bytes_be ext (ext_biguint_to_bytes_be ext n) = n)"

section \<open>Every codec keeps the contract\<close>

lemma codec_okI:
  assumes "\<And>x. fits c x \<Longrightarrow>
    \<exists>bs. serialize_into c x = Inr bs \<and> (\<forall>rest. deserialize_from c (bs @ rest) = Decoded x rest)"
  shows "codec_ok c"
  using assms by (simp add: codec_ok_def)

lemma codec_okE:
  assumes "codec_ok c" and "fits c x"
  obtains bs where "serialize_into c x = Inr bs" and "\<And>rest. deserialize_from c (bs @ rest) = Decoded x rest"
  using assms by (auto simp: codec_ok_def)

text \<open>No serialized val is a proper prefix of another one.\<close>

lemma codec_prefix_free:
  assumes "codec_ok c" and "fits c x" and "fits c y"
    and "serialize_into c x = Inr bs" and "serialize_into c y = Inr (bs @ cs)"
  shows "x = y \<and> cs = []"
proof -
  have "Decoded x cs = Decoded y []"
    using codec_okE [OF assms(1,2)] codec_okE [OF assms(1,3)] assms(4,5) by (metis append.right_neutral sum.inject(2))
  then show ?thesis by simp
qed

lemma u8_codec_ok [codec_intros]: "codec_ok u8_codec"
  by (simp add: codec_ok_def u8_codec_def)

lemma binary_codec_ok [codec_intros]: "codec_ok (binary_codec k)"
  by (simp add: codec_ok_def binary_codec_def from_be_bytes_low_bytes)

lemma uint_codecs_ok [codec_intros]:
  "codec_ok u32_codec" "codec_ok u64_codec" "codec_ok u128_codec" "codec_ok usize_codec"
  by (simp_all add: u32_codec_def u64_codec_def u128_codec_def usize_codec_def binary_codec_ok)

lemma bool_codec_ok [codec_intros]: "codec_ok bool_codec"
  by (simp add: codec_ok_def bool_codec_def u8_codec_def)

lemma no_value_codec_ok [codec_intros]: "codec_ok no_value_codec"
  by (simp add: codec_ok_def no_value_codec_def)

lemma block_number_codec_ok [codec_intros]: "codec_ok block_number_codec"
  by (simp add: codec_ok_def block_number_codec_def u32_codec_def binary_codec_def from_be_bytes_low_bytes)

lemma drop_5_to_be_bytes: "drop 5 (to_be_bytes x) = low_bytes 3 x"
proof -
  have "drop 5 (to_be_bytes x) = drop 1 (drop 4 (to_be_bytes x))" by simp
  then show ?thesis unfolding drop_to_be_bytes by (simp add: low_bytes_numeral)
qed

lemma transaction_offset_codec_ok [codec_intros]: "codec_ok transaction_offset_codec"
  by (simp add: codec_ok_def transaction_offset_codec_def drop_5_to_be_bytes from_be_bytes_zeros
      from_be_bytes_low_bytes)

lemma location_codec_ok [codec_intros]: "codec_ok location_codec"
  by (simp add: codec_ok_def location_codec_def location_deserialize_serialize)

lemma option_codec_ok [codec_intros]:
  assumes "codec_ok c"
  shows "codec_ok (option_codec c)"
proof (rule codec_okI)
  fix v assume fits: "fits (option_codec c) v"
  show "\<exists>bs. serialize_into (option_codec c) v = Inr bs \<and>
      (\<forall>rest. deserialize_from (option_codec c) (bs @ rest) = Decoded v rest)"
  proof (cases v)
    case (Some x)
    with fits have "fits c x" by (simp add: option_codec_def)
    then obtain bs where "serialize_into c x = Inr bs" "\<And>rest. deserialize_from c (bs @ rest) = Decoded x rest"
      using codec_okE [OF assms] by blast
    then show ?thesis using Some by (simp add: option_codec_def)
  qed (simp add: option_codec_def)
qed

lemma pair_codec_ok [codec_intros]:
  assumes "codec_ok c" and "codec_ok d"
  shows "codec_ok (pair_codec c d)"
proof (rule codec_okI)
  fix p assume "fits (pair_codec c d) p"
  then obtain x y where p: "p = (x, y)" and f: "fits c x" "fits d y" by (cases p) (simp add: pair_codec_def)
  obtain bs where "serialize_into c x = Inr bs" "\<And>rest. deserialize_from c (bs @ rest) = Decoded x rest"
    using codec_okE [OF assms(1) f(1)] by blast
  moreover obtain cs where "serialize_into d y = Inr cs" "\<And>rest. deserialize_from d (cs @ rest) = Decoded y rest"
    using codec_okE [OF assms(2) f(2)] by blast
  ultimately show "\<exists>bs. serialize_into (pair_codec c d) p = Inr bs \<and>
      (\<forall>rest. deserialize_from (pair_codec c d) (bs @ rest) = Decoded p rest)"
    by (simp add: p pair_codec_def)
qed

lemma serialize_all_ok:
  assumes "codec_ok c" and "\<forall>x \<in> set xs. fits c x"
  shows "\<exists>bs. serialize_all c xs = Inr bs \<and> (\<forall>rest. deserialize_n c (length xs) (bs @ rest) = Decoded xs rest)"
  using assms(2)
proof (induction xs)
  case (Cons x xs)
  obtain bs where "serialize_into c x = Inr bs" "\<And>rest. deserialize_from c (bs @ rest) = Decoded x rest"
    using codec_okE [OF assms(1)] Cons.prems by (metis list.set_intros(1))
  with Cons show ?case by auto
qed simp

lemma array_codec_ok [codec_intros]: "codec_ok c \<Longrightarrow> codec_ok (array_codec n c)"
  using serialize_all_ok by (fastforce simp: codec_ok_def array_codec_def)

lemma struct_codec_ok [codec_intros]:
  assumes "\<And>s. build (get_fields s) = s" and "codec_ok c"
  shows "codec_ok (struct_codec get_fields build c)"
proof (rule codec_okI)
  fix s assume "fits (struct_codec get_fields build c) s"
  then have "fits c (get_fields s)" by (simp add: struct_codec_def)
  from codec_okE [OF assms(2) this] show "\<exists>bs. serialize_into (struct_codec get_fields build c) s = Inr bs \<and>
      (\<forall>rest. deserialize_from (struct_codec get_fields build c) (bs @ rest) = Decoded s rest)"
    using assms(1) by (metis (no_types, lifting) codec.select_convs(1,2) dec_bind.simps(1) struct_codec_def)
qed

lemma enum_codec_ok [codec_intros]:
  assumes "length variants \<le> 256"
  shows "codec_ok (enum_codec variants)"
proof (rule codec_okI)
  fix x assume "fits (enum_codec variants) x"
  then have x: "x \<in> set variants" by (simp add: enum_codec_def)
  let ?n = "length (takeWhile (\<lambda>y. y \<noteq> x) variants)"
  have n: "?n < length variants"
    using x by (induction variants) auto
  then have "variants ! ?n = x" using nth_length_takeWhile [OF n] by simp
  moreover have "unat (of_nat ?n :: u8) = ?n" using n assms by (simp add: unat_of_nat)
  ultimately show "\<exists>bs. serialize_into (enum_codec variants) x = Inr bs \<and>
      (\<forall>rest. deserialize_from (enum_codec variants) (bs @ rest) = Decoded x rest)"
    using n by (simp add: enum_codec_def)
qed

lemma deserialize_entries_append:
  assumes "codec_ok k" and "codec_ok v" and "\<forall>(key, val) \<in> set m. fits k key \<and> fits v val"
    and "distinct (map fst (res @ m))" and "serialize_all (pair_codec k v) m = Inr bs"
  shows "deserialize_entries (\<lambda>key val res. res @ [(key, val)]) k v (length m) res (bs @ rest) =
    Decoded (res @ m) rest"
  using assms(3-5)
proof (induction m arbitrary: res bs)
  case (Cons e m)
  obtain key val where e: "e = (key, val)" by fastforce
  obtain ks where ks: "serialize_into k key = Inr ks" "\<And>rest. deserialize_from k (ks @ rest) = Decoded key rest"
    using codec_okE [OF assms(1), of key] Cons.prems(1) by (auto simp: e)
  obtain vs where vs: "serialize_into v val = Inr vs" "\<And>rest. deserialize_from v (vs @ rest) = Decoded val rest"
    using codec_okE [OF assms(2), of val] Cons.prems(1) by (auto simp: e)
  from Cons.prems(3) ks(1) vs(1) obtain cs where "serialize_all (pair_codec k v) m = Inr cs" "bs = ks @ vs @ cs"
    by (auto simp: e pair_codec_def res_bind_eq_Inr)
  moreover have "key \<notin> fst ` set res" using Cons.prems(2) by (auto simp: e)
  ultimately show ?case using Cons.IH [of "res @ [e]" cs] Cons.prems ks(2) vs(2) by (simp add: e)
qed simp

lemma serde_ext_okD:
  assumes "serde_ext_ok ext"
  shows "ext_is_felt ext f \<Longrightarrow> ext_felt_deserialize ext (ext_felt_serialize ext f @ rest) = Some (f, rest)"
    "n < 2 ^ 64 \<Longrightarrow> ext_read_varint ext (ext_write_varint ext n @ rest) = Some (n, rest)"
    "ext_compress ext xs = Some z \<Longrightarrow> ext_decompress ext z m = (if length xs \<le> m then Some xs else None)"
    "ext_json_to_vec ext j = Some bs \<Longrightarrow> ext_json_from_slice ext bs = Some j"
    "ext_hint_decode ext (ext_hint_encode ext h) = Some h"
    "ext_biguint_from_bytes_be ext (ext_biguint_to_bytes_be ext n) = n"
  using assms unfolding serde_ext_ok_def by blast+

lemma felt_codec_ok [codec_intros]: "serde_ext_ok ext \<Longrightarrow> codec_ok (felt_codec ext)"
  by (simp add: codec_ok_def felt_codec_def serde_ext_okD)

lemma patricia_key_codec_ok [codec_intros]: "serde_ext_ok ext \<Longrightarrow> codec_ok (patricia_key_codec ext)"
  by (simp add: codec_ok_def patricia_key_codec_def felt_codec_def serde_ext_okD)

lemma vec_codec_ok [codec_intros]:
  assumes "serde_ext_ok ext" and "codec_ok c"
  shows "codec_ok (vec_codec ext c)"
proof (rule codec_okI)
  fix xs assume fits: "fits (vec_codec ext c) xs"
  from serialize_all_ok [OF assms(2), of xs] fits
  obtain bs where "serialize_all c xs = Inr bs" "\<forall>rest. deserialize_n c (length xs) (bs @ rest) = Decoded xs rest"
    by (auto simp: vec_codec_def)
  then show "\<exists>bs. serialize_into (vec_codec ext c) xs = Inr bs \<and>
      (\<forall>rest. deserialize_from (vec_codec ext c) (bs @ rest) = Decoded xs rest)"
    using fits by (simp add: vec_codec_def read_varint_def serde_ext_okD(2) [OF assms(1)])
qed

text \<open>A buffer is written as it is, after its length.\<close>

lemma serialize_all_u8: "serialize_all u8_codec bs = Inr bs"
  by (induction bs) (simp_all add: u8_codec_def)

lemma serialize_bytes:
  "serialize_into (vec_codec ext u8_codec) bs = Inr (ext_write_varint ext (length bs) @ bs)"
  by (simp add: vec_codec_def serialize_all_u8)

lemma deserialize_bytes:
  assumes "serde_ext_ok ext" and "length bs < 2 ^ 64"
  shows "deserialize_from (vec_codec ext u8_codec) (ext_write_varint ext (length bs) @ bs @ rest) = Decoded bs rest"
proof -
  have "fits (vec_codec ext u8_codec) bs" using assms(2) by (simp add: vec_codec_def u8_codec_def)
  from codec_okE [OF vec_codec_ok [OF assms(1) u8_codec_ok] this] show ?thesis
    unfolding serialize_bytes by (metis append.assoc sum.inject(2))
qed

lemma serialize_entries_ok:
  assumes "codec_ok k" and "codec_ok v" and "\<forall>(key, val) \<in> set m. fits k key \<and> fits v val"
  shows "\<exists>bs. serialize_all (pair_codec k v) m = Inr bs"
proof -
  have "\<forall>e \<in> set m. fits (pair_codec k v) e" using assms(3) by (auto simp: pair_codec_def)
  from serialize_all_ok [OF pair_codec_ok [OF assms(1,2)] this] show ?thesis by blast
qed

lemma index_map_codec_ok [codec_intros]:
  assumes "serde_ext_ok ext" and "codec_ok k" and "codec_ok v"
  shows "codec_ok (index_map_codec ext k v)"
proof (rule codec_okI)
  fix m assume "fits (index_map_codec ext k v) m"
  then have fits: "length m < 2 ^ 64" "distinct (map fst m)" "\<forall>(key, val) \<in> set m. fits k key \<and> fits v val"
    by (simp_all add: index_map_codec_def)
  from serialize_entries_ok [OF assms(2,3) fits(3)] obtain bs where bs: "serialize_all (pair_codec k v) m = Inr bs" ..
  from deserialize_entries_append [OF assms(2,3) fits(3), of "[]"] fits(2) bs
  show "\<exists>bs. serialize_into (index_map_codec ext k v) m = Inr bs \<and>
      (\<forall>rest. deserialize_from (index_map_codec ext k v) (bs @ rest) = Decoded m rest)"
    by (simp add: index_map_codec_def read_varint_def serde_ext_okD(2) [OF assms(1) fits(1)])
qed

lemma hash_map_codec_ok [codec_intros]:
  "serde_ext_ok ext \<Longrightarrow> codec_ok k \<Longrightarrow> codec_ok v \<Longrightarrow> codec_ok (hash_map_codec ext k v)"
  using index_map_codec_ok by (simp add: hash_map_codec_def index_map_codec_def)

lemma insort_key_greatest:
  "\<forall>e \<in> set res. f e < f x \<Longrightarrow> insort_key f x res = res @ [x]"
  by (induction res) auto

lemma deserialize_entries_sorted:
  assumes "codec_ok k" and "codec_ok v" and "\<forall>(key, val) \<in> set m. fits k key \<and> fits v val"
    and "sorted_wrt (<) (map fst (res @ m))" and "serialize_all (pair_codec k v) m = Inr bs"
  shows "deserialize_entries (\<lambda>key val res. insort_key fst (key, val) res) k v (length m) res (bs @ rest) =
    Decoded (res @ m) rest"
  using assms(3-5)
proof (induction m arbitrary: res bs)
  case (Cons e m)
  obtain key x where e: "e = (key, x)" by fastforce
  obtain ks where ks: "serialize_into k key = Inr ks" "\<And>rest. deserialize_from k (ks @ rest) = Decoded key rest"
    using codec_okE [OF assms(1), of key] Cons.prems(1) by (auto simp: e)
  obtain vs where vs: "serialize_into v x = Inr vs" "\<And>rest. deserialize_from v (vs @ rest) = Decoded x rest"
    using codec_okE [OF assms(2), of x] Cons.prems(1) by (auto simp: e)
  from Cons.prems(3) ks(1) vs(1) obtain cs where cs: "serialize_all (pair_codec k v) m = Inr cs" "bs = ks @ vs @ cs"
    by (auto simp: e pair_codec_def res_bind_eq_Inr)
  have less: "\<forall>a \<in> set res. fst a < key" using Cons.prems(2) by (auto simp: e sorted_wrt_append)
  then have "key \<notin> fst ` set res" by force
  then show ?case
    using Cons.IH [of "res @ [e]" cs] Cons.prems cs ks(2) vs(2) insort_key_greatest [of res fst "(key, x)"] less
    by (simp add: e)
qed simp

lemma btree_map_codec_ok [codec_intros]:
  assumes "serde_ext_ok ext" and "codec_ok k" and "codec_ok v"
  shows "codec_ok (btree_map_codec ext k v)"
proof (rule codec_okI)
  fix m assume "fits (btree_map_codec ext k v) m"
  then have fits: "length m < 2 ^ 64" "sorted_wrt (<) (map fst m)" "\<forall>(key, val) \<in> set m. fits k key \<and> fits v val"
    by (simp_all add: btree_map_codec_def)
  from serialize_entries_ok [OF assms(2,3) fits(3)] obtain bs where bs: "serialize_all (pair_codec k v) m = Inr bs" ..
  from deserialize_entries_sorted [OF assms(2,3) fits(3), of "[]"] fits(2) bs
  show "\<exists>bs. serialize_into (btree_map_codec ext k v) m = Inr bs \<and>
      (\<forall>rest. deserialize_from (btree_map_codec ext k v) (bs @ rest) = Decoded m rest)"
    by (simp add: btree_map_codec_def read_varint_def serde_ext_okD(2) [OF assms(1) fits(1)])
qed

lemma via_bytes_ok:
  assumes "serde_ext_ok ext" and "\<And>x bs. ok x \<Longrightarrow> to_bytes x = Some bs \<Longrightarrow> from_bytes bs = Some x"
  shows "codec_ok (via_bytes ext to_bytes from_bytes ok)"
proof (rule codec_okI)
  fix x assume "fits (via_bytes ext to_bytes from_bytes ok) x"
  then obtain bs where bs: "ok x" "to_bytes x = Some bs" "length bs < 2 ^ 64"
    by (auto simp: via_bytes_def split: option.splits)
  then show "\<exists>bs. serialize_into (via_bytes ext to_bytes from_bytes ok) x = Inr bs \<and>
      (\<forall>rest. deserialize_from (via_bytes ext to_bytes from_bytes ok) (bs @ rest) = Decoded x rest)"
    using assms(2) [OF bs(1,2)] by (simp add: via_bytes_def serialize_bytes deserialize_bytes [OF assms(1)])
qed

lemma payload_codecs_ok [codec_intros]:
  assumes "serde_ext_ok ext"
  shows "codec_ok (string_codec ext)" "codec_ok (json_codec ext)" "codec_ok (hint_codec ext)" "codec_ok (biguint_codec ext)"
  unfolding string_codec_def json_codec_def hint_codec_def biguint_codec_def
  by (rule via_bytes_ok [OF assms]; auto simp: from_utf8_def serde_ext_okD [OF assms])+

lemma from_buffer_ok:
  assumes "codec_ok c" and "fits c x" and "serialize_into c x = Inr bs"
  shows "from_buffer c bs rest = Decoded x rest"
  using codec_okE [OF assms(1,2)] assms(3) by (metis append.right_neutral dec_bind.simps(1) from_buffer_def sum.inject(2))

lemma compressibleD:
  assumes "serde_ext_ok ext" and "codec_ok c" and "compressible ext c x"
  obtains bs z where "serialize_into c x = Inr bs" "ext_compress ext bs = Some z" "length z < 2 ^ 64"
    "decompress ext z = Some bs" "\<And>rest. from_buffer c bs rest = Decoded x rest" "length bs < 2 ^ 64"
proof -
  from assms(3) obtain bs z where bs: "fits c x" "serialize_into c x = Inr bs" "length bs \<le> MAX_DECOMPRESSED_SIZE"
    "ext_compress ext bs = Some z" "length z < 2 ^ 64"
    by (auto simp: compressible_def split: sum.splits option.splits)
  have "decompress ext z = Some bs" using serde_ext_okD(3) [OF assms(1) bs(4)] bs(3) by (simp add: decompress_def)
  moreover have "length bs < 2 ^ 64" using bs(3) by (simp add: MAX_DECOMPRESSED_SIZE_def)
  ultimately show ?thesis using that bs from_buffer_ok [OF assms(2) bs(1,2)] by blast
qed

lemma compressed_codec_ok [codec_intros]:
  assumes "serde_ext_ok ext" and "codec_ok c"
  shows "codec_ok (compressed_codec ext c)"
proof (rule codec_okI)
  fix x assume "fits (compressed_codec ext c) x"
  then have "compressible ext c x" by (simp add: compressed_codec_def)
  then obtain bs z where "serialize_into c x = Inr bs" "ext_compress ext bs = Some z" "length z < 2 ^ 64"
    "decompress ext z = Some bs" "\<And>rest. from_buffer c bs rest = Decoded x rest"
    using compressibleD [OF assms] by blast
  then show "\<exists>bs. serialize_into (compressed_codec ext c) x = Inr bs \<and>
      (\<forall>rest. deserialize_from (compressed_codec ext c) (bs @ rest) = Decoded x rest)"
    by (simp add: compressed_codec_def serialize_and_compress_def serialize_bytes deserialize_bytes [OF assms(1)])
qed

lemma compressed_field_codec_ok [codec_intros]:
  assumes "serde_ext_ok ext" and "codec_ok c"
  shows "codec_ok (compressed_field_codec ext c)"
proof (rule codec_okI)
  fix x assume "fits (compressed_field_codec ext c) x"
  then have "compressible ext c x" by (simp add: compressed_field_codec_def)
  then obtain bs z where "serialize_into c x = Inr bs" "ext_compress ext bs = Some z" "length z < 2 ^ 64"
    "decompress ext z = Some bs" "\<And>rest. from_buffer c bs rest = Decoded x rest"
    using compressibleD [OF assms] by blast
  then show "\<exists>bs. serialize_into (compressed_field_codec ext c) x = Inr bs \<and>
      (\<forall>rest. deserialize_from (compressed_field_codec ext c) (bs @ rest) = Decoded x rest)"
    by (simp add: compressed_field_codec_def decompress_from_reader_def serialize_and_compress_def serialize_bytes
        deserialize_bytes [OF assms(1)])
qed

lemma is_compressed_codec_simps:
  "serialize_into is_compressed_codec NotCompressed = Inr [0]" "serialize_into is_compressed_codec Compressed = Inr [1]"
  "deserialize_from is_compressed_codec (0 # bs) = Decoded NotCompressed bs"
  "deserialize_from is_compressed_codec (1 # bs) = Decoded Compressed bs"
  by (simp_all add: is_compressed_codec_def enum_codec_def)

lemma cond_compressed_codec_ok [codec_intros]:
  assumes "serde_ext_ok ext" and "codec_ok c"
  shows "codec_ok (cond_compressed_codec ext c)"
proof (rule codec_okI)
  fix x assume "fits (cond_compressed_codec ext c) x"
  then have "compressible ext c x" by (simp add: cond_compressed_codec_def)
  then obtain bs z where "serialize_into c x = Inr bs" "ext_compress ext bs = Some z" "length z < 2 ^ 64"
    "decompress ext z = Some bs" "\<And>rest. from_buffer c bs rest = Decoded x rest" "length bs < 2 ^ 64"
    using compressibleD [OF assms] by blast
  then show "\<exists>bs. serialize_into (cond_compressed_codec ext c) x = Inr bs \<and>
      (\<forall>rest. deserialize_from (cond_compressed_codec ext c) (bs @ rest) = Decoded x rest)"
    by (simp add: cond_compressed_codec_def serialize_bytes is_compressed_codec_simps deserialize_bytes [OF assms(1)])
qed

text \<open>The wrappers read back what they wrote, and nothing that has further bytes.\<close>

lemma wrappers_roundtrip:
  assumes "codec_ok c" and "fits c x"
  shows "\<exists>bs. ex_serialize c x = Inr bs \<and> ex_deserialize c bs = Decoded x []"
    and "\<exists>bs. version_zero_serialize c x = Inr bs \<and> version_zero_deserialize c bs = Decoded x []"
    and "\<exists>bs. version_serialize v c x = Inr bs \<and> version_deserialize migrate v c bs = Decoded x []"
proof -
  obtain bs where bs: "serialize_into c x = Inr bs" "\<And>rest. deserialize_from c (bs @ rest) = Decoded x rest"
    using codec_okE [OF assms] by blast
  from bs(2) [of "[]"] have "deserialize_from c bs = Decoded x []" by simp
  with bs(1) show "\<exists>bs. ex_serialize c x = Inr bs \<and> ex_deserialize c bs = Decoded x []"
    "\<exists>bs. version_zero_serialize c x = Inr bs \<and> version_zero_deserialize c bs = Decoded x []"
    "\<exists>bs. version_serialize v c x = Inr bs \<and> version_deserialize migrate v c bs = Decoded x []"
    by (simp_all add: ex_serialize_def ex_deserialize_def version_zero_serialize_def version_zero_deserialize_def
        version_serialize_def version_deserialize_def serialization_error_def is_all_bytes_read_def read_kind_def
        VERSION_ZERO_def)
qed

section \<open>The order of keys\<close>

text \<open>The database orders keys by their bytes.\<close>

lemma lexordp_append_prefix_free:
  fixes as as' bs bs' :: "u8 list"
  assumes "\<not> strict_prefix as as'" and "\<not> strict_prefix as' as"
  shows "ord_class.lexordp (as @ bs) (as' @ bs') \<longleftrightarrow>
    ord_class.lexordp as as' \<or> as = as' \<and> ord_class.lexordp bs bs'"
  using assms
proof (induction as arbitrary: as')
  case Nil
  then show ?case by (cases as') simp_all
next
  case (Cons a as)
  note IH = Cons.IH
  show ?case
  proof (cases as')
    case Nil
    then show ?thesis using Cons.prems by simp
  next
    case (Cons a' as'')
    show ?thesis using IH [of as''] Cons.prems
      by (cases "a = a'") (auto simp: Cons)
  qed
qed

lemma low_bytes_inj: "m < 256 ^ k \<Longrightarrow> n < 256 ^ k \<Longrightarrow> low_bytes k m = low_bytes k n \<Longrightarrow> m = n"
  by (metis from_be_bytes_low_bytes mod_less)

lemma div_mod_less: "m div 256 < n div 256 \<or> m div 256 = n div 256 \<and> m mod 256 < n mod 256 \<longleftrightarrow> m < n"
  for m n :: nat
proof -
  have "m = 256 * (m div 256) + m mod 256" "n = 256 * (n div 256) + n mod 256" by simp_all
  moreover have "m mod 256 < 256" "n mod 256 < 256" by simp_all
  ultimately show ?thesis by linarith
qed

lemma lexordp_low_bytes:
  assumes "m < 256 ^ k" and "n < 256 ^ k"
  shows "ord_class.lexordp (low_bytes k m) (low_bytes k n) \<longleftrightarrow> m < n"
  using assms
proof (induction k arbitrary: m n)
  case (Suc k)
  have d: "m div 256 < 256 ^ k" "n div 256 < 256 ^ k"
    using Suc.prems by (simp_all add: less_mult_imp_div_less mult.commute)
  have pf: "\<not> strict_prefix (low_bytes k a) (low_bytes k b)" for a b
    using prefix_length_less [of "low_bytes k a" "low_bytes k b"] by auto
  have last: "ord_class.lexordp [of_nat m :: u8] [of_nat n] \<longleftrightarrow> m mod 256 < n mod 256"
    by (simp add: word_less_nat_alt unat_of_nat)
  have "ord_class.lexordp (low_bytes (Suc k) m) (low_bytes (Suc k) n) \<longleftrightarrow>
      m div 256 < n div 256 \<or> m div 256 = n div 256 \<and> m mod 256 < n mod 256"
    unfolding low_bytes.simps lexordp_append_prefix_free [OF pf pf] Suc.IH [OF d] last
    using low_bytes_inj [OF d] by auto
  also have "\<dots> \<longleftrightarrow> m < n" by (rule div_mod_less)
  finally show ?case .
qed simp

end
