(* ===== verification/Starknet_Types.thy ===== *)
theory Starknet_Types
  imports Storage_Serde
begin

text \<open>
  The data that the storage serializes, field by field: transactions, their outputs, and the three kinds of
  contract classes, as \<open>crates/papyrus_storage/src/serialization/serializers.rs\<close> lists them. The structs
  themselves are those of starknet_api and of the Cairo compiler. Hashes, addresses and other field elements
  are \<open>felt\<close>; a string is its bytes.
\<close>

section \<open>Transactions\<close>

datatype data_availability_mode =
    DaL1 | DaL2

datatype resource =
    L1Gas | L2Gas

record resource_bounds =
  rb_max_amount :: "nat"
  rb_max_price_per_unit :: "nat"

type_synonym resource_bounds_mapping = "(resource \<times> resource_bounds) list"

text \<open>A \<open>BTreeMap\<close> orders its keys: the order of the variants.\<close>

instantiation resource :: linorder
begin

definition less_eq_resource :: "resource \<Rightarrow> resource \<Rightarrow> bool" where
  "less_eq_resource a b \<longleftrightarrow> a = L1Gas \<or> b = L2Gas"

definition less_resource :: "resource \<Rightarrow> resource \<Rightarrow> bool" where
  "less_resource a b \<longleftrightarrow> a = L1Gas \<and> b = L2Gas"

instance
proof
  fix a b c :: resource
  show "(a < b) = (a \<le> b \<and> \<not> b \<le> a)" by (cases a; cases b) (simp_all add: less_resource_def less_eq_resource_def)
  show "a \<le> a" by (cases a) (simp_all add: less_eq_resource_def)
  show "a \<le> b \<Longrightarrow> b \<le> c \<Longrightarrow> a \<le> c" by (cases a; cases b; cases c) (simp_all add: less_eq_resource_def)
  show "a \<le> b \<Longrightarrow> b \<le> a \<Longrightarrow> a = b" by (cases a; cases b) (simp_all add: less_eq_resource_def)
  show "a \<le> b \<or> b \<le> a" by (cases a; cases b) (simp_all add: less_eq_resource_def)
qed

end

record declare_transaction_v0v1 =
  d1_max_fee :: "nat"
  d1_signature :: "felt list"
  d1_nonce :: "nonce"
  d1_class_hash :: "class_hash"
  d1_sender_address :: "contract_address"

record declare_transaction_v2 =
  d2_max_fee :: "nat"
  d2_signature :: "felt list"
  d2_nonce :: "nonce"
  d2_class_hash :: "class_hash"
  d2_compiled_class_hash :: "compiled_class_hash"
  d2_sender_address :: "contract_address"

record declare_transaction_v3 =
  d3_resource_bounds :: "resource_bounds_mapping"
  d3_tip :: "nat"
  d3_signature :: "felt list"
  d3_nonce :: "nonce"
  d3_class_hash :: "class_hash"
  d3_compiled_class_hash :: "compiled_class_hash"
  d3_sender_address :: "contract_address"
  d3_nonce_data_availability_mode :: "data_availability_mode"
  d3_fee_data_availability_mode :: "data_availability_mode"
  d3_paymaster_data :: "felt list"
  d3_account_deployment_data :: "felt list"

datatype declare_transaction =
    DeclareV0 declare_transaction_v0v1
  | DeclareV1 declare_transaction_v0v1
  | DeclareV2 declare_transaction_v2
  | DeclareV3 declare_transaction_v3

record deploy_account_transaction_v1 =
  da1_max_fee :: "nat"
  da1_signature :: "felt list"
  da1_nonce :: "nonce"
  da1_class_hash :: "class_hash"
  da1_contract_address_salt :: "felt"
  da1_constructor_calldata :: "felt list"

record deploy_account_transaction_v3 =
  da3_resource_bounds :: "resource_bounds_mapping"
  da3_tip :: "nat"
  da3_signature :: "felt list"
  da3_nonce :: "nonce"
  da3_class_hash :: "class_hash"
  da3_contract_address_salt :: "felt"
  da3_constructor_calldata :: "felt list"
  da3_nonce_data_availability_mode :: "data_availability_mode"
  da3_fee_data_availability_mode :: "data_availability_mode"
  da3_paymaster_data :: "felt list"

datatype deploy_account_transaction =
    DeployAccountV1 deploy_account_transaction_v1
  | DeployAccountV3 deploy_account_transaction_v3

record deploy_transaction =
  dp_version :: "felt"
  dp_class_hash :: "class_hash"
  dp_contract_address_salt :: "felt"
  dp_constructor_calldata :: "felt list"

record invoke_transaction_v0 =
  i0_max_fee :: "nat"
  i0_signature :: "felt list"
  i0_contract_address :: "contract_address"
  i0_entry_point_selector :: "felt"
  i0_calldata :: "felt list"

record invoke_transaction_v1 =
  i1_max_fee :: "nat"
  i1_signature :: "felt list"
  i1_nonce :: "nonce"
  i1_sender_address :: "contract_address"
  i1_calldata :: "felt list"

record invoke_transaction_v3 =
  i3_resource_bounds :: "resource_bounds_mapping"
  i3_tip :: "nat"
  i3_signature :: "felt list"
  i3_nonce :: "nonce"
  i3_sender_address :: "contract_address"
  i3_calldata :: "felt list"
  i3_nonce_data_availability_mode :: "data_availability_mode"
  i3_fee_data_availability_mode :: "data_availability_mode"
  i3_paymaster_data :: "felt list"
  i3_account_deployment_data :: "felt list"

datatype invoke_transaction =
    InvokeV0 invoke_transaction_v0
  | InvokeV1 invoke_transaction_v1
  | InvokeV3 invoke_transaction_v3

record l1_handler_transaction =
  l1_version :: "felt"
  l1_nonce :: "nonce"
  l1_contract_address :: "contract_address"
  l1_entry_point_selector :: "felt"
  l1_calldata :: "felt list"

datatype starknet_transaction =
    TxDeclare declare_transaction
  | TxDeploy deploy_transaction
  | TxDeployAccount deploy_account_transaction
  | TxInvoke invoke_transaction
  | TxL1Handler l1_handler_transaction

section \<open>Transaction outputs\<close>

record message_to_l1 =
  ml_to_address :: "u8 list"
  ml_payload :: "felt list"
  ml_from_address :: "contract_address"

record tx_event_content =
  ec_keys :: "felt list"
  ec_data :: "felt list"

record tx_event =
  te_from_address :: "contract_address"
  te_content :: "tx_event_content"

record gas_vector =
  gv_l1_gas :: "nat"
  gv_l1_data_gas :: "nat"

datatype builtin =
    RangeCheck | Pedersen | Poseidon | EcOp | Ecdsa | Bitwise | Keccak | SegmentArena | AddMod | MulMod
    | RangeCheck96

record execution_resources =
  er_steps :: "nat"
  er_builtin_instance_counter :: "(builtin \<times> nat) list"
  er_memory_holes :: "nat"
  er_da_gas_consumed :: "gas_vector"
  er_gas_consumed :: "gas_vector"

record reverted_execution_status =
  re_revert_reason :: "rust_string"

datatype execution_status =
    Succeeded
  | Reverted reverted_execution_status

record declare_transaction_output =
  do_actual_fee :: "nat"
  do_messages_sent :: "message_to_l1 list"
  do_events :: "tx_event list"
  do_execution_status :: "execution_status"
  do_execution_resources :: "execution_resources"

record deploy_account_transaction_output =
  ao_actual_fee :: "nat"
  ao_messages_sent :: "message_to_l1 list"
  ao_events :: "tx_event list"
  ao_contract_address :: "contract_address"
  ao_execution_status :: "execution_status"
  ao_execution_resources :: "execution_resources"

record deploy_transaction_output =
  po_actual_fee :: "nat"
  po_messages_sent :: "message_to_l1 list"
  po_events :: "tx_event list"
  po_contract_address :: "contract_address"
  po_execution_status :: "execution_status"
  po_execution_resources :: "execution_resources"

record invoke_transaction_output =
  io_actual_fee :: "nat"
  io_messages_sent :: "message_to_l1 list"
  io_events :: "tx_event list"
  io_execution_status :: "execution_status"
  io_execution_resources :: "execution_resources"

record l1_handler_transaction_output =
  lo_actual_fee :: "nat"
  lo_messages_sent :: "message_to_l1 list"
  lo_events :: "tx_event list"
  lo_execution_status :: "execution_status"
  lo_execution_resources :: "execution_resources"

datatype starknet_transaction_output =
    OutDeclare declare_transaction_output
  | OutDeploy deploy_transaction_output
  | OutDeployAccount deploy_account_transaction_output
  | OutInvoke invoke_transaction_output
  | OutL1Handler l1_handler_transaction_output

section \<open>Classes\<close>

datatype entry_point_type =
    EptConstructor | EptExternal | EptL1Handler

record entry_point =
  ep_function_idx :: "nat"
  ep_selector :: "felt"

record contract_class =
  cc_sierra_program :: "felt list"
  cc_entry_points_by_type :: "(entry_point_type \<times> entry_point list) list"
  cc_abi :: "rust_string"

datatype deprecated_entry_point_type =
    DeptConstructor | DeptExternal | DeptL1Handler

record deprecated_entry_point =
  de_selector :: "felt"
  de_offset :: "nat"

record typed_parameter =
  tp_name :: "rust_string"
  tp_type :: "rust_string"

datatype event_type =
    EventTypeEvent

record event_abi_entry =
  ea_data :: "typed_parameter list"
  ea_keys :: "typed_parameter list"
  ea_name :: "rust_string"
  ea_type :: "event_type"

datatype function_state_mutability =
    MutabilityView

record function_abi_entry =
  fa_name :: "rust_string"
  fa_inputs :: "typed_parameter list"
  fa_outputs :: "typed_parameter list"
  fa_state_mutability :: "function_state_mutability option"

record struct_member =
  sm_name :: "rust_string"
  sm_offset :: "nat"
  sm_type :: "rust_string"

datatype struct_type =
    StructTypeStruct

record struct_abi_entry =
  sa_members :: "struct_member list"
  sa_name :: "rust_string"
  sa_size :: "nat"
  sa_type :: "struct_type"

datatype contract_class_abi_entry =
    AbiEvent event_abi_entry
  | AbiFunction function_abi_entry
  | AbiConstructor function_abi_entry
  | AbiL1Handler function_abi_entry
  | AbiStruct struct_abi_entry

record program =
  pg_attributes :: "json_value"
  pg_builtins :: "json_value"
  pg_compiler_version :: "json_value"
  pg_data :: "json_value"
  pg_debug_info :: "json_value"
  pg_hints :: "json_value"
  pg_identifiers :: "json_value"
  pg_main_scope :: "json_value"
  pg_prime :: "json_value"
  pg_reference_manager :: "json_value"

record deprecated_contract_class =
  dc_abi :: "contract_class_abi_entry list option"
  dc_program :: program
  dc_entry_points_by_type :: "(deprecated_entry_point_type \<times> deprecated_entry_point list) list"

record casm_contract_entry_point =
  ce_selector :: "nat"
  ce_offset :: "nat"
  ce_builtins :: "rust_string list"

record casm_contract_entry_points =
  cp_external :: "casm_contract_entry_point list"
  cp_l1_handler :: "casm_contract_entry_point list"
  cp_constructor :: "casm_contract_entry_point list"

datatype nested_int_list = Leaf nat | Node "nested_int_list list"

record casm_contract_class =
  cm_prime :: "nat"
  cm_compiler_version :: "rust_string"
  cm_bytecode :: "nat list"
  cm_bytecode_segment_lengths :: "nested_int_list option"
  cm_hints :: "(nat \<times> hint list) list"
  cm_pythonic_hints :: "(nat \<times> rust_string list) list option"
  cm_entry_points_by_type :: "casm_contract_entry_points"

end
