(* ===== verification/Storage_Serde_Types.thy ===== *)
theory Storage_Serde_Types
  imports Starknet_Types
begin

text \<open>
  The serialization of every type of \<open>Starknet_Types\<close> and of the keys and values of the tables:
  \<open>crates/papyrus_storage/src/serialization/serializers.rs\<close>. A struct is written field by field
  (\<open>auto_storage_serde\<close>); the transactions with calldata and the outputs are compressed when they are long
  (\<open>auto_storage_serde_conditionally_compressed\<close>). Newtypes are written as what they wrap.
\<close>

definition felts_codec :: "serde_ext \<Rightarrow> felt list codec" where
  "felts_codec ext = vec_codec ext (felt_codec ext)"

section \<open>Transactions\<close>

definition data_availability_mode_codec :: "data_availability_mode codec" where
  "data_availability_mode_codec = enum_codec [DaL1, DaL2]"

definition resource_codec :: "resource codec" where
  "resource_codec = enum_codec [L1Gas, L2Gas]"

definition resource_bounds_codec :: "resource_bounds codec" where
  "resource_bounds_codec =
     struct_codec
       (\<lambda>x. (rb_max_amount x, rb_max_price_per_unit x))
       (\<lambda>(a, b). resource_bounds.make a b)
       (pair_codec u64_codec
        u128_codec)"

definition resource_bounds_mapping_codec :: "serde_ext \<Rightarrow> resource_bounds_mapping codec" where
  "resource_bounds_mapping_codec ext = btree_map_codec ext resource_codec resource_bounds_codec"

definition declare_transaction_v0v1_codec :: "serde_ext \<Rightarrow> declare_transaction_v0v1 codec" where
  "declare_transaction_v0v1_codec ext =
     struct_codec
       (\<lambda>x. (d1_max_fee x, d1_signature x, d1_nonce x, d1_class_hash x, d1_sender_address x))
       (\<lambda>(a, b, c, d, e). declare_transaction_v0v1.make a b c d e)
       (pair_codec u128_codec
        (pair_codec (felts_codec ext)
        (pair_codec (felt_codec ext)
        (pair_codec (felt_codec ext)
        (patricia_key_codec ext)))))"

definition declare_transaction_v2_codec :: "serde_ext \<Rightarrow> declare_transaction_v2 codec" where
  "declare_transaction_v2_codec ext =
     struct_codec
       (\<lambda>x. (d2_max_fee x, d2_signature x, d2_nonce x, d2_class_hash x, d2_compiled_class_hash x,
        d2_sender_address x))
       (\<lambda>(a, b, c, d, e, f). declare_transaction_v2.make a b c d e f)
       (pair_codec u128_codec
        (pair_codec (felts_codec ext)
        (pair_codec (felt_codec ext)
        (pair_codec (felt_codec ext)
        (pair_codec (felt_codec ext)
        (patricia_key_codec ext))))))"

definition declare_transaction_v3_codec :: "serde_ext \<Rightarrow> declare_transaction_v3 codec" where
  "declare_transaction_v3_codec ext =
     struct_codec
       (\<lambda>x. (d3_resource_bounds x, d3_tip x, d3_signature x, d3_nonce x, d3_class_hash x,
        d3_compiled_class_hash x, d3_sender_address x, d3_nonce_data_availability_mode x,
         d3_fee_data_availability_mode x, d3_paymaster_data x, d3_account_deployment_data x))
       (\<lambda>(a, b, c, d, e, f, g, h, i, j, k). declare_transaction_v3.make a b c d e f g h i j k)
       (pair_codec (resource_bounds_mapping_codec ext)
        (pair_codec u64_codec
        (pair_codec (felts_codec ext)
        (pair_codec (felt_codec ext)
        (pair_codec (felt_codec ext)
        (pair_codec (felt_codec ext)
        (pair_codec (patricia_key_codec ext)
        (pair_codec data_availability_mode_codec
        (pair_codec data_availability_mode_codec
        (pair_codec (felts_codec ext)
        (felts_codec ext)))))))))))"

definition declare_transaction_codec :: "serde_ext \<Rightarrow> declare_transaction codec" where
  "declare_transaction_codec ext = \<lparr>
     serialize_into = (\<lambda>x. case x of
        DeclareV0 v \<Rightarrow> with_kind 0 (serialize_into (declare_transaction_v0v1_codec ext) v)
      | DeclareV1 v \<Rightarrow> with_kind 1 (serialize_into (declare_transaction_v0v1_codec ext) v)
      | DeclareV2 v \<Rightarrow> with_kind 2 (serialize_into (declare_transaction_v2_codec ext) v)
      | DeclareV3 v \<Rightarrow> with_kind 3 (serialize_into (declare_transaction_v3_codec ext) v)),
     deserialize_from = (\<lambda>bytes. read_kind bytes (\<lambda>kind rest.
        if kind = 0 then dec_map DeclareV0 (deserialize_from (declare_transaction_v0v1_codec ext) rest)
        else if kind = 1 then dec_map DeclareV1 (deserialize_from (declare_transaction_v0v1_codec ext) rest)
        else if kind = 2 then dec_map DeclareV2 (deserialize_from (declare_transaction_v2_codec ext) rest)
        else if kind = 3 then dec_map DeclareV3 (deserialize_from (declare_transaction_v3_codec ext) rest)
        else Malformed)),
     fits = (\<lambda>x. case x of
        DeclareV0 v \<Rightarrow> fits (declare_transaction_v0v1_codec ext) v
      | DeclareV1 v \<Rightarrow> fits (declare_transaction_v0v1_codec ext) v
      | DeclareV2 v \<Rightarrow> fits (declare_transaction_v2_codec ext) v
      | DeclareV3 v \<Rightarrow> fits (declare_transaction_v3_codec ext) v)\<rparr>"

definition deploy_account_transaction_v1_codec :: "serde_ext \<Rightarrow> deploy_account_transaction_v1 codec" where
  "deploy_account_transaction_v1_codec ext =
     cond_compressed_codec ext (struct_codec
       (\<lambda>x. (da1_max_fee x, da1_signature x, da1_nonce x, da1_class_hash x, da1_contract_address_salt x,
        da1_constructor_calldata x))
       (\<lambda>(a, b, c, d, e, f). deploy_account_transaction_v1.make a b c d e f)
       (pair_codec u128_codec
        (pair_codec (felts_codec ext)
        (pair_codec (felt_codec ext)
        (pair_codec (felt_codec ext)
        (pair_codec (felt_codec ext)
        (felts_codec ext)))))))"

definition deploy_account_transaction_v3_codec :: "serde_ext \<Rightarrow> deploy_account_transaction_v3 codec" where
  "deploy_account_transaction_v3_codec ext =
     cond_compressed_codec ext (struct_codec
       (\<lambda>x. (da3_resource_bounds x, da3_tip x, da3_signature x, da3_nonce x, da3_class_hash x,
        da3_contract_address_salt x, da3_constructor_calldata x, da3_nonce_data_availability_mode x,
         da3_fee_data_availability_mode x, da3_paymaster_data x))
       (\<lambda>(a, b, c, d, e, f, g, h, i, j). deploy_account_transaction_v3.make a b c d e f g h i j)
       (pair_codec (resource_bounds_mapping_codec ext)
        (pair_codec u64_codec
        (pair_codec (felts_codec ext)
        (pair_codec (felt_codec ext)
        (pair_codec (felt_codec ext)
        (pair_codec (felt_codec ext)
        (pair_codec (felts_codec ext)
        (pair_codec data_availability_mode_codec
        (pair_codec data_availability_mode_codec
        (felts_codec ext)))))))))))"

definition deploy_account_transaction_codec :: "serde_ext \<Rightarrow> deploy_account_transaction codec" where
  "deploy_account_transaction_codec ext = \<lparr>
     serialize_into = (\<lambda>x. case x of
        DeployAccountV1 v \<Rightarrow> with_kind 0 (serialize_into (deploy_account_transaction_v1_codec ext) v)
      | DeployAccountV3 v \<Rightarrow> with_kind 1 (serialize_into (deploy_account_transaction_v3_codec ext) v)),
     deserialize_from = (\<lambda>bytes. read_kind bytes (\<lambda>kind rest.
        if kind = 0 then dec_map DeployAccountV1 (deserialize_from (deploy_account_transaction_v1_codec ext) rest)
        else if kind = 1 then dec_map DeployAccountV3 (deserialize_from (deploy_account_transaction_v3_codec ext) rest)
        else Malformed)),
     fits = (\<lambda>x. case x of
        DeployAccountV1 v \<Rightarrow> fits (deploy_account_transaction_v1_codec ext) v
      | DeployAccountV3 v \<Rightarrow> fits (deploy_account_transaction_v3_codec ext) v)\<rparr>"

definition deploy_transaction_codec :: "serde_ext \<Rightarrow> deploy_transaction codec" where
  "deploy_transaction_codec ext =
     cond_compressed_codec ext (struct_codec
       (\<lambda>x. (dp_version x, dp_class_hash x, dp_contract_address_salt x, dp_constructor_calldata x))
       (\<lambda>(a, b, c, d). deploy_transaction.make a b c d)
       (pair_codec (felt_codec ext)
        (pair_codec (felt_codec ext)
        (pair_codec (felt_codec ext)
        (felts_codec ext)))))"

definition invoke_transaction_v0_codec :: "serde_ext \<Rightarrow> invoke_transaction_v0 codec" where
  "invoke_transaction_v0_codec ext =
     cond_compressed_codec ext (struct_codec
       (\<lambda>x. (i0_max_fee x, i0_signature x, i0_contract_address x, i0_entry_point_selector x, i0_calldata x))
       (\<lambda>(a, b, c, d, e). invoke_transaction_v0.make a b c d e)
       (pair_codec u128_codec
        (pair_codec (felts_codec ext)
        (pair_codec (patricia_key_codec ext)
        (pair_codec (felt_codec ext)
        (felts_codec ext))))))"

definition invoke_transaction_v1_codec :: "serde_ext \<Rightarrow> invoke_transaction_v1 codec" where
  "invoke_transaction_v1_codec ext =
     cond_compressed_codec ext (struct_codec
       (\<lambda>x. (i1_max_fee x, i1_signature x, i1_nonce x, i1_sender_address x, i1_calldata x))
       (\<lambda>(a, b, c, d, e). invoke_transaction_v1.make a b c d e)
       (pair_codec u128_codec
        (pair_codec (felts_codec ext)
        (pair_codec (felt_codec ext)
        (pair_codec (patricia_key_codec ext)
        (felts_codec ext))))))"

definition invoke_transaction_v3_codec :: "serde_ext \<Rightarrow> invoke_transaction_v3 codec" where
  "invoke_transaction_v3_codec ext =
     cond_compressed_codec ext (struct_codec
       (\<lambda>x. (i3_resource_bounds x, i3_tip x, i3_signature x, i3_nonce x, i3_sender_address x, i3_calldata
        x, i3_nonce_data_availability_mode x, i3_fee_data_availability_mode x, i3_paymaster_data x,
         i3_account_deployment_data x))
       (\<lambda>(a, b, c, d, e, f, g, h, i, j). invoke_transaction_v3.make a b c d e f g h i j)
       (pair_codec (resource_bounds_mapping_codec ext)
        (pair_codec u64_codec
        (pair_codec (felts_codec ext)
        (pair_codec (felt_codec ext)
        (pair_codec (patricia_key_codec ext)
        (pair_codec (felts_codec ext)
        (pair_codec data_availability_mode_codec
        (pair_codec data_availability_mode_codec
        (pair_codec (felts_codec ext)
        (felts_codec ext)))))))))))"

definition invoke_transaction_codec :: "serde_ext \<Rightarrow> invoke_transaction codec" where
  "invoke_transaction_codec ext = \<lparr>
     serialize_into = (\<lambda>x. case x of
        InvokeV0 v \<Rightarrow> with_kind 0 (serialize_into (invoke_transaction_v0_codec ext) v)
      | InvokeV1 v \<Rightarrow> with_kind 1 (serialize_into (invoke_transaction_v1_codec ext) v)
      | InvokeV3 v \<Rightarrow> with_kind 2 (serialize_into (invoke_transaction_v3_codec ext) v)),
     deserialize_from = (\<lambda>bytes. read_kind bytes (\<lambda>kind rest.
        if kind = 0 then dec_map InvokeV0 (deserialize_from (invoke_transaction_v0_codec ext) rest)
        else if kind = 1 then dec_map InvokeV1 (deserialize_from (invoke_transaction_v1_codec ext) rest)
        else if kind = 2 then dec_map InvokeV3 (deserialize_from (invoke_transaction_v3_codec ext) rest)
        else Malformed)),
     fits = (\<lambda>x. case x of
        InvokeV0 v \<Rightarrow> fits (invoke_transaction_v0_codec ext) v
      | InvokeV1 v \<Rightarrow> fits (invoke_transaction_v1_codec ext) v
      | InvokeV3 v \<Rightarrow> fits (invoke_transaction_v3_codec ext) v)\<rparr>"

definition l1_handler_transaction_codec :: "serde_ext \<Rightarrow> l1_handler_transaction codec" where
  "l1_handler_transaction_codec ext =
     cond_compressed_codec ext (struct_codec
       (\<lambda>x. (l1_version x, l1_nonce x, l1_contract_address x, l1_entry_point_selector x, l1_calldata x))
       (\<lambda>(a, b, c, d, e). l1_handler_transaction.make a b c d e)
       (pair_codec (felt_codec ext)
        (pair_codec (felt_codec ext)
        (pair_codec (patricia_key_codec ext)
        (pair_codec (felt_codec ext)
        (felts_codec ext))))))"

definition starknet_transaction_codec :: "serde_ext \<Rightarrow> starknet_transaction codec" where
  "starknet_transaction_codec ext = \<lparr>
     serialize_into = (\<lambda>x. case x of
        TxDeclare v \<Rightarrow> with_kind 0 (serialize_into (declare_transaction_codec ext) v)
      | TxDeploy v \<Rightarrow> with_kind 1 (serialize_into (deploy_transaction_codec ext) v)
      | TxDeployAccount v \<Rightarrow> with_kind 2 (serialize_into (deploy_account_transaction_codec ext) v)
      | TxInvoke v \<Rightarrow> with_kind 3 (serialize_into (invoke_transaction_codec ext) v)
      | TxL1Handler v \<Rightarrow> with_kind 4 (serialize_into (l1_handler_transaction_codec ext) v)),
     deserialize_from = (\<lambda>bytes. read_kind bytes (\<lambda>kind rest.
        if kind = 0 then dec_map TxDeclare (deserialize_from (declare_transaction_codec ext) rest)
        else if kind = 1 then dec_map TxDeploy (deserialize_from (deploy_transaction_codec ext) rest)
        else if kind = 2 then dec_map TxDeployAccount (deserialize_from (deploy_account_transaction_codec ext) rest)
        else if kind = 3 then dec_map TxInvoke (deserialize_from (invoke_transaction_codec ext) rest)
        else if kind = 4 then dec_map TxL1Handler (deserialize_from (l1_handler_transaction_codec ext) rest)
        else Malformed)),
     fits = (\<lambda>x. case x of
        TxDeclare v \<Rightarrow> fits (declare_transaction_codec ext) v
      | TxDeploy v \<Rightarrow> fits (deploy_transaction_codec ext) v
      | TxDeployAccount v \<Rightarrow> fits (deploy_account_transaction_codec ext) v
      | TxInvoke v \<Rightarrow> fits (invoke_transaction_codec ext) v
      | TxL1Handler v \<Rightarrow> fits (l1_handler_transaction_codec ext) v)\<rparr>"

section \<open>Transaction outputs\<close>

definition message_to_l1_codec :: "serde_ext \<Rightarrow> message_to_l1 codec" where
  "message_to_l1_codec ext =
     struct_codec
       (\<lambda>x. (ml_to_address x, ml_payload x, ml_from_address x))
       (\<lambda>(a, b, c). message_to_l1.make a b c)
       (pair_codec (array_codec 20 u8_codec)
        (pair_codec (felts_codec ext)
        (patricia_key_codec ext)))"

definition tx_event_content_codec :: "serde_ext \<Rightarrow> tx_event_content codec" where
  "tx_event_content_codec ext =
     struct_codec
       (\<lambda>x. (ec_keys x, ec_data x))
       (\<lambda>(a, b). tx_event_content.make a b)
       (pair_codec (felts_codec ext)
        (felts_codec ext))"

definition tx_event_codec :: "serde_ext \<Rightarrow> tx_event codec" where
  "tx_event_codec ext =
     struct_codec
       (\<lambda>x. (te_from_address x, te_content x))
       (\<lambda>(a, b). tx_event.make a b)
       (pair_codec (patricia_key_codec ext)
        (tx_event_content_codec ext))"

definition gas_vector_codec :: "gas_vector codec" where
  "gas_vector_codec =
     struct_codec
       (\<lambda>x. (gv_l1_gas x, gv_l1_data_gas x))
       (\<lambda>(a, b). gas_vector.make a b)
       (pair_codec u64_codec
        u64_codec)"

definition builtin_codec :: "builtin codec" where
  "builtin_codec = enum_codec [RangeCheck, Pedersen, Poseidon, EcOp, Ecdsa, Bitwise, Keccak, SegmentArena, AddMod, MulMod, RangeCheck96]"

definition execution_resources_codec :: "serde_ext \<Rightarrow> execution_resources codec" where
  "execution_resources_codec ext =
     struct_codec
       (\<lambda>x. (er_steps x, er_builtin_instance_counter x, er_memory_holes x, er_da_gas_consumed x,
        er_gas_consumed x))
       (\<lambda>(a, b, c, d, e). execution_resources.make a b c d e)
       (pair_codec u64_codec
        (pair_codec (hash_map_codec ext builtin_codec u64_codec)
        (pair_codec u64_codec
        (pair_codec gas_vector_codec
        gas_vector_codec))))"

definition reverted_execution_status_codec :: "serde_ext \<Rightarrow> reverted_execution_status codec" where
  "reverted_execution_status_codec ext =
     struct_codec
       (re_revert_reason)
       (reverted_execution_status.make)
       (string_codec ext)"

definition execution_status_codec :: "serde_ext \<Rightarrow> execution_status codec" where
  "execution_status_codec ext = \<lparr>
     serialize_into = (\<lambda>x. case x of
        Succeeded \<Rightarrow> with_kind 0 (Inr [])
      | Reverted v \<Rightarrow> with_kind 1 (serialize_into (reverted_execution_status_codec ext) v)),
     deserialize_from = (\<lambda>bytes. read_kind bytes (\<lambda>kind rest.
        if kind = 0 then Decoded Succeeded rest
        else if kind = 1 then dec_map Reverted (deserialize_from (reverted_execution_status_codec ext) rest)
        else Malformed)),
     fits = (\<lambda>x. case x of
        Succeeded \<Rightarrow> True
      | Reverted v \<Rightarrow> fits (reverted_execution_status_codec ext) v)\<rparr>"

definition declare_transaction_output_codec :: "serde_ext \<Rightarrow> declare_transaction_output codec" where
  "declare_transaction_output_codec ext =
     cond_compressed_codec ext (struct_codec
       (\<lambda>x. (do_actual_fee x, do_messages_sent x, do_events x, do_execution_status x,
        do_execution_resources x))
       (\<lambda>(a, b, c, d, e). declare_transaction_output.make a b c d e)
       (pair_codec u128_codec
        (pair_codec (vec_codec ext (message_to_l1_codec ext))
        (pair_codec (vec_codec ext (tx_event_codec ext))
        (pair_codec (execution_status_codec ext)
        (execution_resources_codec ext))))))"

definition deploy_account_transaction_output_codec :: "serde_ext \<Rightarrow> deploy_account_transaction_output codec" where
  "deploy_account_transaction_output_codec ext =
     cond_compressed_codec ext (struct_codec
       (\<lambda>x. (ao_actual_fee x, ao_messages_sent x, ao_events x, ao_contract_address x, ao_execution_status
        x, ao_execution_resources x))
       (\<lambda>(a, b, c, d, e, f). deploy_account_transaction_output.make a b c d e f)
       (pair_codec u128_codec
        (pair_codec (vec_codec ext (message_to_l1_codec ext))
        (pair_codec (vec_codec ext (tx_event_codec ext))
        (pair_codec (patricia_key_codec ext)
        (pair_codec (execution_status_codec ext)
        (execution_resources_codec ext)))))))"

definition deploy_transaction_output_codec :: "serde_ext \<Rightarrow> deploy_transaction_output codec" where
  "deploy_transaction_output_codec ext =
     cond_compressed_codec ext (struct_codec
       (\<lambda>x. (po_actual_fee x, po_messages_sent x, po_events x, po_contract_address x, po_execution_status
        x, po_execution_resources x))
       (\<lambda>(a, b, c, d, e, f). deploy_transaction_output.make a b c d e f)
       (pair_codec u128_codec
        (pair_codec (vec_codec ext (message_to_l1_codec ext))
        (pair_codec (vec_codec ext (tx_event_codec ext))
        (pair_codec (patricia_key_codec ext)
        (pair_codec (execution_status_codec ext)
        (execution_resources_codec ext)))))))"

definition invoke_transaction_output_codec :: "serde_ext \<Rightarrow> invoke_transaction_output codec" where
  "invoke_transaction_output_codec ext =
     cond_compressed_codec ext (struct_codec
       (\<lambda>x. (io_actual_fee x, io_messages_sent x, io_events x, io_execution_status x,
        io_execution_resources x))
       (\<lambda>(a, b, c, d, e). invoke_transaction_output.make a b c d e)
       (pair_codec u128_codec
        (pair_codec (vec_codec ext (message_to_l1_codec ext))
        (pair_codec (vec_codec ext (tx_event_codec ext))
        (pair_codec (execution_status_codec ext)
        (execution_resources_codec ext))))))"

definition l1_handler_transaction_output_codec :: "serde_ext \<Rightarrow> l1_handler_transaction_output codec" where
  "l1_handler_transaction_output_codec ext =
     cond_compressed_codec ext (struct_codec
       (\<lambda>x. (lo_actual_fee x, lo_messages_sent x, lo_events x, lo_execution_status x,
        lo_execution_resources x))
       (\<lambda>(a, b, c, d, e). l1_handler_transaction_output.make a b c d e)
       (pair_codec u128_codec
        (pair_codec (vec_codec ext (message_to_l1_codec ext))
        (pair_codec (vec_codec ext (tx_event_codec ext))
        (pair_codec (execution_status_codec ext)
        (execution_resources_codec ext))))))"

definition starknet_transaction_output_codec :: "serde_ext \<Rightarrow> starknet_transaction_output codec" where
  "starknet_transaction_output_codec ext = \<lparr>
     serialize_into = (\<lambda>x. case x of
        OutDeclare v \<Rightarrow> with_kind 0 (serialize_into (declare_transaction_output_codec ext) v)
      | OutDeploy v \<Rightarrow> with_kind 1 (serialize_into (deploy_transaction_output_codec ext) v)
      | OutDeployAccount v \<Rightarrow> with_kind 2 (serialize_into (deploy_account_transaction_output_codec ext) v)
      | OutInvoke v \<Rightarrow> with_kind 3 (serialize_into (invoke_transaction_output_codec ext) v)
      | OutL1Handler v \<Rightarrow> with_kind 4 (serialize_into (l1_handler_transaction_output_codec ext) v)),
     deserialize_from = (\<lambda>bytes. read_kind bytes (\<lambda>kind rest.
        if kind = 0 then dec_map OutDeclare (deserialize_from (declare_transaction_output_codec ext) rest)
        else if kind = 1 then dec_map OutDeploy (deserialize_from (deploy_transaction_output_codec ext) rest)
        else if kind = 2 then dec_map OutDeployAccount (deserialize_from (deploy_account_transaction_output_codec ext) rest)
        else if kind = 3 then dec_map OutInvoke (deserialize_from (invoke_transaction_output_codec ext) rest)
        else if kind = 4 then dec_map OutL1Handler (deserialize_from (l1_handler_transaction_output_codec ext) rest)
        else Malformed)),
     fits = (\<lambda>x. case x of
        OutDeclare v \<Rightarrow> fits (declare_transaction_output_codec ext) v
      | OutDeploy v \<Rightarrow> fits (deploy_transaction_output_codec ext) v
      | OutDeployAccount v \<Rightarrow> fits (deploy_account_transaction_output_codec ext) v
      | OutInvoke v \<Rightarrow> fits (invoke_transaction_output_codec ext) v
      | OutL1Handler v \<Rightarrow> fits (l1_handler_transaction_output_codec ext) v)\<rparr>"

section \<open>Classes\<close>

definition entry_point_type_codec :: "entry_point_type codec" where
  "entry_point_type_codec = enum_codec [EptConstructor, EptExternal, EptL1Handler]"

definition entry_point_codec :: "serde_ext \<Rightarrow> entry_point codec" where
  "entry_point_codec ext =
     struct_codec
       (\<lambda>x. (ep_function_idx x, ep_selector x))
       (\<lambda>(a, b). entry_point.make a b)
       (pair_codec usize_codec
        (felt_codec ext))"

definition contract_class_codec :: "serde_ext \<Rightarrow> contract_class codec" where
  "contract_class_codec ext =
     struct_codec
       (\<lambda>x. (cc_sierra_program x, cc_entry_points_by_type x, cc_abi x))
       (\<lambda>(a, b, c). contract_class.make a b c)
       (pair_codec (compressed_field_codec ext (felts_codec ext))
        (pair_codec (hash_map_codec ext entry_point_type_codec (vec_codec ext (entry_point_codec ext)))
        (compressed_field_codec ext (string_codec ext))))"

definition deprecated_entry_point_type_codec :: "deprecated_entry_point_type codec" where
  "deprecated_entry_point_type_codec = enum_codec [DeptConstructor, DeptExternal, DeptL1Handler]"

definition deprecated_entry_point_codec :: "serde_ext \<Rightarrow> deprecated_entry_point codec" where
  "deprecated_entry_point_codec ext =
     struct_codec
       (\<lambda>x. (de_selector x, de_offset x))
       (\<lambda>(a, b). deprecated_entry_point.make a b)
       (pair_codec (felt_codec ext)
        usize_codec)"

definition typed_parameter_codec :: "serde_ext \<Rightarrow> typed_parameter codec" where
  "typed_parameter_codec ext =
     struct_codec
       (\<lambda>x. (tp_name x, tp_type x))
       (\<lambda>(a, b). typed_parameter.make a b)
       (pair_codec (string_codec ext)
        (string_codec ext))"

definition event_type_codec :: "event_type codec" where
  "event_type_codec = enum_codec [EventTypeEvent]"

definition event_abi_entry_codec :: "serde_ext \<Rightarrow> event_abi_entry codec" where
  "event_abi_entry_codec ext =
     struct_codec
       (\<lambda>x. (ea_data x, ea_keys x, ea_name x, ea_type x))
       (\<lambda>(a, b, c, d). event_abi_entry.make a b c d)
       (pair_codec (vec_codec ext (typed_parameter_codec ext))
        (pair_codec (vec_codec ext (typed_parameter_codec ext))
        (pair_codec (string_codec ext)
        event_type_codec)))"

definition function_state_mutability_codec :: "function_state_mutability codec" where
  "function_state_mutability_codec = enum_codec [MutabilityView]"

definition function_abi_entry_codec :: "serde_ext \<Rightarrow> function_abi_entry codec" where
  "function_abi_entry_codec ext =
     struct_codec
       (\<lambda>x. (fa_name x, fa_inputs x, fa_outputs x, fa_state_mutability x))
       (\<lambda>(a, b, c, d). function_abi_entry.make a b c d)
       (pair_codec (string_codec ext)
        (pair_codec (vec_codec ext (typed_parameter_codec ext))
        (pair_codec (vec_codec ext (typed_parameter_codec ext))
        (option_codec function_state_mutability_codec))))"

definition struct_member_codec :: "serde_ext \<Rightarrow> struct_member codec" where
  "struct_member_codec ext =
     struct_codec
       (\<lambda>x. (sm_name x, sm_offset x, sm_type x))
       (\<lambda>(a, b, c). struct_member.make a b c)
       (pair_codec (string_codec ext)
        (pair_codec usize_codec
        (string_codec ext)))"

definition struct_type_codec :: "struct_type codec" where
  "struct_type_codec = enum_codec [StructTypeStruct]"

definition struct_abi_entry_codec :: "serde_ext \<Rightarrow> struct_abi_entry codec" where
  "struct_abi_entry_codec ext =
     struct_codec
       (\<lambda>x. (sa_members x, sa_name x, sa_size x, sa_type x))
       (\<lambda>(a, b, c, d). struct_abi_entry.make a b c d)
       (pair_codec (vec_codec ext (struct_member_codec ext))
        (pair_codec (string_codec ext)
        (pair_codec usize_codec
        struct_type_codec)))"

definition contract_class_abi_entry_codec :: "serde_ext \<Rightarrow> contract_class_abi_entry codec" where
  "contract_class_abi_entry_codec ext = \<lparr>
     serialize_into = (\<lambda>x. case x of
        AbiEvent v \<Rightarrow> with_kind 0 (serialize_into (event_abi_entry_codec ext) v)
      | AbiFunction v \<Rightarrow> with_kind 1 (serialize_into (function_abi_entry_codec ext) v)
      | AbiConstructor v \<Rightarrow> with_kind 2 (serialize_into (function_abi_entry_codec ext) v)
      | AbiL1Handler v \<Rightarrow> with_kind 3 (serialize_into (function_abi_entry_codec ext) v)
      | AbiStruct v \<Rightarrow> with_kind 4 (serialize_into (struct_abi_entry_codec ext) v)),
     deserialize_from = (\<lambda>bytes. read_kind bytes (\<lambda>kind rest.
        if kind = 0 then dec_map AbiEvent (deserialize_from (event_abi_entry_codec ext) rest)
        else if kind = 1 then dec_map AbiFunction (deserialize_from (function_abi_entry_codec ext) rest)
        else if kind = 2 then dec_map AbiConstructor (deserialize_from (function_abi_entry_codec ext) rest)
        else if kind = 3 then dec_map AbiL1Handler (deserialize_from (function_abi_entry_codec ext) rest)
        else if kind = 4 then dec_map AbiStruct (deserialize_from (struct_abi_entry_codec ext) rest)
        else Malformed)),
     fits = (\<lambda>x. case x of
        AbiEvent v \<Rightarrow> fits (event_abi_entry_codec ext) v
      | AbiFunction v \<Rightarrow> fits (function_abi_entry_codec ext) v
      | AbiConstructor v \<Rightarrow> fits (function_abi_entry_codec ext) v
      | AbiL1Handler v \<Rightarrow> fits (function_abi_entry_codec ext) v
      | AbiStruct v \<Rightarrow> fits (struct_abi_entry_codec ext) v)\<rparr>"

definition program_codec :: "serde_ext \<Rightarrow> program codec" where
  "program_codec ext =
     struct_codec
       (\<lambda>x. (pg_attributes x, pg_builtins x, pg_compiler_version x, pg_data x, pg_debug_info x, pg_hints x,
        pg_identifiers x, pg_main_scope x, pg_prime x, pg_reference_manager x))
       (\<lambda>(a, b, c, d, e, f, g, h, i, j). program.make a b c d e f g h i j)
       (pair_codec (json_codec ext)
        (pair_codec (json_codec ext)
        (pair_codec (json_codec ext)
        (pair_codec (json_codec ext)
        (pair_codec (json_codec ext)
        (pair_codec (json_codec ext)
        (pair_codec (json_codec ext)
        (pair_codec (json_codec ext)
        (pair_codec (json_codec ext)
        (json_codec ext))))))))))"

text \<open>The program and the ABI are compressed together, the entry points are not.\<close>

definition deprecated_contract_class_codec :: "serde_ext \<Rightarrow> deprecated_contract_class codec" where
  "deprecated_contract_class_codec ext =
     struct_codec
       (\<lambda>x. ((dc_abi x, dc_program x), dc_entry_points_by_type x))
       (\<lambda>((a, b), c). deprecated_contract_class.make a b c)
       (pair_codec
         (compressed_codec ext
           (pair_codec (option_codec (vec_codec ext (contract_class_abi_entry_codec ext))) (program_codec ext)))
         (hash_map_codec ext deprecated_entry_point_type_codec (vec_codec ext (deprecated_entry_point_codec ext))))"

definition casm_contract_entry_point_codec :: "serde_ext \<Rightarrow> casm_contract_entry_point codec" where
  "casm_contract_entry_point_codec ext =
     struct_codec
       (\<lambda>x. (ce_selector x, ce_offset x, ce_builtins x))
       (\<lambda>(a, b, c). casm_contract_entry_point.make a b c)
       (pair_codec (biguint_codec ext)
        (pair_codec usize_codec
        (vec_codec ext (string_codec ext))))"

definition casm_contract_entry_points_codec :: "serde_ext \<Rightarrow> casm_contract_entry_points codec" where
  "casm_contract_entry_points_codec ext =
     struct_codec
       (\<lambda>x. (cp_external x, cp_l1_handler x, cp_constructor x))
       (\<lambda>(a, b, c). casm_contract_entry_points.make a b c)
       (pair_codec (vec_codec ext (casm_contract_entry_point_codec ext))
        (pair_codec (vec_codec ext (casm_contract_entry_point_codec ext))
        (vec_codec ext (casm_contract_entry_point_codec ext))))"

fun nested_serialize :: "serde_ext \<Rightarrow> nested_int_list \<Rightarrow> (serde_failure, u8 list) result"
  and nested_serialize_all :: "serde_ext \<Rightarrow> nested_int_list list \<Rightarrow> (serde_failure, u8 list) result" where
  "nested_serialize ext (Leaf n) = with_kind 0 (serialize_into usize_codec n)"
| "nested_serialize ext (Node ts) =
     with_kind 1 (res_bind (nested_serialize_all ext ts) (\<lambda>bs. Inr (ext_write_varint ext (length ts) @ bs)))"
| "nested_serialize_all ext [] = Inr []"
| "nested_serialize_all ext (t # ts) =
     res_bind (nested_serialize ext t) (\<lambda>bs. res_bind (nested_serialize_all ext ts) (\<lambda>bs'. Inr (bs @ bs')))"

fun nested_fits :: "nested_int_list \<Rightarrow> bool" where
  "nested_fits (Leaf n) \<longleftrightarrow> n < 2 ^ 64"
| "nested_fits (Node ts) \<longleftrightarrow> length ts < 2 ^ 64 \<and> (\<forall>t \<in> set ts. nested_fits t)"

text \<open>
  The reader calls itself on the bytes behind the kind. Every call consumes a byte, so a recursion as deep
  as the input is long is enough.
\<close>

primrec nested_deserialize :: "nat \<Rightarrow> serde_ext \<Rightarrow> u8 list \<Rightarrow> nested_int_list decoded" where
  "nested_deserialize 0 ext bytes = Malformed"
| "nested_deserialize (Suc fuel) ext bytes =
     read_kind bytes (\<lambda>kind rest.
       if kind = 0 then dec_map Leaf (deserialize_from usize_codec rest)
       else if kind = 1 then dec_map Node (dec_bind (read_varint ext rest) (\<lambda>n rest.
         deserialize_n \<lparr>serialize_into = nested_serialize ext, deserialize_from = nested_deserialize fuel ext,
           fits = nested_fits\<rparr> n rest))
       else Malformed)"

definition nested_int_list_codec :: "serde_ext \<Rightarrow> nested_int_list codec" where
  "nested_int_list_codec ext = \<lparr>serialize_into = nested_serialize ext,
     deserialize_from = (\<lambda>bytes. nested_deserialize (Suc (length bytes)) ext bytes), fits = nested_fits\<rparr>"

definition casm_contract_class_codec :: "serde_ext \<Rightarrow> casm_contract_class codec" where
  "casm_contract_class_codec ext =
     compressed_codec ext (struct_codec
       (\<lambda>x. (cm_prime x, cm_compiler_version x, cm_bytecode x, cm_bytecode_segment_lengths x, cm_hints x,
        cm_pythonic_hints x, cm_entry_points_by_type x))
       (\<lambda>(a, b, c, d, e, f, g). casm_contract_class.make a b c d e f g)
       (pair_codec (biguint_codec ext)
        (pair_codec (string_codec ext)
        (pair_codec (vec_codec ext (biguint_codec ext))
        (pair_codec (option_codec (nested_int_list_codec ext))
        (pair_codec (vec_codec ext (pair_codec usize_codec (vec_codec ext (hint_codec ext))))
        (pair_codec (option_codec (vec_codec ext (pair_codec usize_codec (vec_codec ext (string_codec ext)))))
        (casm_contract_entry_points_codec ext))))))))"

section \<open>Keys and values of the tables\<close>

definition marker_kind_codec :: "marker_kind codec" where
  "marker_kind_codec =
     enum_codec [MkHeader, MkBody, MkEvent, MkState, MkClass, MkCompiledClass, MkBaseLayerBlock]"

definition offset_kind_codec :: "offset_kind codec" where
  "offset_kind_codec =
     enum_codec [OkThinStateDiff, OkContractClass, OkCasm, OkDeprecatedContractClass, OkTransactionOutput, OkTransaction]"

definition version_codec :: "version codec" where
  "version_codec =
     struct_codec
       (\<lambda>x. (unat (ver_major x), unat (ver_minor x)))
       (\<lambda>(a, b). version.make (of_nat a) (of_nat b))
       (pair_codec u32_codec u32_codec)"

definition l1_data_availability_mode_codec :: "bool codec" where
  "l1_data_availability_mode_codec = enum_codec [False, True]"

definition gas_price_per_token_codec :: "(nat \<times> nat) codec" where
  "gas_price_per_token_codec = pair_codec u128_codec u128_codec"

definition storage_block_header_codec :: "serde_ext \<Rightarrow> storage_block_header codec" where
  "storage_block_header_codec ext =
     struct_codec
       (\<lambda>x. (sbh_block_hash x, sbh_parent_hash x, sbh_block_number x, sbh_l1_gas_price x, sbh_l1_data_gas_price x,
        sbh_state_root x, sbh_sequencer x, sbh_timestamp x, sbh_l1_da_mode x, sbh_state_diff_commitment x,
        sbh_transaction_commitment x, sbh_event_commitment x, sbh_receipt_commitment x, sbh_state_diff_length x,
        sbh_n_transactions x, sbh_n_events x))
       (\<lambda>(a, b, c, d, e, f, g, h, i, j, k, l, m, n, p, q). storage_block_header.make a b c d e f g h i j k l m n p q)
       (pair_codec (felt_codec ext)
        (pair_codec (felt_codec ext)
        (pair_codec block_number_codec
        (pair_codec gas_price_per_token_codec
        (pair_codec gas_price_per_token_codec
        (pair_codec (felt_codec ext)
        (pair_codec (patricia_key_codec ext)
        (pair_codec u64_codec
        (pair_codec l1_data_availability_mode_codec
        (pair_codec (option_codec (felt_codec ext))
        (pair_codec (option_codec (felt_codec ext))
        (pair_codec (option_codec (felt_codec ext))
        (pair_codec (option_codec (felt_codec ext))
        (pair_codec (option_codec usize_codec)
        (pair_codec usize_codec
        usize_codec)))))))))))))))"

definition transaction_metadata_codec :: "serde_ext \<Rightarrow> transaction_metadata codec" where
  "transaction_metadata_codec ext =
     struct_codec
       (\<lambda>x. (tm_tx_hash x, tm_tx_location x, tm_tx_output_location x))
       (\<lambda>(a, b, c). transaction_metadata.make a b c)
       (pair_codec (felt_codec ext) (pair_codec location_codec location_codec))"

definition indexed_deprecated_contract_class_codec :: "indexed_deprecated_contract_class codec" where
  "indexed_deprecated_contract_class_codec =
     struct_codec
       (\<lambda>x. (idc_block_number x, idc_location_in_file x))
       (\<lambda>(a, b). indexed_deprecated_contract_class.make a b)
       (pair_codec block_number_codec location_codec)"

definition thin_state_diff_codec :: "serde_ext \<Rightarrow> thin_state_diff codec" where
  "thin_state_diff_codec ext =
     compressed_codec ext (struct_codec
       (\<lambda>x. (tsd_deployed_contracts x, tsd_storage_diffs x, tsd_declared_classes x, tsd_deprecated_declared_classes x,
        tsd_nonces x, tsd_replaced_classes x))
       (\<lambda>(a, b, c, d, e, f). thin_state_diff.make a b c d e f)
       (pair_codec (index_map_codec ext (patricia_key_codec ext) (felt_codec ext))
        (pair_codec (index_map_codec ext (patricia_key_codec ext)
          (index_map_codec ext (patricia_key_codec ext) (felt_codec ext)))
        (pair_codec (index_map_codec ext (felt_codec ext) (felt_codec ext))
        (pair_codec (felts_codec ext)
        (pair_codec (index_map_codec ext (patricia_key_codec ext) (felt_codec ext))
        (index_map_codec ext (patricia_key_codec ext) (felt_codec ext))))))))"

definition transaction_index_codec :: "tx_index codec" where
  "transaction_index_codec = pair_codec block_number_codec transaction_offset_codec"

definition event_index_codec :: "(tx_index \<times> nat) codec" where
  "event_index_codec = pair_codec transaction_index_codec usize_codec"

text \<open>The keys of the nonces, of the contract storage and of the events.\<close>

definition address_block_codec :: "serde_ext \<Rightarrow> (contract_address \<times> block_number) codec" where
  "address_block_codec ext = pair_codec (patricia_key_codec ext) block_number_codec"

definition storage_entry_codec :: "serde_ext \<Rightarrow> ((contract_address \<times> storage_key) \<times> block_number) codec" where
  "storage_entry_codec ext =
     pair_codec (pair_codec (patricia_key_codec ext) (patricia_key_codec ext)) block_number_codec"

definition address_transaction_codec :: "serde_ext \<Rightarrow> (contract_address \<times> tx_index) codec" where
  "address_transaction_codec ext = pair_codec (patricia_key_codec ext) transaction_index_codec"

section \<open>Every type can be read back\<close>

lemmas kind_defs = with_kind_def read_kind_def dec_map_def

lemma felts_codec_ok [codec_intros]: "serde_ext_ok ext \<Longrightarrow> codec_ok (felts_codec ext)"
  unfolding felts_codec_def by (rule codec_intros | assumption)+

lemma data_availability_mode_codec_ok [codec_intros]: "codec_ok data_availability_mode_codec"
  by (simp add: data_availability_mode_codec_def enum_codec_ok)

lemma resource_codec_ok [codec_intros]: "codec_ok resource_codec"
  by (simp add: resource_codec_def enum_codec_ok)

lemma resource_bounds_codec_ok [codec_intros]: "codec_ok resource_bounds_codec"
  unfolding resource_bounds_codec_def
  by (rule codec_intros | simp add: resource_bounds.make_def)+

lemma resource_bounds_mapping_codec_ok [codec_intros]:
  "serde_ext_ok ext \<Longrightarrow> codec_ok (resource_bounds_mapping_codec ext)"
  unfolding resource_bounds_mapping_codec_def
  by (rule codec_intros | assumption)+

lemma declare_transaction_v0v1_codec_ok [codec_intros]:
  "serde_ext_ok ext \<Longrightarrow> codec_ok (declare_transaction_v0v1_codec ext)"
  unfolding declare_transaction_v0v1_codec_def
  by (rule codec_intros | assumption | simp add: declare_transaction_v0v1.make_def)+

lemma declare_transaction_v2_codec_ok [codec_intros]:
  "serde_ext_ok ext \<Longrightarrow> codec_ok (declare_transaction_v2_codec ext)"
  unfolding declare_transaction_v2_codec_def
  by (rule codec_intros | assumption | simp add: declare_transaction_v2.make_def)+

lemma declare_transaction_v3_codec_ok [codec_intros]:
  "serde_ext_ok ext \<Longrightarrow> codec_ok (declare_transaction_v3_codec ext)"
  unfolding declare_transaction_v3_codec_def
  by (rule codec_intros | assumption | simp add: declare_transaction_v3.make_def)+

lemma declare_transaction_codec_ok [codec_intros]:
  assumes "serde_ext_ok ext"
  shows "codec_ok (declare_transaction_codec ext)"
proof (rule codec_okI)
  fix x assume "fits (declare_transaction_codec ext) x"
  then show "\<exists>bs. serialize_into (declare_transaction_codec ext) x = Inr bs \<and>
      (\<forall>rest. deserialize_from (declare_transaction_codec ext) (bs @ rest) = Decoded x rest)"
    using declare_transaction_v0v1_codec_ok [OF assms]
      declare_transaction_v2_codec_ok [OF assms]
      declare_transaction_v3_codec_ok [OF assms]
    by (cases x) (auto simp: declare_transaction_codec_def kind_defs elim!: codec_okE)
qed

lemma deploy_account_transaction_v1_codec_ok [codec_intros]:
  "serde_ext_ok ext \<Longrightarrow> codec_ok (deploy_account_transaction_v1_codec ext)"
  unfolding deploy_account_transaction_v1_codec_def
  by (rule codec_intros | assumption | simp add: deploy_account_transaction_v1.make_def)+

lemma deploy_account_transaction_v3_codec_ok [codec_intros]:
  "serde_ext_ok ext \<Longrightarrow> codec_ok (deploy_account_transaction_v3_codec ext)"
  unfolding deploy_account_transaction_v3_codec_def
  by (rule codec_intros | assumption | simp add: deploy_account_transaction_v3.make_def)+

lemma deploy_account_transaction_codec_ok [codec_intros]:
  assumes "serde_ext_ok ext"
  shows "codec_ok (deploy_account_transaction_codec ext)"
proof (rule codec_okI)
  fix x assume "fits (deploy_account_transaction_codec ext) x"
  then show "\<exists>bs. serialize_into (deploy_account_transaction_codec ext) x = Inr bs \<and>
      (\<forall>rest. deserialize_from (deploy_account_transaction_codec ext) (bs @ rest) = Decoded x rest)"
    using deploy_account_transaction_v1_codec_ok [OF assms]
      deploy_account_transaction_v3_codec_ok [OF assms]
    by (cases x) (auto simp: deploy_account_transaction_codec_def kind_defs elim!: codec_okE)
qed

lemma deploy_transaction_codec_ok [codec_intros]:
  "serde_ext_ok ext \<Longrightarrow> codec_ok (deploy_transaction_codec ext)"
  unfolding deploy_transaction_codec_def
  by (rule codec_intros | assumption | simp add: deploy_transaction.make_def)+

lemma invoke_transaction_v0_codec_ok [codec_intros]:
  "serde_ext_ok ext \<Longrightarrow> codec_ok (invoke_transaction_v0_codec ext)"
  unfolding invoke_transaction_v0_codec_def
  by (rule codec_intros | assumption | simp add: invoke_transaction_v0.make_def)+

lemma invoke_transaction_v1_codec_ok [codec_intros]:
  "serde_ext_ok ext \<Longrightarrow> codec_ok (invoke_transaction_v1_codec ext)"
  unfolding invoke_transaction_v1_codec_def
  by (rule codec_intros | assumption | simp add: invoke_transaction_v1.make_def)+

lemma invoke_transaction_v3_codec_ok [codec_intros]:
  "serde_ext_ok ext \<Longrightarrow> codec_ok (invoke_transaction_v3_codec ext)"
  unfolding invoke_transaction_v3_codec_def
  by (rule codec_intros | assumption | simp add: invoke_transaction_v3.make_def)+

lemma invoke_transaction_codec_ok [codec_intros]:
  assumes "serde_ext_ok ext"
  shows "codec_ok (invoke_transaction_codec ext)"
proof (rule codec_okI)
  fix x assume "fits (invoke_transaction_codec ext) x"
  then show "\<exists>bs. serialize_into (invoke_transaction_codec ext) x = Inr bs \<and>
      (\<forall>rest. deserialize_from (invoke_transaction_codec ext) (bs @ rest) = Decoded x rest)"
    using invoke_transaction_v0_codec_ok [OF assms]
      invoke_transaction_v1_codec_ok [OF assms]
      invoke_transaction_v3_codec_ok [OF assms]
    by (cases x) (auto simp: invoke_transaction_codec_def kind_defs elim!: codec_okE)
qed

lemma l1_handler_transaction_codec_ok [codec_intros]:
  "serde_ext_ok ext \<Longrightarrow> codec_ok (l1_handler_transaction_codec ext)"
  unfolding l1_handler_transaction_codec_def
  by (rule codec_intros | assumption | simp add: l1_handler_transaction.make_def)+

lemma starknet_transaction_codec_ok [codec_intros]:
  assumes "serde_ext_ok ext"
  shows "codec_ok (starknet_transaction_codec ext)"
proof (rule codec_okI)
  fix x assume "fits (starknet_transaction_codec ext) x"
  then show "\<exists>bs. serialize_into (starknet_transaction_codec ext) x = Inr bs \<and>
      (\<forall>rest. deserialize_from (starknet_transaction_codec ext) (bs @ rest) = Decoded x rest)"
    using declare_transaction_codec_ok [OF assms]
      deploy_transaction_codec_ok [OF assms]
      deploy_account_transaction_codec_ok [OF assms]
      invoke_transaction_codec_ok [OF assms]
      l1_handler_transaction_codec_ok [OF assms]
    by (cases x) (auto simp: starknet_transaction_codec_def kind_defs elim!: codec_okE)
qed

lemma message_to_l1_codec_ok [codec_intros]:
  "serde_ext_ok ext \<Longrightarrow> codec_ok (message_to_l1_codec ext)"
  unfolding message_to_l1_codec_def
  by (rule codec_intros | assumption | simp add: message_to_l1.make_def)+

lemma tx_event_content_codec_ok [codec_intros]:
  "serde_ext_ok ext \<Longrightarrow> codec_ok (tx_event_content_codec ext)"
  unfolding tx_event_content_codec_def
  by (rule codec_intros | assumption | simp add: tx_event_content.make_def)+

lemma tx_event_codec_ok [codec_intros]:
  "serde_ext_ok ext \<Longrightarrow> codec_ok (tx_event_codec ext)"
  unfolding tx_event_codec_def
  by (rule codec_intros | assumption | simp add: tx_event.make_def)+

lemma gas_vector_codec_ok [codec_intros]: "codec_ok gas_vector_codec"
  unfolding gas_vector_codec_def
  by (rule codec_intros | simp add: gas_vector.make_def)+

lemma builtin_codec_ok [codec_intros]: "codec_ok builtin_codec"
  by (simp add: builtin_codec_def enum_codec_ok)

lemma execution_resources_codec_ok [codec_intros]:
  "serde_ext_ok ext \<Longrightarrow> codec_ok (execution_resources_codec ext)"
  unfolding execution_resources_codec_def
  by (rule codec_intros | assumption | simp add: execution_resources.make_def)+

lemma reverted_execution_status_codec_ok [codec_intros]:
  "serde_ext_ok ext \<Longrightarrow> codec_ok (reverted_execution_status_codec ext)"
  unfolding reverted_execution_status_codec_def
  by (rule codec_intros | assumption | simp add: reverted_execution_status.make_def)+

lemma execution_status_codec_ok [codec_intros]:
  assumes "serde_ext_ok ext"
  shows "codec_ok (execution_status_codec ext)"
proof (rule codec_okI)
  fix x assume "fits (execution_status_codec ext) x"
  then show "\<exists>bs. serialize_into (execution_status_codec ext) x = Inr bs \<and>
      (\<forall>rest. deserialize_from (execution_status_codec ext) (bs @ rest) = Decoded x rest)"
    using reverted_execution_status_codec_ok [OF assms]
    by (cases x) (auto simp: execution_status_codec_def kind_defs elim!: codec_okE)
qed

lemma declare_transaction_output_codec_ok [codec_intros]:
  "serde_ext_ok ext \<Longrightarrow> codec_ok (declare_transaction_output_codec ext)"
  unfolding declare_transaction_output_codec_def
  by (rule codec_intros | assumption | simp add: declare_transaction_output.make_def)+

lemma deploy_account_transaction_output_codec_ok [codec_intros]:
  "serde_ext_ok ext \<Longrightarrow> codec_ok (deploy_account_transaction_output_codec ext)"
  unfolding deploy_account_transaction_output_codec_def
  by (rule codec_intros | assumption | simp add: deploy_account_transaction_output.make_def)+

lemma deploy_transaction_output_codec_ok [codec_intros]:
  "serde_ext_ok ext \<Longrightarrow> codec_ok (deploy_transaction_output_codec ext)"
  unfolding deploy_transaction_output_codec_def
  by (rule codec_intros | assumption | simp add: deploy_transaction_output.make_def)+

lemma invoke_transaction_output_codec_ok [codec_intros]:
  "serde_ext_ok ext \<Longrightarrow> codec_ok (invoke_transaction_output_codec ext)"
  unfolding invoke_transaction_output_codec_def
  by (rule codec_intros | assumption | simp add: invoke_transaction_output.make_def)+

lemma l1_handler_transaction_output_codec_ok [codec_intros]:
  "serde_ext_ok ext \<Longrightarrow> codec_ok (l1_handler_transaction_output_codec ext)"
  unfolding l1_handler_transaction_output_codec_def
  by (rule codec_intros | assumption | simp add: l1_handler_transaction_output.make_def)+

lemma starknet_transaction_output_codec_ok [codec_intros]:
  assumes "serde_ext_ok ext"
  shows "codec_ok (starknet_transaction_output_codec ext)"
proof (rule codec_okI)
  fix x assume "fits (starknet_transaction_output_codec ext) x"
  then show "\<exists>bs. serialize_into (starknet_transaction_output_codec ext) x = Inr bs \<and>
      (\<forall>rest. deserialize_from (starknet_transaction_output_codec ext) (bs @ rest) = Decoded x rest)"
    using declare_transaction_output_codec_ok [OF assms]
      deploy_transaction_output_codec_ok [OF assms]
      deploy_account_transaction_output_codec_ok [OF assms]
      invoke_transaction_output_codec_ok [OF assms]
      l1_handler_transaction_output_codec_ok [OF assms]
    by (cases x) (auto simp: starknet_transaction_output_codec_def kind_defs elim!: codec_okE)
qed

lemma entry_point_type_codec_ok [codec_intros]: "codec_ok entry_point_type_codec"
  by (simp add: entry_point_type_codec_def enum_codec_ok)

lemma entry_point_codec_ok [codec_intros]:
  "serde_ext_ok ext \<Longrightarrow> codec_ok (entry_point_codec ext)"
  unfolding entry_point_codec_def
  by (rule codec_intros | assumption | simp add: entry_point.make_def)+

lemma contract_class_codec_ok [codec_intros]:
  "serde_ext_ok ext \<Longrightarrow> codec_ok (contract_class_codec ext)"
  unfolding contract_class_codec_def
  by (rule codec_intros | assumption | simp add: contract_class.make_def)+

lemma deprecated_entry_point_type_codec_ok [codec_intros]: "codec_ok deprecated_entry_point_type_codec"
  by (simp add: deprecated_entry_point_type_codec_def enum_codec_ok)

lemma deprecated_entry_point_codec_ok [codec_intros]:
  "serde_ext_ok ext \<Longrightarrow> codec_ok (deprecated_entry_point_codec ext)"
  unfolding deprecated_entry_point_codec_def
  by (rule codec_intros | assumption | simp add: deprecated_entry_point.make_def)+

lemma typed_parameter_codec_ok [codec_intros]:
  "serde_ext_ok ext \<Longrightarrow> codec_ok (typed_parameter_codec ext)"
  unfolding typed_parameter_codec_def
  by (rule codec_intros | assumption | simp add: typed_parameter.make_def)+

lemma event_type_codec_ok [codec_intros]: "codec_ok event_type_codec"
  by (simp add: event_type_codec_def enum_codec_ok)

lemma event_abi_entry_codec_ok [codec_intros]:
  "serde_ext_ok ext \<Longrightarrow> codec_ok (event_abi_entry_codec ext)"
  unfolding event_abi_entry_codec_def
  by (rule codec_intros | assumption | simp add: event_abi_entry.make_def)+

lemma function_state_mutability_codec_ok [codec_intros]: "codec_ok function_state_mutability_codec"
  by (simp add: function_state_mutability_codec_def enum_codec_ok)

lemma function_abi_entry_codec_ok [codec_intros]:
  "serde_ext_ok ext \<Longrightarrow> codec_ok (function_abi_entry_codec ext)"
  unfolding function_abi_entry_codec_def
  by (rule codec_intros | assumption | simp add: function_abi_entry.make_def)+

lemma struct_member_codec_ok [codec_intros]:
  "serde_ext_ok ext \<Longrightarrow> codec_ok (struct_member_codec ext)"
  unfolding struct_member_codec_def
  by (rule codec_intros | assumption | simp add: struct_member.make_def)+

lemma struct_type_codec_ok [codec_intros]: "codec_ok struct_type_codec"
  by (simp add: struct_type_codec_def enum_codec_ok)

lemma struct_abi_entry_codec_ok [codec_intros]:
  "serde_ext_ok ext \<Longrightarrow> codec_ok (struct_abi_entry_codec ext)"
  unfolding struct_abi_entry_codec_def
  by (rule codec_intros | assumption | simp add: struct_abi_entry.make_def)+

lemma contract_class_abi_entry_codec_ok [codec_intros]:
  assumes "serde_ext_ok ext"
  shows "codec_ok (contract_class_abi_entry_codec ext)"
proof (rule codec_okI)
  fix x assume "fits (contract_class_abi_entry_codec ext) x"
  then show "\<exists>bs. serialize_into (contract_class_abi_entry_codec ext) x = Inr bs \<and>
      (\<forall>rest. deserialize_from (contract_class_abi_entry_codec ext) (bs @ rest) = Decoded x rest)"
    using event_abi_entry_codec_ok [OF assms]
      function_abi_entry_codec_ok [OF assms]
      struct_abi_entry_codec_ok [OF assms]
    by (cases x) (auto simp: contract_class_abi_entry_codec_def kind_defs elim!: codec_okE)
qed

lemma program_codec_ok [codec_intros]:
  "serde_ext_ok ext \<Longrightarrow> codec_ok (program_codec ext)"
  unfolding program_codec_def
  by (rule codec_intros | assumption | simp add: program.make_def)+

lemma deprecated_contract_class_codec_ok [codec_intros]:
  "serde_ext_ok ext \<Longrightarrow> codec_ok (deprecated_contract_class_codec ext)"
  unfolding deprecated_contract_class_codec_def
  by (rule codec_intros | assumption | simp add: deprecated_contract_class.make_def)+

lemma casm_contract_entry_point_codec_ok [codec_intros]:
  "serde_ext_ok ext \<Longrightarrow> codec_ok (casm_contract_entry_point_codec ext)"
  unfolding casm_contract_entry_point_codec_def
  by (rule codec_intros | assumption | simp add: casm_contract_entry_point.make_def)+

lemma casm_contract_entry_points_codec_ok [codec_intros]:
  "serde_ext_ok ext \<Longrightarrow> codec_ok (casm_contract_entry_points_codec ext)"
  unfolding casm_contract_entry_points_codec_def
  by (rule codec_intros | assumption | simp add: casm_contract_entry_points.make_def)+

text \<open>How deep a nested list is bounds the recursion of its reader, and its length in bytes bounds how deep it is.\<close>

fun nested_depth :: "nested_int_list \<Rightarrow> nat"
  and nested_depth_all :: "nested_int_list list \<Rightarrow> nat" where
  "nested_depth (Leaf n) = 1"
| "nested_depth (Node ts) = Suc (nested_depth_all ts)"
| "nested_depth_all [] = 0"
| "nested_depth_all (t # ts) = max (nested_depth t) (nested_depth_all ts)"

definition nested_codec_at :: "nat \<Rightarrow> serde_ext \<Rightarrow> nested_int_list codec" where
  "nested_codec_at fuel ext =
     \<lparr>serialize_into = nested_serialize ext, deserialize_from = nested_deserialize fuel ext, fits = nested_fits\<rparr>"

lemma nested_roundtrip:
  assumes "serde_ext_ok ext"
  shows "nested_fits t \<Longrightarrow> \<exists>bs. nested_serialize ext t = Inr bs \<and> nested_depth t \<le> length bs \<and>
      (\<forall>fuel rest. nested_depth t \<le> fuel \<longrightarrow> nested_deserialize fuel ext (bs @ rest) = Decoded t rest)"
    and "\<forall>t \<in> set ts. nested_fits t \<Longrightarrow> \<exists>bs. nested_serialize_all ext ts = Inr bs \<and> nested_depth_all ts \<le> length bs \<and>
      (\<forall>fuel rest. nested_depth_all ts \<le> fuel \<longrightarrow>
        deserialize_n (nested_codec_at fuel ext) (length ts) (bs @ rest) = Decoded ts rest)"
proof (induction t and ts rule: nested_depth_nested_depth_all.induct)
  case (1 n)
  then have "fits usize_codec n" by (simp add: usize_codec_def u64_codec_def binary_codec_def)
  then obtain bs where bs: "serialize_into usize_codec n = Inr bs"
    "\<And>rest. deserialize_from usize_codec (bs @ rest) = Decoded n rest"
    using codec_okE [OF uint_codecs_ok(4)] by blast
  have "nested_deserialize fuel ext ((0 # bs) @ rest) = Decoded (Leaf n) rest" if "1 \<le> fuel" for fuel rest
    using that bs(2) by (cases fuel) (simp_all add: read_kind_def dec_map_def)
  then show ?case using bs(1) by (simp add: with_kind_def)
next
  case (2 ts)
  then obtain bs where bs: "nested_serialize_all ext ts = Inr bs" "nested_depth_all ts \<le> length bs"
      "\<And>fuel rest. nested_depth_all ts \<le> fuel \<Longrightarrow>
        deserialize_n (nested_codec_at fuel ext) (length ts) (bs @ rest) = Decoded ts rest" by auto
  have len: "length ts < 2 ^ 64" using 2(2) by simp
  have "nested_deserialize fuel ext ((1 # ext_write_varint ext (length ts) @ bs) @ rest) = Decoded (Node ts) rest"
    if depth: "Suc (nested_depth_all ts) \<le> fuel" for fuel rest
  proof -
    obtain k where k: "fuel = Suc k" "nested_depth_all ts \<le> k" using depth by (cases fuel) auto
    show ?thesis using bs(3) [OF k(2), of rest]
      by (simp add: k(1) read_kind_def dec_map_def read_varint_def serde_ext_okD(2) [OF assms len] nested_codec_at_def)
  qed
  then show ?case using bs(1,2) by (simp add: with_kind_def)
next
  case (4 t ts)
  then obtain bs where bs: "nested_serialize ext t = Inr bs" "nested_depth t \<le> length bs"
      "\<And>fuel rest. nested_depth t \<le> fuel \<Longrightarrow> nested_deserialize fuel ext (bs @ rest) = Decoded t rest" by auto
  from 4 obtain cs where cs: "nested_serialize_all ext ts = Inr cs" "nested_depth_all ts \<le> length cs"
      "\<And>fuel rest. nested_depth_all ts \<le> fuel \<Longrightarrow>
        deserialize_n (nested_codec_at fuel ext) (length ts) (cs @ rest) = Decoded ts rest" by auto
  have "deserialize_from (nested_codec_at fuel ext) = nested_deserialize fuel ext" for fuel
    by (simp add: nested_codec_at_def)
  then show ?case using bs cs by auto
qed simp_all

lemma nested_int_list_codec_ok [codec_intros]:
  assumes "serde_ext_ok ext"
  shows "codec_ok (nested_int_list_codec ext)"
proof (rule codec_okI)
  fix t assume "fits (nested_int_list_codec ext) t"
  then have "nested_fits t" by (simp add: nested_int_list_codec_def)
  from nested_roundtrip(1) [OF assms this] obtain bs where bs: "nested_serialize ext t = Inr bs" "nested_depth t \<le> length bs"
    "\<And>fuel rest. nested_depth t \<le> fuel \<Longrightarrow> nested_deserialize fuel ext (bs @ rest) = Decoded t rest" by blast
  have "nested_deserialize (Suc (length (bs @ rest))) ext (bs @ rest) = Decoded t rest" for rest
    by (rule bs(3)) (use bs(2) in simp)
  then show "\<exists>bs. serialize_into (nested_int_list_codec ext) t = Inr bs \<and>
      (\<forall>rest. deserialize_from (nested_int_list_codec ext) (bs @ rest) = Decoded t rest)"
    using bs(1) by (simp add: nested_int_list_codec_def del: nested_deserialize.simps)
qed

lemma casm_contract_class_codec_ok [codec_intros]:
  "serde_ext_ok ext \<Longrightarrow> codec_ok (casm_contract_class_codec ext)"
  unfolding casm_contract_class_codec_def
  by (rule codec_intros | assumption | simp add: casm_contract_class.make_def)+

lemma table_codecs_ok [codec_intros]:
  "codec_ok marker_kind_codec" "codec_ok offset_kind_codec" "codec_ok l1_data_availability_mode_codec"
  "codec_ok gas_price_per_token_codec" "codec_ok version_codec" "codec_ok indexed_deprecated_contract_class_codec"
  "codec_ok transaction_index_codec" "codec_ok event_index_codec"
  unfolding marker_kind_codec_def offset_kind_codec_def l1_data_availability_mode_codec_def event_index_codec_def
    gas_price_per_token_codec_def version_codec_def indexed_deprecated_contract_class_codec_def transaction_index_codec_def
  by (rule codec_intros | simp add: version.make_def indexed_deprecated_contract_class.make_def)+

lemma storage_block_header_codec_ok [codec_intros]:
  "serde_ext_ok ext \<Longrightarrow> codec_ok (storage_block_header_codec ext)"
  unfolding storage_block_header_codec_def
  by (rule codec_intros | assumption | simp add: storage_block_header.make_def)+

lemma transaction_metadata_codec_ok [codec_intros]:
  "serde_ext_ok ext \<Longrightarrow> codec_ok (transaction_metadata_codec ext)"
  unfolding transaction_metadata_codec_def
  by (rule codec_intros | assumption | simp add: transaction_metadata.make_def)+

lemma thin_state_diff_codec_ok [codec_intros]:
  "serde_ext_ok ext \<Longrightarrow> codec_ok (thin_state_diff_codec ext)"
  unfolding thin_state_diff_codec_def
  by (rule codec_intros | assumption | simp add: thin_state_diff.make_def)+

lemma key_codecs_ok [codec_intros]:
  assumes "serde_ext_ok ext"
  shows "codec_ok (address_block_codec ext)" "codec_ok (storage_entry_codec ext)" "codec_ok (address_transaction_codec ext)"
  unfolding address_block_codec_def storage_entry_codec_def address_transaction_codec_def
  by (rule codec_intros assms)+

end
