(* ===== verification/Storage_Serde_Props.thy ===== *)
theory Storage_Serde_Props
  imports Storage_Serde_Types Storage_State
begin

text \<open>
  What the serialization of the storage guarantees: every stored value and every key can be read back, the
  byte order of the keys is the order the modules rely on, what is read is well formed whatever the bytes,
  and what happens outside the limits of the encodings.
\<close>

section \<open>Reading back\<close>

text \<open>A value in a table or a file with the version wrapper, and a key.\<close>

definition stored_back :: "'a codec \<Rightarrow> 'a \<Rightarrow> bool" where
  "stored_back c x \<longleftrightarrow>
     (\<exists>bs. version_zero_serialize c x = Inr bs \<and> version_zero_deserialize c bs = Decoded x [] \<and> bs \<noteq> [])"

definition key_back :: "'a codec \<Rightarrow> 'a \<Rightarrow> bool" where
  "key_back c x \<longleftrightarrow> (\<exists>bs. ex_serialize c x = Inr bs \<and> ex_deserialize c bs = Decoded x [])"

lemma stored_backI: "codec_ok c \<Longrightarrow> fits c x \<Longrightarrow> stored_back c x"
  using wrappers_roundtrip(2) [of c x] unfolding stored_back_def
  by (auto simp: version_zero_serialize_def res_bind_eq_Inr)

lemma key_backI: "codec_ok c \<Longrightarrow> fits c x \<Longrightarrow> key_back c x"
  using wrappers_roundtrip(1) [of c x] unfolding key_back_def by blast


definition demo_ext :: serde_ext where
  "demo_ext = \<lparr>
     ext_felt_serialize = low_bytes 32,
     ext_felt_deserialize = (\<lambda>bs. if length bs < 32 then None else Some (from_be_bytes (take 32 bs), drop 32 bs)),
     ext_is_felt = (\<lambda>n. n < 256 ^ 32),
     ext_is_patricia_key = (\<lambda>n. n < 2 ^ 251),
     ext_write_varint = low_bytes 8,
     ext_read_varint = (\<lambda>bs. if length bs < 8 then None else Some (from_be_bytes (take 8 bs), drop 8 bs)),
     ext_compress = Some,
     ext_decompress = (\<lambda>z m. if length z \<le> m then Some z else None),
     ext_json_to_vec = (\<lambda>j. Some (replicate j 0)),
     ext_json_from_slice = (\<lambda>bs. Some (length bs)),
     ext_hint_encode = (\<lambda>h. replicate h 0),
     ext_hint_decode = (\<lambda>bs. Some (length bs)),
     ext_biguint_to_bytes_be = (\<lambda>n. replicate n 0),
     ext_biguint_from_bytes_be = length\<rparr>"

lemma demo_ext_ok: "serde_ext_ok demo_ext"
  by (simp add: serde_ext_ok_def demo_ext_def from_be_bytes_low_bytes)

definition demo_invoke :: starknet_transaction where
  "demo_invoke = TxInvoke (InvokeV1 \<lparr>i1_max_fee = 5, i1_signature = [1, 2], i1_nonce = 3, i1_sender_address = 4,
     i1_calldata = [6, 7, 8]\<rparr>)"


section \<open>The order of the keys\<close>

definition key_bytes :: "'a codec \<Rightarrow> 'a \<Rightarrow> u8 list" where
  "key_bytes c x = (case serialize_into c x of Inr bs \<Rightarrow> bs | Inl _ \<Rightarrow> [])"

definition key_less :: "'a codec \<Rightarrow> 'a \<Rightarrow> 'a \<Rightarrow> bool" where
  "key_less c x y \<longleftrightarrow> ord_class.lexordp (key_bytes c x) (key_bytes c y)"

lemma key_bytes_prefix_free:
  assumes "codec_ok c" and "fits c x" and "fits c y"
  shows "\<not> strict_prefix (key_bytes c x) (key_bytes c y)"
proof
  assume "strict_prefix (key_bytes c x) (key_bytes c y)"
  then obtain z zs where zs: "key_bytes c y = key_bytes c x @ z # zs" by (rule strict_prefixE')
  obtain bs cs where b: "serialize_into c x = Inr bs" and c: "serialize_into c y = Inr cs"
    using codec_okE [OF assms(1,2)] codec_okE [OF assms(1,3)] by metis
  from codec_prefix_free [OF assms(1-3) b] c zs show False by (simp add: b c key_bytes_def)
qed

lemma key_bytes_inject:
  assumes "codec_ok c" and "fits c x" and "fits c y"
  shows "key_bytes c x = key_bytes c y \<longleftrightarrow> x = y"
proof
  assume eq: "key_bytes c x = key_bytes c y"
  obtain bs cs where b: "serialize_into c x = Inr bs" and c: "serialize_into c y = Inr cs"
    using codec_okE [OF assms(1,2)] codec_okE [OF assms(1,3)] by metis
  from codec_prefix_free [OF assms(1-3) b, of "[]"] c eq show "x = y" by (simp add: b c key_bytes_def)
qed simp

lemma key_less_pair:
  assumes "codec_ok c" "codec_ok d" and "fits c x" "fits c x'" and "fits d y" "fits d y'"
  shows "key_less (pair_codec c d) (x, y) (x', y') \<longleftrightarrow> key_less c x x' \<or> x = x' \<and> key_less d y y'"
proof -
  have "key_bytes (pair_codec c d) (a, b) = key_bytes c a @ key_bytes d b" if fa: "fits c a" and fb: "fits d b" for a b
  proof -
    obtain bs cs where "serialize_into c a = Inr bs" "serialize_into d b = Inr cs"
      using codec_okE [OF assms(1) fa] codec_okE [OF assms(2) fb] by metis
    then show ?thesis by (simp add: key_bytes_def pair_codec_def)
  qed
  then show ?thesis
    using lexordp_append_prefix_free [OF key_bytes_prefix_free [OF assms(1,3,4)] key_bytes_prefix_free [OF assms(1,4,3)]]
      key_bytes_inject [OF assms(1,3,4)] assms by (simp add: key_less_def)
qed

lemma key_less_numbers:
  "b < 2 ^ 32 \<Longrightarrow> b' < 2 ^ 32 \<Longrightarrow> key_less block_number_codec b b' \<longleftrightarrow> b < b'"
  "i < 2 ^ 24 \<Longrightarrow> i' < 2 ^ 24 \<Longrightarrow> key_less transaction_offset_codec i i' \<longleftrightarrow> i < i'"
  using lexordp_low_bytes [of b 4 b'] lexordp_low_bytes [of i 3 i']
  by (simp_all add: key_less_def key_bytes_def block_number_codec_def u32_codec_def binary_codec_def
      transaction_offset_codec_def drop_5_to_be_bytes)

lemma fits_numbers [simp]:
  "fits block_number_codec b \<longleftrightarrow> b < 2 ^ 32" "fits transaction_offset_codec i \<longleftrightarrow> i < 2 ^ 24"
  by (simp_all add: block_number_codec_def transaction_offset_codec_def)

lemma fits_pair [simp]: "fits (pair_codec c d) (x, y) \<longleftrightarrow> fits c x \<and> fits d y"
  by (simp add: pair_codec_def)

text \<open>
  \<^bold>\<open>C20.\<close> The database compares keys byte by byte. On block numbers and on transaction positions that order
  is the numeric one. On the keys of nonces, of contract storage and of events it first compares the address
  (and the storage key), and for the same address the number: all entries of an address stand together, in
  the order of the blocks, which is what the searches for the last entry before a block rely on.
\<close>

theorem key_order:
  assumes "serde_ext_ok ext" and "b < 2 ^ 32" "b' < 2 ^ 32" "i < 2 ^ 24" "i' < 2 ^ 24"
    and "fits (patricia_key_codec ext) a" "fits (patricia_key_codec ext) a'"
    and "fits (patricia_key_codec ext) k" "fits (patricia_key_codec ext) k'"
  shows "(key_less block_number_codec b b' \<longleftrightarrow> b < b') \<and>
    (key_less transaction_index_codec (b, i) (b', i') \<longleftrightarrow> b < b' \<or> b = b' \<and> i < i') \<and>
    (key_less (address_block_codec ext) (a, b) (a', b') \<longleftrightarrow>
       key_less (patricia_key_codec ext) a a' \<or> a = a' \<and> b < b') \<and>
    (key_less (storage_entry_codec ext) ((a, k), b) ((a', k'), b') \<longleftrightarrow>
       key_less (patricia_key_codec ext) a a' \<or> a = a' \<and> key_less (patricia_key_codec ext) k k' \<or>
       (a, k) = (a', k') \<and> b < b') \<and>
    (key_less (address_transaction_codec ext) (a, (b, i)) (a', (b', i')) \<longleftrightarrow>
       key_less (patricia_key_codec ext) a a' \<or> a = a' \<and> (b < b' \<or> b = b' \<and> i < i'))"
proof -
  note ok = block_number_codec_ok transaction_offset_codec_ok patricia_key_codec_ok [OF assms(1)]
    pair_codec_ok [OF block_number_codec_ok transaction_offset_codec_ok]
    pair_codec_ok [OF patricia_key_codec_ok [OF assms(1)] patricia_key_codec_ok [OF assms(1)]]
  show ?thesis
    unfolding transaction_index_codec_def address_block_codec_def storage_entry_codec_def address_transaction_codec_def
    using assms by (auto simp: key_less_pair ok key_less_numbers)
qed

theorem key_order_witness:
  "key_less (address_block_codec demo_ext) (9, 255) (9, 256) \<and>
   \<not> key_less (address_block_codec demo_ext) (9, 256) (9, 255) \<and> key_less transaction_index_codec (1, 2) (2, 1)"
proof -
  have "fits (patricia_key_codec demo_ext) 9" by (simp add: patricia_key_codec_def demo_ext_def)
  note key_order [OF demo_ext_ok _ _ _ _ this this this this, of 255 256 2 1]
    key_order [OF demo_ext_ok _ _ _ _ this this this this, of 256 255 2 1]
    key_order [OF demo_ext_ok _ _ _ _ this this this this, of 1 2 2 1]
  moreover have "\<not> key_less (patricia_key_codec demo_ext) 9 9"
    by (simp add: key_less_def lexordp_irreflexive')
  ultimately show ?thesis by simp
qed

section \<open>What is read is well formed\<close>

lemma dec_bind_eq_Decoded:
  "dec_bind d f = Decoded x rest \<longleftrightarrow> (\<exists>y r. d = Decoded y r \<and> f y r = Decoded x rest)"
  by (cases d) auto

lemma deserialize_entries_wf:
  assumes "deserialize_entries (\<lambda>key val res. res @ [(key, val)]) k v n res bytes = Decoded m rest"
    and "distinct (map fst res)"
    and "\<forall>(key, val) \<in> set res. P key \<and> Q val"
    and "\<And>bs x r. deserialize_from k bs = Decoded x r \<Longrightarrow> P x" and "\<And>bs x r. deserialize_from v bs = Decoded x r \<Longrightarrow> Q x"
  shows "distinct (map fst m) \<and> (\<forall>(key, val) \<in> set m. P key \<and> Q val)"
  using assms(1-3)
proof (induction n arbitrary: res bytes)
  case (Suc n)
  from Suc.prems(1) obtain key x r1 r2 where k: "deserialize_from k bytes = Decoded key r1"
    and v: "deserialize_from v r1 = Decoded x r2" and new: "key \<notin> fst ` set res"
    and step: "deserialize_entries (\<lambda>key val res. res @ [(key, val)]) k v n (res @ [(key, x)]) r2 = Decoded m rest"
    by (auto simp: dec_bind_eq_Decoded split: if_splits)
  show ?case
    by (rule Suc.IH [OF step]) (use Suc.prems(2,3) new assms(4) [OF k] assms(5) [OF v] in auto)
qed simp

lemma index_map_wf:
  assumes "deserialize_from (index_map_codec ext k v) bytes = Decoded m rest"
    and "\<And>bs x r. deserialize_from k bs = Decoded x r \<Longrightarrow> P x" and "\<And>bs x r. deserialize_from v bs = Decoded x r \<Longrightarrow> Q x"
  shows "distinct (map fst m) \<and> (\<forall>(key, val) \<in> set m. P key \<and> Q val)"
proof -
  from assms(1) obtain n r where "deserialize_entries (\<lambda>key val res. res @ [(key, val)]) k v n [] r = Decoded m rest"
    by (auto simp: index_map_codec_def dec_bind_eq_Decoded)
  from deserialize_entries_wf [where P = P and Q = Q, OF this] show ?thesis using assms(2,3) by simp
qed

lemma patricia_key_wf: "deserialize_from (patricia_key_codec ext) bs = Decoded x r \<Longrightarrow> ext_is_patricia_key ext x"
  by (auto simp: patricia_key_codec_def dec_bind_eq_Decoded split: if_splits)

text \<open>
  \<^bold>\<open>C30.\<close> Whatever bytes a file holds, a state diff that is read from them is well formed: no map has a key
  twice, neither the storage of a contract, and every address and storage key is a Patricia key.
\<close>

theorem read_diff_well_formed:
  assumes "version_zero_deserialize (thin_state_diff_codec ext) bytes = Decoded d rest"
  shows "diff_wf d \<and> rest = [] \<and>
    (\<forall>a \<in> fst ` set (tsd_deployed_contracts d) \<union> fst ` set (tsd_storage_diffs d) \<union> fst ` set (tsd_nonces d) \<union>
       fst ` set (tsd_replaced_classes d). ext_is_patricia_key ext a) \<and>
    (\<forall>(a, es) \<in> set (tsd_storage_diffs d). \<forall>k \<in> fst ` set es. ext_is_patricia_key ext k)"
proof -
  let ?addr = "ext_is_patricia_key ext"
  let ?map = "index_map_codec ext (patricia_key_codec ext) (felt_codec ext)"
  from assms obtain a b c e f g bs0 bs1 bs2 bs3 bs4 r0 r1 r2 r3 r4
    where d: "d = thin_state_diff.make a b c e f g" and rest: "rest = []"
      and maps: "deserialize_from ?map bs0 = Decoded a r0"
        "deserialize_from (index_map_codec ext (patricia_key_codec ext) ?map) bs1 = Decoded b r1"
        "deserialize_from (index_map_codec ext (felt_codec ext) (felt_codec ext)) bs2 = Decoded c r2"
        "deserialize_from ?map bs3 = Decoded f r3" "deserialize_from ?map bs4 = Decoded g r4"
    by (auto simp: version_zero_deserialize_def read_kind_def dec_bind_eq_Decoded is_all_bytes_read_def
        thin_state_diff_codec_def compressed_codec_def from_buffer_def struct_codec_def pair_codec_def
        split: list.splits if_splits option.splits)
  have m: "distinct (map fst x) \<and> (\<forall>(key, val) \<in> set x. ?addr key \<and> True)"
    if "deserialize_from ?map bs = Decoded x r" for bs x r
    by (rule index_map_wf [OF that]) (simp_all add: patricia_key_wf)
  have sd: "distinct (map fst b) \<and> (\<forall>(key, val) \<in> set b. ?addr key \<and>
      (distinct (map fst val) \<and> (\<forall>(k, v) \<in> set val. ?addr k \<and> True)))"
    by (rule index_map_wf [OF maps(2)]) (rule patricia_key_wf, assumption, rule m)
  have dc: "distinct (map fst c) \<and> (\<forall>(key, val) \<in> set c. True \<and> True)"
    by (rule index_map_wf [OF maps(3)]) simp_all
  have wf: "diff_wf d"
    using m [OF maps(1)] m [OF maps(4)] m [OF maps(5)] sd dc by (auto simp: d thin_state_diff.make_def diff_wf_def)
  have addr: "?addr x" if "x \<in> fst ` set a \<union> fst ` set b \<union> fst ` set f \<union> fst ` set g" for x
    using that m [OF maps(1)] m [OF maps(4)] m [OF maps(5)] sd by auto
  have keys: "case p of (x, es) \<Rightarrow> \<forall>k \<in> fst ` set es. ?addr k" if "p \<in> set b" for p
    using bspec [OF conjunct2 [OF sd] that] by (cases p) auto
  show ?thesis
    unfolding d thin_state_diff.make_def thin_state_diff.simps
    using wf [unfolded d thin_state_diff.make_def] rest addr keys by (intro conjI) blast+
qed

definition demo_thin :: thin_state_diff where
  "demo_thin = \<lparr>tsd_deployed_contracts = [(1, 50)], tsd_storage_diffs = [(1, [(10, 5), (11, 6)])],
     tsd_declared_classes = [(50, 500)], tsd_deprecated_declared_classes = [60], tsd_nonces = [(1, 3)],
     tsd_replaced_classes = []\<rparr>"

lemma demo_thin_fits: "fits (thin_state_diff_codec demo_ext) demo_thin"
  by (simp add: thin_state_diff_codec_def compressed_codec_def compressible_def struct_codec_def pair_codec_def
      index_map_codec_def felts_codec_def vec_codec_def felt_codec_def patricia_key_codec_def demo_thin_def
      demo_ext_def MAX_DECOMPRESSED_SIZE_def)

theorem read_diff_well_formed_witness:
  "\<exists>bytes. version_zero_serialize (thin_state_diff_codec demo_ext) demo_thin = Inr bytes \<and>
     version_zero_deserialize (thin_state_diff_codec demo_ext) bytes = Decoded demo_thin [] \<and> diff_wf demo_thin"
proof -
  from stored_backI [OF thin_state_diff_codec_ok [OF demo_ext_ok] demo_thin_fits] obtain bytes
    where bytes: "version_zero_serialize (thin_state_diff_codec demo_ext) demo_thin = Inr bytes"
      "version_zero_deserialize (thin_state_diff_codec demo_ext) bytes = Decoded demo_thin []"
    unfolding stored_back_def by blast
  have "diff_wf demo_thin" by (rule conjunct1 [OF read_diff_well_formed [OF bytes(2)]])
  then show ?thesis using bytes by (intro exI [of _ bytes] conjI)
qed

section \<open>Outside the limits\<close>

lemma low_bytes_mod: "n = 256 ^ k \<Longrightarrow> low_bytes k x = low_bytes k (x mod n)"
proof (induction k arbitrary: x n)
  case (Suc k)
  have "x mod (256 * 256 ^ k) div 256 = x div 256 mod 256 ^ k" by (simp add: mod_mult2_eq)
  moreover have "(of_nat (x mod (256 * 256 ^ k)) :: u8) = of_nat x"
    by (simp add: word_of_nat_eq_iff take_bit_eq_mod mod_mod_cancel)
  ultimately show ?case using Suc.IH [OF refl, of "x div 256"] Suc.prems by simp
qed simp

text \<open>
  \<^bold>\<open>C35.\<close> Outside the limits of the encodings: writing a block number of 2^32 or more panics; a transaction
  position of 2^24 or more is written as its low 24 bits, the bytes of another position; an object whose
  fields take more than \<open>MAX_DECOMPRESSED_SIZE\<close> bytes is compressed and written without an error, and reading
  it back panics, or fails where the field is compressed on its own.
\<close>

theorem serde_limits:
  assumes "serde_ext_ok ext" and "serialize_into c x = Inr bs" and "MAX_DECOMPRESSED_SIZE < length bs"
    and "ext_compress ext bs = Some z" and "length z < 2 ^ 64" and "2 ^ 32 \<le> b"
  shows "(\<exists>msg. serialize_into block_number_codec b = Inl (SerPanic msg)) \<and>
    serialize_into transaction_offset_codec i = serialize_into transaction_offset_codec (i mod 2 ^ 24) \<and>
    (\<exists>written. serialize_into (compressed_codec ext c) x = Inr written \<and>
       (\<exists>msg. deserialize_from (compressed_codec ext c) (written @ rest) = DecodePanic msg)) \<and>
    (\<exists>written. serialize_into (compressed_field_codec ext c) x = Inr written \<and>
       deserialize_from (compressed_field_codec ext c) (written @ rest) = Malformed)"
proof -
  have "decompress ext z = None" using serde_ext_okD(3) [OF assms(1,4)] assms(3) by (simp add: decompress_def)
  moreover have "low_bytes 3 i = low_bytes 3 (i mod 2 ^ 24)"
    by (rule low_bytes_mod) simp
  ultimately show ?thesis
    using assms(2,4,6) deserialize_bytes [OF assms(1,5)]
    by (simp add: block_number_codec_def transaction_offset_codec_def drop_5_to_be_bytes compressed_codec_def
        compressed_field_codec_def serialize_and_compress_def decompress_from_reader_def serialize_bytes)
qed

theorem serde_limits_witness:
  "\<exists>x written msg. serialize_into (compressed_codec demo_ext (vec_codec demo_ext u8_codec)) x = Inr written \<and>
     deserialize_from (compressed_codec demo_ext (vec_codec demo_ext u8_codec)) (written @ []) = DecodePanic msg"
proof -
  define x :: "u8 list" where "x = replicate (2 ^ 28 + 1) 0"
  have len: "length x = 2 ^ 28 + 1" by (simp add: x_def)
  let ?bs = "ext_write_varint demo_ext (length x) @ x"
  have bs: "serialize_into (vec_codec demo_ext u8_codec) x = Inr ?bs" by (rule serialize_bytes)
  have size: "MAX_DECOMPRESSED_SIZE < length ?bs" "length ?bs < 2 ^ 64"
    by (simp_all add: len demo_ext_def MAX_DECOMPRESSED_SIZE_def)
  have compress: "ext_compress demo_ext ?bs = Some ?bs" by (simp add: demo_ext_def)
  have "(2 :: nat) ^ 32 \<le> 2 ^ 32" by simp
  from serde_limits [OF demo_ext_ok bs size(1) compress size(2) this, of 0 "[]"] show ?thesis by blast
qed

end
