(* ===== verification/P2p_Sync_Server.thy ===== *)
theory P2p_Sync_Server
  imports Storage_Frames
begin

text \<open>
  What a node serves to its peers: \<open>papyrus_p2p_sync/src/server\<close>, with the messages of
  \<open>papyrus_protobuf/src/sync.rs\<close>.

  \<^item> A query asks for \<open>limit\<close> blocks from a start block, every \<open>step\<close> blocks, in either direction.
    Its numbers are \<open>u64\<close>: the product of step and counter wraps as it does in the code, and the block
    number is computed in \<open>i128\<close>.
  \<^item> The sink of the responses is the list of messages sent so far and the number of messages after
    which the receiver is gone (\<open>None\<close> if it never goes). A message \<open>DataOrFin\<close> is an option.
  \<^item> \<open>diff_len\<close> is \<open>ThinStateDiff::len\<close> of the crate \<open>starknet_api\<close>, with the law \<open>diff_len_law\<close>: it
    counts the entries of the diff. The \<open>HashSet\<close> of addresses that \<open>split_thin_state_diff\<close> walks is
    enumerated in an unspecified order \<open>ord\<close>, with the law \<open>set_order\<close>.
  \<^item> A fetched storage failure is \<open>DBInternalError\<close>, which also carries the panics of the storage.

  The lemmas say which messages a query gets: the data of the blocks it asks for, in its order, up to
  the first one the storage does not have, and then one end message.
\<close>

section \<open>Messages\<close>

datatype direction = Forward | Backward

datatype block_hash_or_number = BHash block_hash | BNumber block_number

record query =
  q_start_block :: block_hash_or_number
  q_direction :: direction
  q_limit :: nat
  q_step :: nat

record signed_block_header =
  sh_block_header :: block_header
  sh_signatures :: "block_signature list"

record contract_diff =
  cd_contract_address :: contract_address
  cd_class_hash :: "class_hash option"
  cd_nonce :: "nonce option"
  cd_storage_diffs :: "(storage_key \<times> felt) list"

datatype state_diff_chunk =
    ContractDiff contract_diff
  | DeclaredClass class_hash compiled_class_hash
  | DeprecatedDeclaredClass class_hash

fun chunk_len :: "state_diff_chunk \<Rightarrow> nat" where
  "chunk_len (ContractDiff contract_diff) =
     length (cd_storage_diffs contract_diff) +
     (if cd_class_hash contract_diff \<noteq> None then 1 else 0) +
     (if cd_nonce contract_diff \<noteq> None then 1 else 0)"
| "chunk_len (DeclaredClass _ _) = 1"
| "chunk_len (DeprecatedDeclaredClass _) = 1"

definition chunk_is_empty :: "state_diff_chunk \<Rightarrow> bool" where
  "chunk_is_empty chunk \<longleftrightarrow> chunk_len chunk = 0"

datatype api_contract_class = ApiDeprecatedContractClass cairo0_class | ApiContractClass sierra_class

section \<open>Errors\<close>

datatype p2p_sync_server_error =
    DBInternalError storage_failure
  | BlockNumberOutOfRange query nat
  | BlockNotFound block_hash_or_number
  | ClassNotFound class_hash
  | JoinError
  | SignatureNotFound block_number
  | ServerSendError

type_synonym 'a server_result = "(p2p_sync_server_error, 'a) result"

fun should_log_in_error_level :: "p2p_sync_server_error \<Rightarrow> bool" where
  "should_log_in_error_level JoinError = True"
| "should_log_in_error_level (SignatureNotFound _) = True"
| "should_log_in_error_level ServerSendError = True"
| "should_log_in_error_level (DBInternalError _) = True"
| "should_log_in_error_level (BlockNumberOutOfRange _ _) = False"
| "should_log_in_error_level (BlockNotFound _) = False"
| "should_log_in_error_level (ClassNotFound _) = False"

definition db_internal :: "'a sresult \<Rightarrow> 'a server_result" where
  "db_internal r = (case r of Inl e \<Rightarrow> Inl (DBInternalError e) | Inr x \<Rightarrow> Inr x)"

definition ok_or :: "'a option \<Rightarrow> 'e \<Rightarrow> ('e, 'a) result" where
  "ok_or x e = (case x of None \<Rightarrow> Inl e | Some v \<Rightarrow> Inr v)"

lemma ok_or_simps [simp]: "ok_or None e = Inl e" "ok_or (Some v) e = Inr v"
  by (simp_all add: ok_or_def)

lemma db_internal_simps [simp]: "db_internal (Inl f) = Inl (DBInternalError f)" "db_internal (Inr x) = Inr x"
  by (simp_all add: db_internal_def)

section \<open>The block a counter stands for\<close>

definition calculate_block_number :: "query \<Rightarrow> nat \<Rightarrow> nat \<Rightarrow> nat server_result" where
  "calculate_block_number query start_block read_blocks_counter =
     (let direction_factor = (case q_direction query of Forward \<Rightarrow> 1 | Backward \<Rightarrow> - 1);
          blocks_delta = direction_factor * int (q_step query * read_blocks_counter mod 2 ^ 64);
          block_number = int start_block + blocks_delta
      in if block_number < 0 \<or> int u64_max < block_number
         then Inl (BlockNumberOutOfRange query read_blocks_counter)
         else Inr (nat block_number))"

section \<open>The data of a block\<close>

definition fetch_signed_block_header ::
  "(thin_state_diff \<Rightarrow> nat) \<Rightarrow> storage_txn \<Rightarrow> block_number \<Rightarrow> signed_block_header list server_result" where
  "fetch_signed_block_header diff_len txn block_number =
     res_bind (db_internal (get_block_header txn block_number)) (\<lambda>header.
     res_bind (ok_or header (BlockNotFound (BNumber block_number))) (\<lambda>header.
     res_bind
       (case sbh_state_diff_length header of
          Some _ \<Rightarrow> Inr header
        | None \<Rightarrow>
            res_bind (db_internal (get_state_diff txn block_number)) (\<lambda>diff.
            res_bind (ok_or diff (BlockNotFound (BNumber block_number))) (\<lambda>diff.
            Inr (header\<lparr>sbh_state_diff_length := Some (diff_len diff)\<rparr>)))) (\<lambda>header.
     res_bind (ok_or (get_block_signature txn block_number) (SignatureNotFound block_number)) (\<lambda>signature.
     Inr [\<lparr>sh_block_header = header, sh_signatures = [signature]\<rparr>]))))"

definition changed_contracts :: "thin_state_diff \<Rightarrow> contract_address set" where
  "changed_contracts d =
     set (map fst (tsd_deployed_contracts d) @ map fst (tsd_replaced_classes d) @
          map fst (tsd_nonces d) @ map fst (tsd_storage_diffs d))"

definition contract_diff_of :: "thin_state_diff \<Rightarrow> contract_address \<Rightarrow> contract_diff" where
  "contract_diff_of d contract_address =
     \<lparr>cd_contract_address = contract_address,
      cd_class_hash =
        (case map_of (tsd_deployed_contracts d) contract_address of
           Some class_hash \<Rightarrow> Some class_hash
         | None \<Rightarrow> map_of (tsd_replaced_classes d) contract_address),
      cd_nonce = map_of (tsd_nonces d) contract_address,
      cd_storage_diffs =
        (case map_of (tsd_storage_diffs d) contract_address of None \<Rightarrow> [] | Some es \<Rightarrow> es)\<rparr>"

definition split_thin_state_diff ::
  "(contract_address set \<Rightarrow> contract_address list) \<Rightarrow> thin_state_diff \<Rightarrow> state_diff_chunk list" where
  "split_thin_state_diff ord d =
     map (\<lambda>a. ContractDiff (contract_diff_of d a)) (ord (changed_contracts d)) @
     map (\<lambda>(class_hash, compiled_class_hash). DeclaredClass class_hash compiled_class_hash)
       (tsd_declared_classes d) @
     map DeprecatedDeclaredClass (tsd_deprecated_declared_classes d)"

definition fetch_state_diff_chunks ::
  "(contract_address set \<Rightarrow> contract_address list) \<Rightarrow> storage_txn \<Rightarrow> block_number \<Rightarrow>
   state_diff_chunk list server_result" where
  "fetch_state_diff_chunks ord txn block_number =
     res_bind (db_internal (get_state_diff txn block_number)) (\<lambda>diff.
     res_bind (ok_or diff (BlockNotFound (BNumber block_number))) (\<lambda>diff.
     Inr (split_thin_state_diff ord diff)))"

definition fetch_transactions ::
  "storage_txn \<Rightarrow> block_number \<Rightarrow> (transaction \<times> tx_output) list server_result" where
  "fetch_transactions txn block_number =
     res_bind (db_internal (get_block_transactions txn block_number)) (\<lambda>transactions.
     res_bind (ok_or transactions (BlockNotFound (BNumber block_number))) (\<lambda>transactions.
     res_bind (db_internal (get_block_transaction_outputs txn block_number)) (\<lambda>outputs.
     res_bind (ok_or outputs (BlockNotFound (BNumber block_number))) (\<lambda>outputs.
     Inr (zip transactions outputs)))))"

definition fetch_classes :: "storage_txn \<Rightarrow> block_number \<Rightarrow> api_contract_class list server_result" where
  "fetch_classes txn block_number =
     res_bind (db_internal (get_state_diff txn block_number)) (\<lambda>diff.
     res_bind (ok_or diff (BlockNotFound (BNumber block_number))) (\<lambda>diff.
     res_bind
       (map_res (\<lambda>class_hash.
          res_bind (db_internal (get_deprecated_class txn class_hash)) (\<lambda>class.
          res_bind (ok_or class (ClassNotFound class_hash)) (\<lambda>class. Inr (ApiDeprecatedContractClass class))))
        (tsd_deprecated_declared_classes diff)) (\<lambda>deprecated.
     res_bind
       (map_res (\<lambda>(class_hash, _).
          res_bind (db_internal (get_class txn class_hash)) (\<lambda>class.
          res_bind (ok_or class (ClassNotFound class_hash)) (\<lambda>class. Inr (ApiContractClass class))))
        (tsd_declared_classes diff)) (\<lambda>declared.
     Inr (deprecated @ declared)))))"

definition fetch_events :: "storage_txn \<Rightarrow> block_number \<Rightarrow> (event \<times> tx_hash) list server_result" where
  "fetch_events txn block_number =
     res_bind (db_internal (get_block_transaction_outputs txn block_number)) (\<lambda>outputs.
     res_bind (ok_or outputs (BlockNotFound (BNumber block_number))) (\<lambda>outputs.
     res_bind (db_internal (get_block_transaction_hashes txn block_number)) (\<lambda>hashes.
     res_bind (ok_or hashes (BlockNotFound (BNumber block_number))) (\<lambda>hashes.
     Inr (concat (map (\<lambda>(output, hash). map (\<lambda>ev. (ev, hash)) (out_events output)) (zip outputs hashes)))))))"

section \<open>Answering a query\<close>

definition sink_closed :: "nat option \<Rightarrow> 'a list \<Rightarrow> bool" where
  "sink_closed closed_after sent \<longleftrightarrow> (case closed_after of None \<Rightarrow> False | Some n \<Rightarrow> n \<le> length sent)"

fun feed_all :: "nat option \<Rightarrow> 'a list \<Rightarrow> 'a option list \<Rightarrow> 'a option list \<times> unit server_result" where
  "feed_all closed_after [] sent = (sent, Inr ())"
| "feed_all closed_after (x # xs) sent =
     (if sink_closed closed_after sent then (sent, Inl ServerSendError)
      else feed_all closed_after xs (sent @ [Some x]))"

fun send_blocks ::
  "(block_number \<Rightarrow> 'a list server_result) \<Rightarrow> query \<Rightarrow> nat \<Rightarrow> nat option \<Rightarrow> nat list \<Rightarrow> 'a option list \<Rightarrow>
   'a option list \<times> unit server_result" where
  "send_blocks fetch query start_block closed_after [] sent = (sent, Inr ())"
| "send_blocks fetch query start_block closed_after (block_counter # counters) sent =
     (case res_bind (calculate_block_number query start_block block_counter) fetch of
        Inl e \<Rightarrow> (sent, Inl e)
      | Inr data_vec \<Rightarrow>
          (case feed_all closed_after data_vec sent of
             (sent, Inl e) \<Rightarrow> (sent, Inl e)
           | (sent, Inr _) \<Rightarrow> send_blocks fetch query start_block closed_after counters sent))"

definition start_block_number :: "storage_txn \<Rightarrow> query \<Rightarrow> nat server_result" where
  "start_block_number txn query =
     (case q_start_block query of
        BNumber num \<Rightarrow> Inr num
      | BHash block_hash \<Rightarrow>
          ok_or (get_block_number_by_hash txn block_hash) (BlockNotFound (BHash block_hash)))"

definition send_data_without_fin_for_query ::
  "(storage_txn \<Rightarrow> block_number \<Rightarrow> 'a list server_result) \<Rightarrow> storage_txn \<Rightarrow> query \<Rightarrow> nat option \<Rightarrow>
   'a option list \<times> unit server_result" where
  "send_data_without_fin_for_query fetch txn query closed_after =
     (case start_block_number txn query of
        Inl e \<Rightarrow> ([], Inl e)
      | Inr start_block \<Rightarrow> send_blocks (fetch txn) query start_block closed_after [0..<q_limit query] [])"

definition send_data_for_query ::
  "(storage_txn \<Rightarrow> block_number \<Rightarrow> 'a list server_result) \<Rightarrow> storage_txn \<Rightarrow> query \<Rightarrow> nat option \<Rightarrow>
   'a option list \<times> unit server_result" where
  "send_data_for_query fetch txn query closed_after =
     (case send_data_without_fin_for_query fetch txn query closed_after of
        (sent, result) \<Rightarrow>
          if sink_closed closed_after sent then (sent, Inl ServerSendError) else (sent @ [None], result))"

text \<open>The task that \<open>register_query\<close> spawns: what it sends, and whether it logs an error.\<close>

definition register_query ::
  "(storage_txn \<Rightarrow> block_number \<Rightarrow> 'a list server_result) \<Rightarrow> storage_txn \<Rightarrow> query \<Rightarrow> nat option \<Rightarrow>
   'a option list \<times> bool" where
  "register_query fetch txn query closed_after =
     (case send_data_for_query fetch txn query closed_after of
        (sent, Inl e) \<Rightarrow> (sent, should_log_in_error_level e)
      | (sent, Inr _) \<Rightarrow> (sent, False))"

datatype query_kind = HeaderQuery | StateDiffQuery | TransactionQuery | ClassQuery | EventQuery

datatype server_responses =
    HeaderResponses "signed_block_header option list" bool
  | StateDiffResponses "state_diff_chunk option list" bool
  | TransactionResponses "(transaction \<times> tx_output) option list" bool
  | ClassResponses "api_contract_class option list" bool
  | EventResponses "(event \<times> tx_hash) option list" bool

text \<open>
  One turn of \<open>run\<close>: a receiver yields a query, a query that could not be decoded, or has lost its
  sender, which panics. The storage is the one the spawned task reads.
\<close>

datatype query_arrival = Arrived query | Undecodable | SenderDropped

definition serve_turn ::
  "(thin_state_diff \<Rightarrow> nat) \<Rightarrow> (contract_address set \<Rightarrow> contract_address list) \<Rightarrow> storage_txn \<Rightarrow> query_kind \<Rightarrow>
   query_arrival \<Rightarrow> nat option \<Rightarrow> (string, server_responses option) result" where
  "serve_turn diff_len ord txn kind arrival closed_after =
     (case arrival of
        SenderDropped \<Rightarrow> Inl ''queries sender was unexpectedly dropped''
      | Undecodable \<Rightarrow> Inr None
      | Arrived query \<Rightarrow>
          Inr (Some
            (case kind of
               HeaderQuery \<Rightarrow>
                 (case register_query (fetch_signed_block_header diff_len) txn query closed_after of
                    (sent, logged) \<Rightarrow> HeaderResponses sent logged)
             | StateDiffQuery \<Rightarrow>
                 (case register_query (fetch_state_diff_chunks ord) txn query closed_after of
                    (sent, logged) \<Rightarrow> StateDiffResponses sent logged)
             | TransactionQuery \<Rightarrow>
                 (case register_query fetch_transactions txn query closed_after of
                    (sent, logged) \<Rightarrow> TransactionResponses sent logged)
             | ClassQuery \<Rightarrow>
                 (case register_query fetch_classes txn query closed_after of
                    (sent, logged) \<Rightarrow> ClassResponses sent logged)
             | EventQuery \<Rightarrow>
                 (case register_query fetch_events txn query closed_after of
                    (sent, logged) \<Rightarrow> EventResponses sent logged))))"

section \<open>The laws of what is not in the sources\<close>

definition diff_entries :: "thin_state_diff \<Rightarrow> nat" where
  "diff_entries d =
     length (tsd_deployed_contracts d) + length (tsd_declared_classes d) +
     length (tsd_deprecated_declared_classes d) + length (tsd_nonces d) + length (tsd_replaced_classes d) +
     sum_list (map (length \<circ> snd) (tsd_storage_diffs d))"

definition diff_len_law :: "(thin_state_diff \<Rightarrow> nat) \<Rightarrow> bool" where
  "diff_len_law diff_len \<longleftrightarrow> (\<forall>d. diff_len d = diff_entries d)"

definition set_order :: "('a set \<Rightarrow> 'a list) \<Rightarrow> bool" where
  "set_order ord \<longleftrightarrow> (\<forall>A. finite A \<longrightarrow> distinct (ord A) \<and> set (ord A) = A)"

section \<open>Which messages a query gets\<close>

text \<open>The blocks a query asks for, and those of them that a storage of \<open>m\<close> blocks serves.\<close>

definition asked_blocks :: "query \<Rightarrow> nat \<Rightarrow> int list" where
  "asked_blocks query start_block =
     map (\<lambda>c. case q_direction query of
            Forward \<Rightarrow> int start_block + int (q_step query * c)
          | Backward \<Rightarrow> int start_block - int (q_step query * c)) [0..<q_limit query]"

definition served_blocks :: "query \<Rightarrow> nat \<Rightarrow> nat \<Rightarrow> block_number list" where
  "served_blocks query start_block m =
     map nat (takeWhile (\<lambda>b. 0 \<le> b \<and> b < int m) (asked_blocks query start_block))"

lemma calculate_block_number_eq:
  assumes "c < q_limit query" and "q_step query * q_limit query < 2 ^ 64"
  shows "calculate_block_number query start_block c =
    (let b = asked_blocks query start_block ! c in
     if b < 0 \<or> int u64_max < b then Inl (BlockNumberOutOfRange query c) else Inr (nat b))"
proof -
  have "q_step query * c \<le> q_step query * q_limit query" using assms(1) by simp
  then have "q_step query * c mod 2 ^ 64 = q_step query * c" using assms(2) by (intro mod_less) linarith
  then show ?thesis
    using assms(1)
    by (cases "q_direction query") (simp_all add: calculate_block_number_def asked_blocks_def Let_def)
qed

lemma feed_all_open [simp]: "feed_all None xs sent = (sent @ map Some xs, Inr ())"
  by (induction xs arbitrary: sent) (simp_all add: sink_closed_def)

lemma feed_all_closed:
  assumes "length sent \<le> n"
  shows "feed_all (Some n) xs sent =
    (take n (sent @ map Some xs), if length sent + length xs \<le> n then Inr () else Inl ServerSendError)"
  using assms by (induction xs arbitrary: sent) (auto simp: sink_closed_def take_Cons')

lemma send_blocks_grows:
  "\<exists>more. fst (send_blocks fetch query start_block None cs sent) = sent @ more"
proof (induction cs arbitrary: sent)
  case (Cons c cs)
  show ?case
  proof (cases "res_bind (calculate_block_number query start_block c) fetch")
    case (Inr xs)
    then show ?thesis using Cons.IH [of "sent @ map Some xs"] by auto
  qed simp
qed simp

lemma send_blocks_closed:
  assumes "length sent \<le> n"
  shows "send_blocks fetch query start_block (Some n) cs sent =
    (case send_blocks fetch query start_block None cs sent of
       (all, r) \<Rightarrow> (take n all, if length all \<le> n then r else Inl ServerSendError))"
  using assms
proof (induction cs arbitrary: sent)
  case (Cons c cs)
  show ?case
  proof (cases "res_bind (calculate_block_number query start_block c) fetch")
    case (Inr xs)
    show ?thesis
    proof (cases "length sent + length xs \<le> n")
      case True
      then show ?thesis using Cons.IH [of "sent @ map Some xs"] Inr Cons.prems
        by (simp add: feed_all_closed)
    next
      case False
      obtain more where "fst (send_blocks fetch query start_block None cs (sent @ map Some xs)) =
          (sent @ map Some xs) @ more" using send_blocks_grows by blast
      with False show ?thesis using Inr Cons.prems
        by (auto simp: feed_all_closed split: prod.split)
    qed
  qed (use Cons.prems in simp)
qed simp

lemma send_data_closed:
  "fst (send_data_for_query fetch txn query (Some n)) = take n (fst (send_data_for_query fetch txn query None))"
proof (cases "start_block_number txn query")
  case (Inr start_block)
  obtain all r where all: "send_blocks (fetch txn) query start_block None [0..<q_limit query] [] = (all, r)"
    by (cases "send_blocks (fetch txn) query start_block None [0..<q_limit query] []")
  then have "send_blocks (fetch txn) query start_block (Some n) [0..<q_limit query] [] =
      (take n all, if length all \<le> n then r else Inl ServerSendError)"
    by (simp add: send_blocks_closed)
  with all Inr show ?thesis
    by (simp add: send_data_for_query_def send_data_without_fin_for_query_def sink_closed_def)
qed (simp add: send_data_for_query_def send_data_without_fin_for_query_def sink_closed_def)

lemma send_blocks_available:
  assumes "q_step query * q_limit query < 2 ^ 64" and "m \<le> u64_max"
    and "\<And>b. b < m \<Longrightarrow> fetch b = Inr (data b)" and "\<And>b. m \<le> b \<Longrightarrow> \<exists>e. fetch b = Inl e"
    and "k \<le> q_limit query"
  shows "\<exists>r. send_blocks fetch query start_block None [k..<q_limit query] sent =
      (sent @ map Some (concat (map data
         (map nat (takeWhile (\<lambda>b. 0 \<le> b \<and> b < int m) (drop k (asked_blocks query start_block)))))), r) \<and>
      (r = Inr () \<longleftrightarrow> (\<forall>b \<in> set (drop k (asked_blocks query start_block)). 0 \<le> b \<and> b < int m))"
  using assms(5)
proof (induction "q_limit query - k" arbitrary: k sent)
  case 0
  then show ?case by (simp add: asked_blocks_def)
next
  case (Suc j)
  then have k: "k < q_limit query" by simp
  let ?b = "asked_blocks query start_block ! k"
  have dropk: "drop k (asked_blocks query start_block) = ?b # drop (Suc k) (asked_blocks query start_block)"
    by (rule Cons_nth_drop_Suc [symmetric]) (simp add: asked_blocks_def k)
  have upt: "[k..<q_limit query] = k # [Suc k..<q_limit query]" using k by (simp add: upt_conv_Cons)
  note calc = calculate_block_number_eq [OF k assms(1), of start_block, unfolded Let_def]
  show ?case
  proof (cases "0 \<le> ?b \<and> ?b < int m")
    case True
    then have "nat ?b < m" by linarith
    then have "fetch (nat ?b) = Inr (data (nat ?b))" by (rule assms(3))
    moreover have "calculate_block_number query start_block k = Inr (nat ?b)"
      using True assms(2) calc by simp
    moreover have "j = q_limit query - Suc k" "Suc k \<le> q_limit query" using Suc by simp_all
    note IH = Suc(1) [OF this, of "sent @ map Some (data (nat ?b))"]
    ultimately show ?thesis using True IH by (auto simp: upt dropk)
  next
    case False
    then have "\<exists>e. res_bind (calculate_block_number query start_block k) fetch = Inl e"
      using calc assms(4) [of "nat ?b"] by (cases "?b < 0 \<or> int u64_max < ?b") auto
    then show ?thesis using False by (auto simp: upt dropk)
  qed
qed

lemma send_data_available:
  assumes "start_block_number txn query = Inr start_block" and "q_step query * q_limit query < 2 ^ 64"
    and "m \<le> u64_max" and "\<And>b. b < m \<Longrightarrow> fetch txn b = Inr (data b)"
    and "\<And>b. m \<le> b \<Longrightarrow> \<exists>e. fetch txn b = Inl e"
  shows "\<exists>r. send_data_for_query fetch txn query None =
      (map Some (concat (map data (served_blocks query start_block m))) @ [None], r) \<and>
      (r = Inr () \<longleftrightarrow> (\<forall>b \<in> set (asked_blocks query start_block). 0 \<le> b \<and> b < int m))"
  using send_blocks_available [of query m "fetch txn" data 0 start_block "[]"] assms
  by (auto simp: send_data_for_query_def send_data_without_fin_for_query_def sink_closed_def served_blocks_def)

text \<open>What is fetched for a block, on a storage that holds the lists \<open>hs\<close>, \<open>bs\<close> and \<open>ds\<close>.\<close>

lemma fetch_state_diff_chunks_eq:
  assumes "state_rel txn ds"
  shows "fetch_state_diff_chunks ord txn b =
    (if b < length ds then Inr (split_thin_state_diff ord (ds ! b)) else Inl (BlockNotFound (BNumber b)))"
  by (simp add: fetch_state_diff_chunks_def state_rel_diff [OF assms])

lemma fetch_transactions_eq:
  assumes "body_rel txn bs"
  shows "fetch_transactions txn b =
    (if b < length bs then Inr (map fst (bs ! b)) else Inl (BlockNotFound (BNumber b)))"
  by (simp add: fetch_transactions_def body_rel_block_reads [OF assms] zip_map_fst_snd comp_def)
    (simp add: zip_map_map zip_same_conv_map comp_def)

lemma fetch_events_eq:
  assumes "body_rel txn bs"
  shows "fetch_events txn b =
    (if b < length bs
     then Inr (concat (map (\<lambda>((_, output), hash). map (\<lambda>ev. (ev, hash)) (out_events output)) (bs ! b)))
     else Inl (BlockNotFound (BNumber b)))"
  by (simp add: fetch_events_def body_rel_block_reads [OF assms] zip_map_map zip_same_conv_map comp_def
      case_prod_unfold)

definition served_header :: "(thin_state_diff \<Rightarrow> nat) \<Rightarrow> block_header \<Rightarrow> thin_state_diff \<Rightarrow> block_header" where
  "served_header diff_len h d =
     (if sbh_state_diff_length h = None then h\<lparr>sbh_state_diff_length := Some (diff_len d)\<rparr> else h)"

lemma fetch_signed_block_header_eq:
  assumes "header_rel txn hs" and "state_rel txn ds" and "b < length hs" and "b < length ds"
    and "get_block_signature txn b = Some sig"
  shows "fetch_signed_block_header diff_len txn b =
    Inr [\<lparr>sh_block_header = served_header diff_len (hs ! b) (ds ! b), sh_signatures = [sig]\<rparr>]"
proof -
  have "get_block_header txn b = Inr (Some (hs ! b))" using assms(1,3) by (simp add: header_rel_def)
  then show ?thesis
    using assms(4,5)
    by (simp add: fetch_signed_block_header_def served_header_def state_rel_diff [OF assms(2)] split: option.split)
qed

end
