(* ===== verification/P2p_Sync_Client.thy ===== *)
theory P2p_Sync_Client
  imports P2p_Sync_Server
begin

text \<open>
  How a node copies headers and state diffs from its peers: \<open>papyrus_p2p_sync/src/client\<close>.

  \<^item> The responses to a query are a list of what the receiver yields: a decoded message, a message that
    could not be decoded, or the passing of \<open>NETWORK_DATA_TIMEOUT\<close> with nothing received. The end of
    the list is the end of the channel. Peers are not trusted: the responses are arbitrary.
  \<^item> A stream of \<open>create_stream\<close> is a state machine \<open>stream_state\<close>: about to send a query, in the middle of
    its responses, or ended. Its operations are sending a query and handling the next block of the
    responses.
  \<^item> \<open>client_step\<close> is \<open>run\<close>: the merged streams take turns in any order, every item they yield is written
    to the storage before the next one is asked for, and the first error ends the run.

  The period of waiting for new data and the sizes of the buffers are timing and are left out.
\<close>

section \<open>Errors and received data\<close>

datatype p2p_sync_error =
    HeadersUnordered block_number block_number
  | WrongSignaturesLength "block_signature list"
  | WrongStateDiffLength nat "nat list"
  | ConflictingStateDiffParts
  | EmptyStateDiffPart
  | TooManyResponses
  | ProtobufConversion string
  | OldHeaderInStorage block_number string
  | ReceiverChannelTerminated string
  | NetworkTimeout
  | P2pStorageError storage_failure
  | P2pSendError
  | P2pPanic string

type_synonym 'a p2p_result = "(p2p_sync_error, 'a) result"

datatype 'a incoming = Elapsed | Received "(string, 'a option) result"

definition p2p_storage :: "'a sresult \<Rightarrow> 'a p2p_result" where
  "p2p_storage r = (case r of Inl e \<Rightarrow> Inl (P2pStorageError e) | Inr x \<Rightarrow> Inr x)"

lemma p2p_storage_simps [simp]: "p2p_storage (Inl f) = Inl (P2pStorageError f)" "p2p_storage (Inr x) = Inr x"
  by (simp_all add: p2p_storage_def)

lemma p2p_storage_eq_Inr [simp]: "p2p_storage r = Inr x \<longleftrightarrow> r = Inr x"
  by (cases r) simp_all

definition receive :: "string \<Rightarrow> 'a incoming list \<Rightarrow> ('a option \<times> 'a incoming list) p2p_result" where
  "receive type_description responses =
     (case responses of
        [] \<Rightarrow> Inl (ReceiverChannelTerminated type_description)
      | Elapsed # _ \<Rightarrow> Inl NetworkTimeout
      | Received (Inl e) # _ \<Rightarrow> Inl (ProtobufConversion e)
      | Received (Inr data) # rest \<Rightarrow> Inr (data, rest))"

record p2p_sync_client_config =
  num_headers_per_query :: nat
  num_block_state_diffs_per_query :: nat
  stop_sync_at_block_number :: "block_number option"

definition STEP :: nat where
  "STEP = 1"

definition ALLOWED_SIGNATURES_LENGTH :: nat where
  "ALLOWED_SIGNATURES_LENGTH = 1"

section \<open>Headers\<close>

definition parse_header_for_block ::
  "signed_block_header incoming list \<Rightarrow> block_number \<Rightarrow> storage_txn \<Rightarrow>
   (signed_block_header option \<times> signed_block_header incoming list) p2p_result" where
  "parse_header_for_block responses block_number db =
     res_bind (receive ''headers'' responses) (\<lambda>(maybe_signed_header, responses).
     case maybe_signed_header of
       None \<Rightarrow> Inr (None, responses)
     | Some signed_header \<Rightarrow>
         if block_number \<noteq> sbh_block_number (sh_block_header signed_header)
         then Inl (HeadersUnordered block_number (sbh_block_number (sh_block_header signed_header)))
         else if length (sh_signatures signed_header) \<noteq> ALLOWED_SIGNATURES_LENGTH
         then Inl (WrongSignaturesLength (sh_signatures signed_header))
         else Inr (Some signed_header, responses))"

definition write_header_to_storage :: "signed_block_header \<Rightarrow> storage_txn \<Rightarrow> storage_txn sresult" where
  "write_header_to_storage signed_header db =
     (let header = sh_block_header signed_header in
      res_bind (append_header db (sbh_block_number header) header) (\<lambda>txn.
      case sh_signatures signed_header of
        [] \<Rightarrow> Inl (SPanic ''Vec::first should return a value on a vector of size 1'')
      | signature # _ \<Rightarrow> append_block_signature txn (sbh_block_number header) signature))"

section \<open>State diffs\<close>

text \<open>Inserting in an \<open>IndexMap\<close>, an error if the key was there.\<close>

definition insert_new :: "'k \<Rightarrow> 'v \<Rightarrow> ('k \<times> 'v) list \<Rightarrow> ('k \<times> 'v) list p2p_result" where
  "insert_new k v m = (if map_of m k \<noteq> None then Inl ConflictingStateDiffParts else Inr (m @ [(k, v)]))"

fun unite_contract_storage ::
  "contract_address \<Rightarrow> (storage_key \<times> felt) list \<Rightarrow> (contract_address \<times> (storage_key \<times> felt) list) list \<Rightarrow>
   (contract_address \<times> (storage_key \<times> felt) list) list p2p_result" where
  "unite_contract_storage a es [] = Inr [(a, es)]"
| "unite_contract_storage a es ((a', es') # rest) =
     (if a' = a
      then res_bind (fold_res (\<lambda>(k, v). insert_new k v) es es') (\<lambda>es'. Inr ((a', es') # rest))
      else res_bind (unite_contract_storage a es rest) (\<lambda>rest. Inr ((a', es') # rest)))"

fun unite_state_diffs :: "thin_state_diff \<Rightarrow> state_diff_chunk \<Rightarrow> thin_state_diff p2p_result" where
  "unite_state_diffs state_diff (ContractDiff contract_diff) =
     res_bind
       (case cd_class_hash contract_diff of
          None \<Rightarrow> Inr state_diff
        | Some class_hash \<Rightarrow>
            res_bind (insert_new (cd_contract_address contract_diff) class_hash (tsd_deployed_contracts state_diff))
              (\<lambda>m. Inr (state_diff\<lparr>tsd_deployed_contracts := m\<rparr>))) (\<lambda>state_diff.
     res_bind
       (case cd_nonce contract_diff of
          None \<Rightarrow> Inr state_diff
        | Some nonce \<Rightarrow>
            res_bind (insert_new (cd_contract_address contract_diff) nonce (tsd_nonces state_diff))
              (\<lambda>m. Inr (state_diff\<lparr>tsd_nonces := m\<rparr>))) (\<lambda>state_diff.
     if cd_storage_diffs contract_diff = [] then Inr state_diff
     else res_bind (unite_contract_storage (cd_contract_address contract_diff) (cd_storage_diffs contract_diff)
                      (tsd_storage_diffs state_diff))
            (\<lambda>m. Inr (state_diff\<lparr>tsd_storage_diffs := m\<rparr>))))"
| "unite_state_diffs state_diff (DeclaredClass class_hash compiled_class_hash) =
     res_bind (insert_new class_hash compiled_class_hash (tsd_declared_classes state_diff))
       (\<lambda>m. Inr (state_diff\<lparr>tsd_declared_classes := m\<rparr>))"
| "unite_state_diffs state_diff (DeprecatedDeclaredClass class_hash) =
     Inr (state_diff\<lparr>tsd_deprecated_declared_classes := tsd_deprecated_declared_classes state_diff @ [class_hash]\<rparr>)"

definition validate_deprecated_declared_classes_non_conflicting :: "thin_state_diff \<Rightarrow> unit p2p_result" where
  "validate_deprecated_declared_classes_non_conflicting state_diff =
     (if length (tsd_deprecated_declared_classes state_diff) =
         card (set (tsd_deprecated_declared_classes state_diff))
      then Inr () else Inl ConflictingStateDiffParts)"

definition empty_state_diff :: thin_state_diff where
  "empty_state_diff =
     \<lparr>tsd_deployed_contracts = [], tsd_storage_diffs = [], tsd_declared_classes = [],
      tsd_deprecated_declared_classes = [], tsd_nonces = [], tsd_replaced_classes = []\<rparr>"

text \<open>
  The loop that collects the chunks of a block: the length so far and the one before the last chunk,
  and the diff so far. It ends with the diff and its lengths, or with the end message (\<open>None\<close>).
\<close>

fun collect_chunks ::
  "nat \<Rightarrow> state_diff_chunk incoming list \<Rightarrow> nat \<Rightarrow> nat \<Rightarrow> thin_state_diff \<Rightarrow>
   ((thin_state_diff \<times> nat \<times> nat) option \<times> state_diff_chunk incoming list) p2p_result" where
  "collect_chunks target responses current prev result =
     (if current < target
      then (case responses of
              [] \<Rightarrow> Inl (ReceiverChannelTerminated ''state diffs'')
            | Elapsed # _ \<Rightarrow> Inl NetworkTimeout
            | Received (Inl e) # _ \<Rightarrow> Inl (ProtobufConversion e)
            | Received (Inr None) # responses' \<Rightarrow>
                if current = 0 then Inr (None, responses') else Inl (WrongStateDiffLength target [current])
            | Received (Inr (Some chunk)) # responses' \<Rightarrow>
                if chunk_is_empty chunk then Inl EmptyStateDiffPart
                else res_bind (unite_state_diffs result chunk) (\<lambda>result.
                       collect_chunks target responses' (current + chunk_len chunk) current result))
      else Inr (Some (result, prev, current), responses))"

declare collect_chunks.simps [simp del]

definition parse_state_diff_for_block ::
  "state_diff_chunk incoming list \<Rightarrow> block_number \<Rightarrow> storage_txn \<Rightarrow>
   ((thin_state_diff \<times> block_number) option \<times> state_diff_chunk incoming list) p2p_result" where
  "parse_state_diff_for_block responses block_number db =
     res_bind (p2p_storage (get_block_header db block_number)) (\<lambda>header.
     case header of
       None \<Rightarrow> Inl (P2pPanic ''A header with number lower than the header marker is missing'')
     | Some header \<Rightarrow>
         (case sbh_state_diff_length header of
            None \<Rightarrow> Inl (OldHeaderInStorage block_number ''state_diff_length'')
          | Some target \<Rightarrow>
              res_bind (collect_chunks target responses 0 0 empty_state_diff) (\<lambda>(collected, responses).
              case collected of
                None \<Rightarrow> Inr (None, responses)
              | Some (result, prev, current) \<Rightarrow>
                  if current \<noteq> target then Inl (WrongStateDiffLength target [prev, current])
                  else res_bind (validate_deprecated_declared_classes_non_conflicting result) (\<lambda>_.
                         Inr (Some (result, block_number), responses)))))"

definition write_state_diff_to_storage ::
  "serde_sizes \<Rightarrow> thin_state_diff \<times> block_number \<Rightarrow> storage_txn \<Rightarrow> storage_txn sresult" where
  "write_state_diff_to_storage sz data db = append_state_diff sz db (snd data) (fst data)"

section \<open>Streams\<close>

datatype 'a stream_state =
    Sending block_number
  | Reading block_number block_number "'a incoming list"
  | Ended

datatype block_number_limit = Unlimited | HeaderMarkerLimit

text \<open>The limit of the next query, \<open>None\<close> when the stream waits for a header; \<open>u64\<close> subtraction wraps.\<close>

definition query_limit :: "block_number_limit \<Rightarrow> nat \<Rightarrow> storage_txn \<Rightarrow> block_number \<Rightarrow> nat option" where
  "query_limit block_number_limit num_blocks_per_query db current_block_number =
     (case block_number_limit of
        Unlimited \<Rightarrow> Some num_blocks_per_query
      | HeaderMarkerLimit \<Rightarrow>
          let limit = min ((get_header_marker db + 2 ^ 64 - current_block_number) mod 2 ^ 64) num_blocks_per_query
          in if limit = 0 then None else Some limit)"

definition query_from :: "block_number \<Rightarrow> nat \<Rightarrow> query" where
  "query_from current_block_number limit =
     \<lparr>q_start_block = BNumber current_block_number, q_direction = Forward, q_limit = limit, q_step = STEP\<rparr>"

definition stream_send ::
  "block_number_limit \<Rightarrow> nat \<Rightarrow> storage_txn \<Rightarrow> block_number \<Rightarrow> (query \<Rightarrow> 'a incoming list) \<Rightarrow> 'a stream_state" where
  "stream_send block_number_limit num_blocks_per_query db current_block_number network =
     (case query_limit block_number_limit num_blocks_per_query db current_block_number of
        None \<Rightarrow> Sending current_block_number
      | Some limit \<Rightarrow>
          Reading current_block_number ((current_block_number + limit) mod 2 ^ 64)
            (network (query_from current_block_number limit)))"

text \<open>The end message of a query is awaited without a timeout.\<close>

fun consume_fin :: "string \<Rightarrow> 'a incoming list \<Rightarrow> unit p2p_result" where
  "consume_fin type_description [] = Inl (ReceiverChannelTerminated type_description)"
| "consume_fin type_description (Elapsed # responses) = consume_fin type_description responses"
| "consume_fin type_description (Received (Inr None) # _) = Inr ()"
| "consume_fin type_description (Received _ # _) = Inl TooManyResponses"

text \<open>
  The next thing a stream that reads responses does: it yields the data of a block, goes back to
  sending, or fails.
\<close>

definition stream_read ::
  "string \<Rightarrow> ('a incoming list \<Rightarrow> block_number \<Rightarrow> storage_txn \<Rightarrow> ('o option \<times> 'a incoming list) p2p_result) \<Rightarrow>
   block_number option \<Rightarrow> storage_txn \<Rightarrow> block_number \<Rightarrow> block_number \<Rightarrow> 'a incoming list \<Rightarrow>
   ('a stream_state \<times> 'o option) p2p_result" where
  "stream_read type_description parse stop db current_block_number end_block_number responses =
     (if current_block_number < end_block_number
      then res_bind (parse responses current_block_number db) (\<lambda>(output, responses).
           case output of
             None \<Rightarrow> Inr (Sending current_block_number, None)
           | Some output \<Rightarrow>
               (let next_block_number = (current_block_number + 1) mod 2 ^ 64 in
                Inr (case stop of
                       None \<Rightarrow> Reading next_block_number end_block_number responses
                     | Some stop_block \<Rightarrow>
                         if stop_block \<le> next_block_number then Ended
                         else Reading next_block_number end_block_number responses,
                     Some output)))
      else res_bind (consume_fin type_description responses) (\<lambda>_. Inr (Sending current_block_number, None)))"

section \<open>The client\<close>

record client =
  cl_db :: storage_txn
  cl_headers :: "signed_block_header stream_state"
  cl_state_diffs :: "state_diff_chunk stream_state"
  cl_failed :: "p2p_sync_error option"

definition client_start :: "storage_txn \<Rightarrow> client" where
  "client_start db =
     \<lparr>cl_db = db, cl_headers = Sending (get_header_marker db), cl_state_diffs = Sending (get_state_marker db),
      cl_failed = None\<rparr>"

text \<open>An item of a stream is written to the storage.\<close>

definition write_yielded ::
  "('o \<Rightarrow> storage_txn \<Rightarrow> storage_txn sresult) \<Rightarrow> 'o option \<Rightarrow> storage_txn \<Rightarrow> storage_txn p2p_result" where
  "write_yielded write output db =
     (case output of None \<Rightarrow> Inr db | Some data \<Rightarrow> p2p_storage (write data db))"

definition headers_read :: "p2p_sync_client_config \<Rightarrow> client \<Rightarrow> client" where
  "headers_read config cl =
     (case cl_headers cl of
        Reading current_block_number end_block_number responses \<Rightarrow>
          (case res_bind (stream_read ''headers'' parse_header_for_block (stop_sync_at_block_number config)
                            (cl_db cl) current_block_number end_block_number responses)
                  (\<lambda>(stream, output).
                   res_bind (write_yielded write_header_to_storage output (cl_db cl)) (\<lambda>db. Inr (stream, db))) of
             Inl e \<Rightarrow> cl\<lparr>cl_failed := Some e\<rparr>
           | Inr (stream, db) \<Rightarrow> cl\<lparr>cl_headers := stream, cl_db := db\<rparr>)
      | _ \<Rightarrow> cl)"

definition state_diffs_read :: "serde_sizes \<Rightarrow> p2p_sync_client_config \<Rightarrow> client \<Rightarrow> client" where
  "state_diffs_read sz config cl =
     (case cl_state_diffs cl of
        Reading current_block_number end_block_number responses \<Rightarrow>
          (case res_bind (stream_read ''state diffs'' parse_state_diff_for_block (stop_sync_at_block_number config)
                            (cl_db cl) current_block_number end_block_number responses)
                  (\<lambda>(stream, output).
                   res_bind (write_yielded (write_state_diff_to_storage sz) output (cl_db cl))
                     (\<lambda>db. Inr (stream, db))) of
             Inl e \<Rightarrow> cl\<lparr>cl_failed := Some e\<rparr>
           | Inr (stream, db) \<Rightarrow> cl\<lparr>cl_state_diffs := stream, cl_db := db\<rparr>)
      | _ \<Rightarrow> cl)"

definition headers_send ::
  "p2p_sync_client_config \<Rightarrow> (query \<Rightarrow> signed_block_header incoming list) \<Rightarrow> client \<Rightarrow> client" where
  "headers_send config network cl =
     (case cl_headers cl of
        Sending current_block_number \<Rightarrow>
          cl\<lparr>cl_headers := stream_send Unlimited (num_headers_per_query config) (cl_db cl)
                             current_block_number network\<rparr>
      | _ \<Rightarrow> cl)"

definition state_diffs_send ::
  "p2p_sync_client_config \<Rightarrow> (query \<Rightarrow> state_diff_chunk incoming list) \<Rightarrow> client \<Rightarrow> client" where
  "state_diffs_send config network cl =
     (case cl_state_diffs cl of
        Sending current_block_number \<Rightarrow>
          cl\<lparr>cl_state_diffs := stream_send HeaderMarkerLimit (num_block_state_diffs_per_query config) (cl_db cl)
                                 current_block_number network\<rparr>
      | _ \<Rightarrow> cl)"

text \<open>
  One turn of the merged streams. The network answers with any list of messages; the entries of a
  received \<open>IndexMap\<close> have different keys (\<open>incoming_wf\<close>). When both streams have ended the \<open>expect\<close> of
  \<open>run\<close> panics.
\<close>

fun chunk_wf :: "state_diff_chunk \<Rightarrow> bool" where
  "chunk_wf (ContractDiff contract_diff) \<longleftrightarrow> distinct (map fst (cd_storage_diffs contract_diff))"
| "chunk_wf _ \<longleftrightarrow> True"

definition incoming_wf :: "state_diff_chunk incoming list \<Rightarrow> bool" where
  "incoming_wf responses \<longleftrightarrow> (\<forall>chunk. Received (Inr (Some chunk)) \<in> set responses \<longrightarrow> chunk_wf chunk)"

inductive client_step :: "serde_sizes \<Rightarrow> p2p_sync_client_config \<Rightarrow> client \<Rightarrow> client \<Rightarrow> bool"
  for sz config where
  send_headers: "cl_failed cl = None \<Longrightarrow> client_step sz config cl (headers_send config network cl)"
| send_state_diffs: "cl_failed cl = None \<Longrightarrow> \<forall>query. incoming_wf (network query) \<Longrightarrow>
    client_step sz config cl (state_diffs_send config network cl)"
| read_headers: "cl_failed cl = None \<Longrightarrow> client_step sz config cl (headers_read config cl)"
| read_state_diffs: "cl_failed cl = None \<Longrightarrow> client_step sz config cl (state_diffs_read sz config cl)"
| send_failed: "cl_failed cl = None \<Longrightarrow> cl_headers cl = Sending b \<or> cl_state_diffs cl = Sending b \<Longrightarrow>
    client_step sz config cl (cl\<lparr>cl_failed := Some P2pSendError\<rparr>)"
| streams_ended: "cl_failed cl = None \<Longrightarrow> cl_headers cl = Ended \<Longrightarrow> cl_state_diffs cl = Ended \<Longrightarrow>
    client_step sz config cl (cl\<lparr>cl_failed := Some (P2pPanic ''Sync data stream should never end'')\<rparr>)"

inductive client_reachable :: "serde_sizes \<Rightarrow> p2p_sync_client_config \<Rightarrow> storage_txn \<Rightarrow> client \<Rightarrow> bool"
  for sz config db where
  client_init: "client_reachable sz config db (client_start db)"
| client_next: "client_reachable sz config db cl \<Longrightarrow> client_step sz config cl cl' \<Longrightarrow>
    client_reachable sz config db cl'"

section \<open>What uniting chunks gives\<close>

text \<open>A diff put together from chunks: its keys differ, and it has no replaced classes.\<close>

definition united :: "thin_state_diff \<Rightarrow> bool" where
  "united d \<longleftrightarrow> diff_wf d \<and> tsd_replaced_classes d = []"

lemma united_empty [simp]: "united empty_state_diff" "diff_entries empty_state_diff = 0"
  by (simp_all add: united_def diff_wf_def empty_state_diff_def diff_entries_def)

lemma insert_new_eq_Inr [simp]: "insert_new k v m = Inr m' \<longleftrightarrow> k \<notin> fst ` set m \<and> m' = m @ [(k, v)]"
  by (auto simp: insert_new_def map_of_eq_None_iff)

lemma insert_all_eq_Inr:
  "fold_res (\<lambda>(k, v). insert_new k v) es m = Inr m' \<longleftrightarrow>
     m' = m @ es \<and> distinct (map fst es) \<and> fst ` set es \<inter> fst ` set m = {}"
proof (induction es arbitrary: m)
  case Nil
  then show ?case by auto
next
  case (Cons e es)
  obtain k v where e: "e = (k, v)" by (cases e)
  show ?case by (auto simp: e res_bind_eq_Inr Cons)
qed

lemma unite_contract_storage_spec:
  assumes "unite_contract_storage a es m = Inr m'" and "distinct (map fst es)"
    and "distinct (map fst m)" and "\<forall>(a, es) \<in> set m. distinct (map fst es)"
  shows "map fst m' = (if a \<in> fst ` set m then map fst m else map fst m @ [a]) \<and> distinct (map fst m') \<and>
    (\<forall>(a, es) \<in> set m'. distinct (map fst es)) \<and>
    sum_list (map (length \<circ> snd) m') = sum_list (map (length \<circ> snd) m) + length es"
  using assms
proof (induction a es m arbitrary: m' rule: unite_contract_storage.induct)
  case (1 a es)
  then show ?case by auto
next
  case (2 a es a' es' rest)
  show ?case
  proof (cases "a' = a")
    case True
    with 2(2) obtain es2 where "fold_res (\<lambda>(k, v). insert_new k v) es es' = Inr es2"
      and m': "m' = (a', es2) # rest" by (auto simp: res_bind_eq_Inr)
    then have "es2 = es' @ es" "fst ` set es \<inter> fst ` set es' = {}" by (simp_all add: insert_all_eq_Inr)
    with m' True 2(3-5) show ?thesis by auto
  next
    case False
    with 2(2) obtain rest' where r: "unite_contract_storage a es rest = Inr rest'"
      and m': "m' = (a', es') # rest'" by (auto simp: res_bind_eq_Inr)
    have spec: "map fst rest' = (if a \<in> fst ` set rest then map fst rest else map fst rest @ [a]) \<and>
        distinct (map fst rest') \<and> (\<forall>(a, es) \<in> set rest'. distinct (map fst es)) \<and>
        sum_list (map (length \<circ> snd) rest') = sum_list (map (length \<circ> snd) rest) + length es"
      by (rule 2(1) [OF False r 2(3)]) (use 2(4,5) in auto)
    then have "fst ` set rest' = insert a (fst ` set rest)"
      by (metis (no_types, opaque_lifting) Un_insert_right append_Nil2 insert_absorb list.set_map list.simps(15) set_append sup_bot_right)
    with spec m' False 2(4,5) show ?thesis by (auto simp: comp_def)
  qed
qed

lemma unite_state_diffs_spec:
  assumes "unite_state_diffs d chunk = Inr d'" and "chunk_wf chunk" and "united d"
  shows "united d' \<and> diff_entries d' = diff_entries d + chunk_len chunk"
proof (cases chunk)
  case (ContractDiff c)
  let ?a = "cd_contract_address c"
  define d1 where "d1 = (case cd_class_hash c of None \<Rightarrow> d
    | Some h \<Rightarrow> d\<lparr>tsd_deployed_contracts := tsd_deployed_contracts d @ [(?a, h)]\<rparr>)"
  define d2 where "d2 = (case cd_nonce c of None \<Rightarrow> d1
    | Some n \<Rightarrow> d1\<lparr>tsd_nonces := tsd_nonces d1 @ [(?a, n)]\<rparr>)"
  have 1: "united d1 \<and> diff_entries d1 = diff_entries d + (if cd_class_hash c \<noteq> None then 1 else 0)"
    using assms(1,3)
    by (auto simp: ContractDiff d1_def united_def diff_wf_def diff_entries_def res_bind_eq_Inr split: option.splits)
  have 2: "united d2 \<and> diff_entries d2 = diff_entries d1 + (if cd_nonce c \<noteq> None then 1 else 0)"
    using assms(1) 1
    by (auto simp: ContractDiff d1_def d2_def united_def diff_wf_def diff_entries_def res_bind_eq_Inr split: option.splits)
  have rest: "(if cd_storage_diffs c = [] then Inr d2
      else res_bind (unite_contract_storage ?a (cd_storage_diffs c) (tsd_storage_diffs d2))
             (\<lambda>m. Inr (d2\<lparr>tsd_storage_diffs := m\<rparr>))) = Inr d'"
    using assms(1)
    by (cases "cd_class_hash c"; cases "cd_nonce c") (auto simp: ContractDiff d1_def d2_def res_bind_eq_Inr)
  have 3: "united d' \<and> diff_entries d' = diff_entries d2 + length (cd_storage_diffs c)"
  proof (cases "cd_storage_diffs c = []")
    case True
    with rest 2 show ?thesis by simp
  next
    case False
    with rest obtain m where m: "unite_contract_storage ?a (cd_storage_diffs c) (tsd_storage_diffs d2) = Inr m"
      and d': "d' = d2\<lparr>tsd_storage_diffs := m\<rparr>" by (auto simp: res_bind_eq_Inr)
    have "distinct (map fst m) \<and> (\<forall>(a, es) \<in> set m. distinct (map fst es)) \<and>
        sum_list (map (length \<circ> snd) m) = sum_list (map (length \<circ> snd) (tsd_storage_diffs d2)) + length (cd_storage_diffs c)"
      using unite_contract_storage_spec [OF m] 2 assms(2) by (auto simp: ContractDiff united_def diff_wf_def)
    with d' 2 show ?thesis by (auto simp: united_def diff_wf_def diff_entries_def)
  qed
  from 1 2 3 show ?thesis by (simp add: ContractDiff)
qed (use assms in \<open>auto simp: united_def diff_wf_def diff_entries_def res_bind_eq_Inr\<close>)

lemma incoming_wf_simps [simp]:
  "incoming_wf []"
  "incoming_wf (Received (Inr (Some chunk)) # rs) \<longleftrightarrow> chunk_wf chunk \<and> incoming_wf rs"
  "incoming_wf (Received (Inr None) # rs) \<longleftrightarrow> incoming_wf rs"
  "incoming_wf (Received (Inl e) # rs) \<longleftrightarrow> incoming_wf rs"
  "incoming_wf (Elapsed # rs) \<longleftrightarrow> incoming_wf rs"
  by (auto simp: incoming_wf_def)

lemma collect_chunks_spec:
  assumes "collect_chunks target rs current prev result = Inr (collected, rs')" and "incoming_wf rs"
    and "united result" and "current = diff_entries result"
  shows "incoming_wf rs' \<and> (case collected of None \<Rightarrow> True
    | Some (d, p, c) \<Rightarrow> united d \<and> c = diff_entries d \<and> target \<le> c)"
  using assms
proof (induction target rs current prev result arbitrary: collected rs' rule: collect_chunks.induct)
  case (1 target rs current prev result)
  note eq = 1(2) [unfolded collect_chunks.simps [of target rs]]
  show ?case
  proof (cases "current < target")
    case False
    with eq 1(3-5) show ?thesis by auto
  next
    case True
    with eq obtain msg rs2 where rs: "rs = Received (Inr msg) # rs2"
      by (auto split: list.splits incoming.splits sum.splits)
    show ?thesis
    proof (cases msg)
      case None
      with eq True 1(3) show ?thesis by (auto simp: rs split: if_splits)
    next
      case (Some chunk)
      with eq True obtain result2 where ne: "\<not> chunk_is_empty chunk"
        and u: "unite_state_diffs result chunk = Inr result2"
        and rest: "collect_chunks target rs2 (current + chunk_len chunk) current result2 = Inr (collected, rs')"
        by (auto simp: rs res_bind_eq_Inr split: if_splits)
      have wf: "chunk_wf chunk" "incoming_wf rs2" using 1(3) by (simp_all add: rs Some)
      from unite_state_diffs_spec [OF u wf(1) 1(4)] have "united result2"
        "current + chunk_len chunk = diff_entries result2" using 1(5) by simp_all
      with 1(1) [OF True rs refl refl Some ne u rest wf(2)] show ?thesis by blast
    qed
  qed
qed

lemma parse_state_diff_spec:
  assumes "parse_state_diff_for_block rs b db = Inr (output, rs')" and "incoming_wf rs"
  shows "incoming_wf rs' \<and> (case output of None \<Rightarrow> True
    | Some (d, b') \<Rightarrow> b' = b \<and> united d \<and> distinct (tsd_deprecated_declared_classes d) \<and>
        (\<exists>h. get_block_header db b = Inr (Some h) \<and> sbh_state_diff_length h = Some (diff_entries d)))"
proof -
  from assms(1) obtain h where h1: "get_block_header db b = Inr (Some h)"
    by (cases "get_block_header db b") (auto simp: parse_state_diff_for_block_def split: option.splits)
  with assms(1) obtain target where h2: "sbh_state_diff_length h = Some target"
    by (cases "sbh_state_diff_length h") (simp_all add: parse_state_diff_for_block_def)
  note h = h1 h2
  from assms(1) h obtain collected rs2
    where c: "collect_chunks target rs 0 0 empty_state_diff = Inr (collected, rs2)"
    and out: "(case collected of None \<Rightarrow> Inr (None, rs2)
      | Some (result, prev, current) \<Rightarrow>
          if current \<noteq> target then Inl (WrongStateDiffLength target [prev, current])
          else res_bind (validate_deprecated_declared_classes_non_conflicting result) (\<lambda>_. Inr (Some (result, b), rs2)))
      = Inr (output, rs')"
    by (cases "collect_chunks target rs 0 0 empty_state_diff") (auto simp: parse_state_diff_for_block_def)
  note spec = collect_chunks_spec [OF c assms(2) united_empty(1) united_empty(2) [symmetric]]
  show ?thesis
  proof (cases collected)
    case None
    with spec out show ?thesis by auto
  next
    case (Some x)
    obtain d p n where x: "x = (d, p, n)" by (cases x) auto
    from out have "n = target" "validate_deprecated_declared_classes_non_conflicting d = Inr ()"
      "output = Some (d, b)" "rs' = rs2"
      by (auto simp: Some x res_bind_eq_Inr split: if_splits)
    with spec h show ?thesis
      by (auto simp: Some x validate_deprecated_declared_classes_non_conflicting_def card_distinct split: if_splits)
  qed
qed

section \<open>What the client stores\<close>

lemma write_header_spec:
  assumes w: "write_header_to_storage signed_header db = Inr db'" and rel: "header_rel db hs"
    and bound: "get_header_marker db' < u64_max"
  shows "sbh_block_number (sh_block_header signed_header) = length hs \<and>
    header_rel db' (hs @ [sh_block_header signed_header]) \<and> state_part db' = state_part db \<and>
    get_header_marker db' = Suc (length hs) \<and> get_block_signature db' (length hs) \<noteq> None \<and>
    (\<forall>b. get_block_signature db b \<noteq> None \<longrightarrow> get_block_signature db' b \<noteq> None)"
proof -
  let ?h = "sh_block_header signed_header" and ?b = "sbh_block_number (sh_block_header signed_header)"
  from w obtain u sig where u: "append_header db ?b ?h = Inr u" and s: "append_block_signature u ?b sig = Inr db'"
    by (cases "sh_signatures signed_header") (auto simp: write_header_to_storage_def Let_def res_bind_eq_Inr)
  note eq = append_header_eq_Inr [OF u]
  have b: "?b = length hs" using eq(1) rel by (simp add: header_rel_def)
  from append_block_signature_eq_Inr [OF s] obtain t where t: "db' = u\<lparr>tx_block_signatures := t\<rparr>" ..
  have m: "get_header_marker db' = Suc ?b"
    by (simp add: t get_header_marker_def) (simp add: eq(3))
  with bound b have "?b < u64_max" by simp
  with append_header_rel [OF rel u] have "header_rel u (hs @ [?h])" by blast
  from append_block_signature_rel [OF this s] have "header_rel db' (hs @ [?h])" .
  moreover have "state_part db' = state_part db"
    using append_header_parts(2) [OF u] append_block_signature_parts(2) [OF s] by simp
  moreover have "get_block_signature db' ?b \<noteq> None"
    "get_block_signature db b \<noteq> None \<longrightarrow> get_block_signature db' b \<noteq> None" for b
    using s eq(3)
    by (auto simp: append_block_signature_def get_block_signature_def res_bind_eq_Inr tbl_get_def tbl_insert_def
        db_res_def set_marker_def split: if_splits sum.splits)
  ultimately show ?thesis using b m by simp
qed

lemma write_state_diff_spec:
  assumes w: "write_state_diff_to_storage sz (d, b) db = Inr db'" and rel: "state_rel db ds"
    and wf: "diff_wf d" and sz: "sizes_positive sz"
  shows "b = length ds \<and> state_rel db' (ds @ [d]) \<and> header_part db' = header_part db"
  using append_state_diff_rel [OF w [unfolded write_state_diff_to_storage_def, simplified] rel wf sz]
    append_state_diff_state_frame [OF w [unfolded write_state_diff_to_storage_def, simplified]]
  by (simp add: state_frame_def)

fun stream_at :: "block_number \<Rightarrow> 'a stream_state \<Rightarrow> bool" where
  "stream_at b (Sending current) \<longleftrightarrow> current = b"
| "stream_at b (Reading current _ _) \<longleftrightarrow> current = b"
| "stream_at b Ended \<longleftrightarrow> True"

fun reading_ok :: "block_number \<Rightarrow> state_diff_chunk stream_state \<Rightarrow> bool" where
  "reading_ok marker (Reading _ end_block_number responses) \<longleftrightarrow>
     end_block_number \<le> marker \<and> incoming_wf responses"
| "reading_ok marker _ \<longleftrightarrow> True"

text \<open>
  The headers \<open>hs\<close> and diffs \<open>ds\<close> that the client added to a storage that had \<open>hs0\<close> and \<open>ds0\<close>: the
  headers are numbered and signed, and every diff has as many entries as its header says.
\<close>

definition copied_ok ::
  "storage_txn \<Rightarrow> block_header list \<Rightarrow> thin_state_diff list \<Rightarrow> block_header list \<Rightarrow> thin_state_diff list \<Rightarrow> bool" where
  "copied_ok db hs0 ds0 hs ds \<longleftrightarrow>
     header_rel db (hs0 @ hs) \<and> state_rel db (ds0 @ ds) \<and> length (ds0 @ ds) \<le> length (hs0 @ hs) \<and>
     (\<forall>i < length hs. sbh_block_number (hs ! i) = length hs0 + i \<and>
        get_block_signature db (length hs0 + i) \<noteq> None) \<and>
     (\<forall>i < length ds. diff_wf (ds ! i) \<and> tsd_replaced_classes (ds ! i) = [] \<and>
        distinct (tsd_deprecated_declared_classes (ds ! i)) \<and>
        sbh_state_diff_length ((hs0 @ hs) ! (length ds0 + i)) = Some (diff_entries (ds ! i)))"

definition missing_header_panic :: p2p_sync_error where
  "missing_header_panic = P2pPanic ''A header with number lower than the header marker is missing''"

definition client_inv ::
  "block_header list \<Rightarrow> thin_state_diff list \<Rightarrow> block_header list \<Rightarrow> thin_state_diff list \<Rightarrow> client \<Rightarrow> bool" where
  "client_inv hs0 ds0 hs ds cl \<longleftrightarrow>
     copied_ok (cl_db cl) hs0 ds0 hs ds \<and>
     stream_at (length (hs0 @ hs)) (cl_headers cl) \<and> stream_at (length (ds0 @ ds)) (cl_state_diffs cl) \<and>
     reading_ok (length (hs0 @ hs)) (cl_state_diffs cl) \<and> cl_failed cl \<noteq> Some missing_header_panic"

lemma copied_ok_header:
  assumes "copied_ok db hs0 ds0 hs ds" and w: "write_header_to_storage signed_header db = Inr db'"
    and bound: "get_header_marker db' < u64_max"
  shows "copied_ok db' hs0 ds0 (hs @ [sh_block_header signed_header]) ds"
proof -
  have rel: "header_rel db (hs0 @ hs)" and len: "length (ds0 @ ds) \<le> length (hs0 @ hs)"
    using assms(1) by (simp_all add: copied_ok_def)
  note spec = write_header_spec [OF w rel bound]
  have "state_rel db' (ds0 @ ds)" using spec assms(1) state_part_rel [of db' db] by (simp add: copied_ok_def)
  moreover have "(hs0 @ hs @ [sh_block_header signed_header]) ! (length ds0 + i) = (hs0 @ hs) ! (length ds0 + i)"
    if "i < length ds" for i
    using that len by (auto simp: nth_append)
  moreover have "(hs @ [sh_block_header signed_header]) ! i = (if i < length hs then hs ! i else sh_block_header signed_header)"
    if "i < Suc (length hs)" for i
    using that by (auto simp: nth_append less_Suc_eq)
  ultimately show ?thesis using spec assms(1) len by (simp add: copied_ok_def less_Suc_eq)
qed

lemma copied_ok_diff:
  assumes ok: "copied_ok db hs0 ds0 hs ds" and w: "write_state_diff_to_storage sz (d, b) db = Inr db'"
    and d: "united d" "distinct (tsd_deprecated_declared_classes d)" and sz: "sizes_positive sz"
    and h: "get_block_header db b = Inr (Some h)" "sbh_state_diff_length h = Some (diff_entries d)"
    and b: "b < length (hs0 @ hs)"
  shows "copied_ok db' hs0 ds0 hs (ds @ [d])"
proof -
  have rel: "state_rel db (ds0 @ ds)" and hrel: "header_rel db (hs0 @ hs)" using ok by (simp_all add: copied_ok_def)
  from write_state_diff_spec [OF w rel _ sz] d(1) have spec: "b = length (ds0 @ ds)"
    "state_rel db' ((ds0 @ ds) @ [d])" "header_part db' = header_part db" by (simp_all add: united_def)
  have "get_block_signature db' = get_block_signature db"
    using spec(3) by (simp add: header_part_def get_block_signature_def [abs_def])
  moreover have "h = (hs0 @ hs) ! b" using hrel h(1) b by (simp add: header_rel_def)
  ultimately show ?thesis
    using ok spec d h(2) b header_part_rel [OF spec(3)] by (simp add: copied_ok_def united_def nth_append less_Suc_eq)
qed

lemma consume_fin_Inl:
  "consume_fin type_description rs = Inl e \<Longrightarrow> e = TooManyResponses \<or> e = ReceiverChannelTerminated type_description"
  by (induction type_description rs rule: consume_fin.induct) auto

lemma stream_read_Inr:
  assumes "stream_read type_description parse stop db c e rs = Inr (stream, output)"
  shows "output = None \<and> stream = Sending c \<or>
    (\<exists>data rs'. c < e \<and> parse rs c db = Inr (Some data, rs') \<and> output = Some data \<and>
       (stream = Ended \<or> stream = Reading ((c + 1) mod 2 ^ 64) e rs'))"
proof (cases "c < e")
  case True
  with assms obtain out rs' where "parse rs c db = Inr (out, rs')"
    by (cases "parse rs c db") (auto simp: stream_read_def)
  with True assms show ?thesis
    by (cases out; cases stop) (auto simp: stream_read_def Let_def split: if_splits)
next
  case False
  with assms show ?thesis by (cases "consume_fin type_description rs") (auto simp: stream_read_def)
qed

lemma stream_read_Inl:
  assumes "stream_read type_description parse stop db c e rs = Inl err"
  shows "c < e \<and> parse rs c db = Inl err \<or> err = TooManyResponses \<or>
    err = ReceiverChannelTerminated type_description"
proof (cases "c < e")
  case True
  with assms show ?thesis
    by (cases "parse rs c db") (auto simp: stream_read_def Let_def split: option.splits prod.splits)
next
  case False
  with assms show ?thesis
    using consume_fin_Inl [of type_description rs err]
    by (cases "consume_fin type_description rs") (auto simp: stream_read_def)
qed

lemma parse_header_Inl: "parse_header_for_block rs b db = Inl e \<Longrightarrow> e \<noteq> missing_header_panic"
  by (auto simp: parse_header_for_block_def receive_def missing_header_panic_def
      split: list.splits incoming.splits sum.splits option.splits if_splits)

lemma client_inv_failed:
  assumes "client_inv hs0 ds0 hs ds cl" and "e \<noteq> missing_header_panic"
  shows "client_inv hs0 ds0 hs ds (cl\<lparr>cl_failed := Some e\<rparr>)"
  using assms by (simp add: client_inv_def)

lemma reading_ok_mono: "reading_ok m stream \<Longrightarrow> m \<le> n \<Longrightarrow> reading_ok n stream"
  by (cases stream) auto

lemma headers_read_inv:
  assumes inv: "client_inv hs0 ds0 hs ds cl" and bound: "get_header_marker (cl_db (headers_read config cl)) < u64_max"
  shows "\<exists>hs'. client_inv hs0 ds0 hs' ds (headers_read config cl)"
proof (cases "cl_headers cl")
  case (Reading c e rs)
  let ?read = "stream_read ''headers'' parse_header_for_block (stop_sync_at_block_number config) (cl_db cl) c e rs"
  have c: "c = length (hs0 @ hs)" and ok: "copied_ok (cl_db cl) hs0 ds0 hs ds"
    using inv Reading by (simp_all add: client_inv_def)
  show ?thesis
  proof (cases ?read)
    case (Inl err)
    then have "err \<noteq> missing_header_panic"
      using stream_read_Inl [OF Inl] parse_header_Inl by (auto simp: missing_header_panic_def)
    with client_inv_failed [OF inv this] Inl Reading show ?thesis by (auto simp: headers_read_def)
  next
    case (Inr x)
    obtain stream out where x: "x = (stream, out)" by (cases x)
    show ?thesis
    proof (cases out)
      case None
      then have "stream = Sending c" using stream_read_Inr [OF Inr [unfolded x]] by auto
      then have "headers_read config cl = cl\<lparr>cl_headers := Sending c\<rparr>"
        using Inr None by (simp add: headers_read_def Reading x write_yielded_def)
      with inv c show ?thesis by (auto simp: client_inv_def)
    next
      case (Some data)
      show ?thesis
      proof (cases "write_header_to_storage data (cl_db cl)")
        case (Inl f)
        then have "headers_read config cl = cl\<lparr>cl_failed := Some (P2pStorageError f)\<rparr>"
          using Inr Some by (simp add: headers_read_def Reading x write_yielded_def)
        with client_inv_failed [OF inv] show ?thesis by (auto simp: missing_header_panic_def)
      next
        case db': (Inr db')
        then have eq: "headers_read config cl = cl\<lparr>cl_headers := stream, cl_db := db'\<rparr>"
          using Inr Some by (simp add: headers_read_def Reading x write_yielded_def)
        then have b: "get_header_marker db' < u64_max" using bound by simp
        have "header_rel (cl_db cl) (hs0 @ hs)" using ok by (simp add: copied_ok_def)
        from write_header_spec [OF db' this b] b c have "(c + 1) mod 2 ^ 64 = Suc c" by (simp add: u64_max_def)
        then have "stream_at (Suc c) stream" using stream_read_Inr [OF Inr [unfolded x]] Some by auto
        with copied_ok_header [OF ok db' b] inv c
        have "client_inv hs0 ds0 (hs @ [sh_block_header data]) ds (headers_read config cl)"
          unfolding eq client_inv_def by (auto elim: reading_ok_mono)
        then show ?thesis by blast
      qed
    qed
  qed
qed (use inv in \<open>auto simp: headers_read_def\<close>)

lemma parse_state_diff_Inl:
  assumes "header_rel db hs" and "b < length hs" and "parse_state_diff_for_block rs b db = Inl e"
  shows "e \<noteq> missing_header_panic"
proof -
  have h: "get_block_header db b = Inr (Some (hs ! b))" using assms(1,2) by (simp add: header_rel_def)
  have collect: "collect_chunks target rs n p r = Inl e \<Longrightarrow> e \<noteq> missing_header_panic" for target rs n p r
  proof (induction target rs n p r rule: collect_chunks.induct)
    case (1 target rs n p r)
    have unite: "unite_state_diffs r chunk = Inl e \<Longrightarrow> e = ConflictingStateDiffParts" for r chunk
    proof -
      have "fold_res (\<lambda>(k, v). insert_new k v) es m = Inl e \<Longrightarrow> e = ConflictingStateDiffParts" for es m
        by (induction es arbitrary: m) (auto simp: res_bind_eq_Inl insert_new_def split: if_splits)
      then have "unite_contract_storage a es m = Inl e \<Longrightarrow> e = ConflictingStateDiffParts" for a es m
        by (induction a es m rule: unite_contract_storage.induct) (auto simp: res_bind_eq_Inl split: if_splits)
      then show "unite_state_diffs r chunk = Inl e \<Longrightarrow> e = ConflictingStateDiffParts"
        by (cases chunk) (auto simp: res_bind_eq_Inl insert_new_def split: if_splits option.splits)
    qed
    show ?case
    proof (cases "\<exists>chunk rs'. n < target \<and> rs = Received (Inr (Some chunk)) # rs' \<and> \<not> chunk_is_empty chunk")
      case True
      then obtain chunk rs' where t: "n < target" "rs = Received (Inr (Some chunk)) # rs'" "\<not> chunk_is_empty chunk"
        by blast
      with 1(2) have "res_bind (unite_state_diffs r chunk) (collect_chunks target rs' (n + chunk_len chunk) n) = Inl e"
        by (simp add: collect_chunks.simps [of target "_ # _"])
      then show ?thesis
        using unite [of r chunk] 1(1) [OF t(1,2) refl refl refl t(3)]
        by (auto simp: res_bind_eq_Inl missing_header_panic_def)
    next
      case False
      with 1(2) show ?thesis
        by (subst (asm) collect_chunks.simps)
          (auto simp: missing_header_panic_def split: if_splits list.splits incoming.splits sum.splits option.splits)
    qed
  qed
  from assms(3) show ?thesis
    using collect
    by (auto simp: parse_state_diff_for_block_def h res_bind_eq_Inl missing_header_panic_def
        validate_deprecated_declared_classes_non_conflicting_def split: option.splits if_splits)
qed

lemma state_diffs_read_inv:
  assumes inv: "client_inv hs0 ds0 hs ds cl" and bound: "get_header_marker (cl_db cl) < u64_max"
    and sz: "sizes_positive sz"
  shows "\<exists>ds'. client_inv hs0 ds0 hs ds' (state_diffs_read sz config cl)"
proof (cases "cl_state_diffs cl")
  case (Reading c e rs)
  let ?read = "stream_read ''state diffs'' parse_state_diff_for_block (stop_sync_at_block_number config) (cl_db cl) c e rs"
  have c: "c = length (ds0 @ ds)" and e: "e \<le> length (hs0 @ hs)" and wf: "incoming_wf rs"
    and ok: "copied_ok (cl_db cl) hs0 ds0 hs ds"
    using inv Reading by (simp_all add: client_inv_def)
  have hrel: "header_rel (cl_db cl) (hs0 @ hs)" using ok by (simp add: copied_ok_def)
  show ?thesis
  proof (cases ?read)
    case (Inl err)
    have "c < e \<Longrightarrow> parse_state_diff_for_block rs c (cl_db cl) = Inl err \<Longrightarrow> err \<noteq> missing_header_panic"
      by (rule parse_state_diff_Inl [OF hrel]) (use e in simp_all)
    then have "err \<noteq> missing_header_panic" using stream_read_Inl [OF Inl] by (auto simp: missing_header_panic_def)
    with client_inv_failed [OF inv this] Inl Reading show ?thesis by (auto simp: state_diffs_read_def)
  next
    case (Inr x)
    obtain stream out where x: "x = (stream, out)" by (cases x)
    show ?thesis
    proof (cases out)
      case None
      then have "stream = Sending c" using stream_read_Inr [OF Inr [unfolded x]] by auto
      then have "state_diffs_read sz config cl = cl\<lparr>cl_state_diffs := Sending c\<rparr>"
        using Inr None by (simp add: state_diffs_read_def Reading x write_yielded_def)
      with inv c show ?thesis by (auto simp: client_inv_def)
    next
      case (Some data)
      with stream_read_Inr [OF Inr [unfolded x]] obtain rs' where ce: "c < e"
        and parse: "parse_state_diff_for_block rs c (cl_db cl) = Inr (Some data, rs')"
        and stream: "stream = Ended \<or> stream = Reading ((c + 1) mod 2 ^ 64) e rs'" by auto
      obtain d b where data: "data = (d, b)" by (cases data)
      from parse_state_diff_spec [OF parse wf] obtain h where wf': "incoming_wf rs'" and b: "b = c"
        and d: "united d" "distinct (tsd_deprecated_declared_classes d)"
        and h: "get_block_header (cl_db cl) c = Inr (Some h)" "sbh_state_diff_length h = Some (diff_entries d)"
        by (auto simp: data)
      show ?thesis
      proof (cases "write_state_diff_to_storage sz data (cl_db cl)")
        case (Inl f)
        then have "state_diffs_read sz config cl = cl\<lparr>cl_failed := Some (P2pStorageError f)\<rparr>"
          using Inr Some by (simp add: state_diffs_read_def Reading x write_yielded_def)
        with client_inv_failed [OF inv] show ?thesis by (auto simp: missing_header_panic_def)
      next
        case db': (Inr db')
        then have eq: "state_diffs_read sz config cl = cl\<lparr>cl_state_diffs := stream, cl_db := db'\<rparr>"
          using Inr Some by (simp add: state_diffs_read_def Reading x write_yielded_def)
        have "get_header_marker (cl_db cl) = length (hs0 @ hs)" using hrel by (simp add: header_rel_def)
        with bound ce e have "(c + 1) mod 2 ^ 64 = Suc c" by (simp add: u64_max_def)
        then have "stream_at (Suc c) stream" "reading_ok (length (hs0 @ hs)) stream"
          using stream wf' e by auto
        moreover have "copied_ok db' hs0 ds0 hs (ds @ [d])"
          by (rule copied_ok_diff [OF ok db' [unfolded data] d sz]) (use h b ce e in simp_all)
        ultimately have "client_inv hs0 ds0 hs (ds @ [d]) (state_diffs_read sz config cl)"
          using inv c unfolding eq client_inv_def by auto
        then show ?thesis by blast
      qed
    qed
  qed
qed (use inv in \<open>auto simp: state_diffs_read_def\<close>)

lemma sends_inv:
  assumes inv: "client_inv hs0 ds0 hs ds cl" and bound: "get_header_marker (cl_db cl) < u64_max"
  shows "client_inv hs0 ds0 hs ds (headers_send config network cl)"
    and "\<forall>query. incoming_wf (network' query) \<Longrightarrow> client_inv hs0 ds0 hs ds (state_diffs_send config network' cl)"
proof -
  show "client_inv hs0 ds0 hs ds (headers_send config network cl)"
    using inv by (cases "cl_headers cl") (auto simp: headers_send_def client_inv_def stream_send_def split: option.split)
  assume wf: "\<forall>query. incoming_wf (network' query)"
  show "client_inv hs0 ds0 hs ds (state_diffs_send config network' cl)"
  proof (cases "cl_state_diffs cl")
    case (Sending c)
    have m: "get_header_marker (cl_db cl) = length (hs0 @ hs)" and le: "length (ds0 @ ds) \<le> length (hs0 @ hs)"
      and c: "c = length (ds0 @ ds)"
      using inv Sending by (simp_all add: client_inv_def copied_ok_def header_rel_def)
    have sub: "(length (hs0 @ hs) + 2 ^ 64 - c) mod 2 ^ 64 = length (hs0 @ hs) - c"
    proof -
      have "length (hs0 @ hs) + 2 ^ 64 - c = (length (hs0 @ hs) - c) + 2 ^ 64" using le c by simp
      moreover have "length (hs0 @ hs) - c < 2 ^ 64" using bound m by (simp add: u64_max_def)
      ultimately show ?thesis by (metis mod_add_self2 mod_less)
    qed
    have "(c + limit) mod 2 ^ 64 \<le> length (hs0 @ hs)" if "limit \<le> length (hs0 @ hs) - c" for limit
    proof -
      have "c + limit \<le> length (hs0 @ hs)" using that le c by simp
      then show ?thesis using mod_less_eq_dividend [of "c + limit" "2 ^ 64"] by linarith
    qed
    then have "reading_ok (length (hs0 @ hs))
        (stream_send HeaderMarkerLimit (num_block_state_diffs_per_query config) (cl_db cl) c network')"
      using wf m sub by (auto simp: stream_send_def query_limit_def Let_def)
    moreover have "stream_at c (stream_send HeaderMarkerLimit (num_block_state_diffs_per_query config) (cl_db cl) c network')"
      by (simp add: stream_send_def split: option.split)
    ultimately show ?thesis using inv c by (simp add: state_diffs_send_def client_inv_def Sending)
  qed (use inv in \<open>simp_all add: state_diffs_send_def\<close>)
qed

end
