(* ===== verification/P2p_Sync_Props.thy ===== *)
theory P2p_Sync_Props
  imports P2p_Sync_Client Sync
begin

text \<open>
  What the peer-to-peer sync achieves, with the client and the server of two nodes composed.

  \<^item> \<open>over_wire\<close> is the diff that the client puts together from the chunks the server makes of a diff;
    the lemmas compare it with the original.
  \<^item> \<open>honest_run\<close> is the client of \<open>P2p_Sync_Client\<close> when every query is answered by the server of
    \<open>P2p_Sync_Server\<close> on a fixed storage. \<open>honest_inv\<close> holds all along such a run, and from every point of it
    the client can reach the end of the server's chain.
\<close>

section \<open>A diff sent in chunks\<close>

definition entries_at :: "('a \<Rightarrow> 'v option) \<Rightarrow> 'a list \<Rightarrow> ('a \<times> 'v) list" where
  "entries_at f as = concat (map (\<lambda>a. case f a of None \<Rightarrow> [] | Some v \<Rightarrow> [(a, v)]) as)"

definition class_of :: "thin_state_diff \<Rightarrow> contract_address \<Rightarrow> class_hash option" where
  "class_of d = map_of (tsd_deployed_contracts d @ tsd_replaced_classes d)"

definition storage_of :: "thin_state_diff \<Rightarrow> contract_address \<Rightarrow> (storage_key \<times> felt) list option" where
  "storage_of d a = (case map_of (tsd_storage_diffs d) a of Some (e # es) \<Rightarrow> Some (e # es) | _ \<Rightarrow> None)"

definition contracts_over_wire :: "thin_state_diff \<Rightarrow> contract_address list \<Rightarrow> thin_state_diff" where
  "contracts_over_wire d as = empty_state_diff
     \<lparr>tsd_deployed_contracts := entries_at (class_of d) as, tsd_storage_diffs := entries_at (storage_of d) as,
      tsd_nonces := entries_at (map_of (tsd_nonces d)) as\<rparr>"

definition over_wire ::
  "(contract_address set \<Rightarrow> contract_address list) \<Rightarrow> thin_state_diff \<Rightarrow> thin_state_diff" where
  "over_wire ord d = (contracts_over_wire d (ord (changed_contracts d)))
     \<lparr>tsd_declared_classes := tsd_declared_classes d,
      tsd_deprecated_declared_classes := tsd_deprecated_declared_classes d\<rparr>"

text \<open>A diff that can be sent: no contract is both deployed and replaced, and no entry is empty.\<close>

definition servable :: "thin_state_diff \<Rightarrow> bool" where
  "servable d \<longleftrightarrow>
     diff_wf d \<and> distinct (tsd_deprecated_declared_classes d) \<and>
     set (map fst (tsd_deployed_contracts d)) \<inter> set (map fst (tsd_replaced_classes d)) = {} \<and>
     (\<forall>(a, es) \<in> set (tsd_storage_diffs d). es \<noteq> [])"

lemma entries_at_simps [simp]:
  "entries_at f [] = []"
  "entries_at f (as @ bs) = entries_at f as @ entries_at f bs"
  "entries_at f [a] = (case f a of None \<Rightarrow> [] | Some v \<Rightarrow> [(a, v)])"
  by (simp_all add: entries_at_def)

lemma set_entries_at: "set (entries_at f as) = {(a, v). a \<in> set as \<and> f a = Some v}"
  by (auto simp: entries_at_def split: option.splits)

lemma keys_entries_at: "fst ` set (entries_at f as) = {a \<in> set as. f a \<noteq> None}"
  by (force simp: set_entries_at)

lemma distinct_entries_at: "distinct as \<Longrightarrow> distinct (map fst (entries_at f as))"
proof (induction as rule: rev_induct)
  case (snoc a as)
  then show ?case using keys_entries_at [of f as] by (auto split: option.splits)
qed simp

lemma map_of_entries_at:
  assumes "distinct as"
  shows "map_of (entries_at f as) a = (if a \<in> set as then f a else None)"
proof (cases "a \<in> set as \<and> f a \<noteq> None")
  case True
  then obtain v where "f a = Some v" by blast
  with True have "(a, v) \<in> set (entries_at f as)" by (simp add: set_entries_at)
  with True \<open>f a = Some v\<close> show ?thesis
    using map_of_is_SomeI [OF distinct_entries_at [OF assms]] by simp
next
  case False
  then have "a \<notin> fst ` set (entries_at f as)" by (simp add: keys_entries_at)
  with False show ?thesis by (auto simp: map_of_eq_None_iff)
qed

lemma mset_entries_at:
  assumes "distinct as" and "distinct (map fst m)" and "fst ` set m \<subseteq> set as"
  shows "mset (entries_at (map_of m) as) = mset m"
proof -
  have "set (entries_at (map_of m) as) = set m"
    using assms(2,3) by (force simp: set_entries_at map_of_eq_Some_iff)
  moreover have "distinct m" "distinct (entries_at (map_of m) as)"
    using assms distinct_entries_at [OF assms(1), of "map_of m"] by (simp_all add: distinct_map)
  ultimately show ?thesis by (simp add: set_eq_iff_mset_eq_distinct)
qed

lemma unite_contract_storage_new:
  "a \<notin> fst ` set m \<Longrightarrow> unite_contract_storage a es m = Inr (m @ [(a, es)])"
  by (induction a es m rule: unite_contract_storage.induct) auto

lemma insert_new_new: "k \<notin> fst ` set m \<Longrightarrow> insert_new k v m = Inr (m @ [(k, v)])"
  by simp

lemma unite_contract:
  assumes "a \<notin> set as"
  shows "unite_state_diffs (contracts_over_wire d as) (ContractDiff (contract_diff_of d a)) =
    Inr (contracts_over_wire d (as @ [a]))"
proof -
  have new: "a \<notin> fst ` set (entries_at f as)" for f :: "contract_address \<Rightarrow> 'v option"
    using assms by (simp add: keys_entries_at)
  have cls: "cd_class_hash (contract_diff_of d a) = class_of d a"
    by (simp add: contract_diff_of_def class_of_def map_add_def split: option.split)
  have storage: "cd_storage_diffs (contract_diff_of d a) = (case storage_of d a of None \<Rightarrow> [] | Some es \<Rightarrow> es)"
    "storage_of d a \<noteq> Some []"
    by (simp_all add: contract_diff_of_def storage_of_def split: option.split list.split)
  have rest: "cd_contract_address (contract_diff_of d a) = a" "cd_nonce (contract_diff_of d a) = map_of (tsd_nonces d) a"
    by (simp_all add: contract_diff_of_def)
  show ?thesis
    using new [of "class_of d"] new [of "map_of (tsd_nonces d)"] new [of "storage_of d"] storage(2)
    by (cases "class_of d a"; cases "map_of (tsd_nonces d) a"; cases "storage_of d a")
      (simp_all add: cls storage(1) rest contracts_over_wire_def insert_new_new unite_contract_storage_new
        del: map_of_eq_None_iff)
qed

lemma unite_contracts:
  assumes "distinct (bs @ as)"
  shows "fold_res (\<lambda>chunk d. unite_state_diffs d chunk) (map (\<lambda>a. ContractDiff (contract_diff_of d a)) as)
      (contracts_over_wire d bs) = Inr (contracts_over_wire d (bs @ as))"
  using assms
proof (induction as arbitrary: bs)
  case (Cons a as)
  then show ?case using Cons.IH [of "bs @ [a]"] by (simp add: unite_contract del: unite_state_diffs.simps)
qed simp

lemma unite_declared:
  assumes "distinct (map fst (tsd_declared_classes d @ es))"
  shows "fold_res (\<lambda>chunk d. unite_state_diffs d chunk) (map (\<lambda>(c, h). DeclaredClass c h) es) d =
    Inr (d\<lparr>tsd_declared_classes := tsd_declared_classes d @ es\<rparr>)"
  using assms
proof (induction es arbitrary: d)
  case (Cons e es)
  obtain c h where e: "e = (c, h)" by (cases e)
  let ?d = "d\<lparr>tsd_declared_classes := tsd_declared_classes d @ [(c, h)]\<rparr>"
  have "unite_state_diffs d (DeclaredClass c h) = Inr ?d"
    using Cons.prems by (simp add: e insert_new_new)
  moreover have "distinct (map fst (tsd_declared_classes ?d @ es))" using Cons.prems by (simp add: e)
  ultimately show ?case using Cons.IH [of ?d] by (simp add: e del: unite_state_diffs.simps)
qed simp

lemma unite_deprecated:
  "fold_res (\<lambda>chunk d. unite_state_diffs d chunk) (map DeprecatedDeclaredClass cs) d =
    Inr (d\<lparr>tsd_deprecated_declared_classes := tsd_deprecated_declared_classes d @ cs\<rparr>)"
  by (induction cs arbitrary: d) simp_all

lemma finite_changed [simp]: "finite (changed_contracts d)"
  by (simp add: changed_contracts_def)

lemma unite_split:
  assumes "servable d" and "set_order ord"
  shows "fold_res (\<lambda>chunk d. unite_state_diffs d chunk) (split_thin_state_diff ord d) empty_state_diff =
    Inr (over_wire ord d)"
proof -
  have "distinct (ord (changed_contracts d))" using assms(2) by (simp add: set_order_def)
  moreover have "contracts_over_wire d [] = empty_state_diff"
    by (simp add: contracts_over_wire_def empty_state_diff_def)
  ultimately show ?thesis
    using unite_contracts [of "[]" "ord (changed_contracts d)" d] assms(1)
      unite_declared [of "contracts_over_wire d (ord (changed_contracts d))" "tsd_declared_classes d"]
    by (simp add: split_thin_state_diff_def fold_res_append unite_deprecated servable_def diff_wf_def over_wire_def)
      (simp add: contracts_over_wire_def empty_state_diff_def unite_deprecated)
qed

text \<open>The chunks say the same as the diff, but for the nonce of a contract with a replaced class.\<close>

lemma over_wire_fields:
  assumes "servable d" and "set_order ord"
  shows "mset (tsd_deployed_contracts (over_wire ord d)) = mset (tsd_deployed_contracts d @ tsd_replaced_classes d)"
    and "mset (tsd_storage_diffs (over_wire ord d)) = mset (tsd_storage_diffs d)"
    and "mset (tsd_nonces (over_wire ord d)) = mset (tsd_nonces d)"
    and "tsd_declared_classes (over_wire ord d) = tsd_declared_classes d"
    and "tsd_deprecated_declared_classes (over_wire ord d) = tsd_deprecated_declared_classes d"
    and "tsd_replaced_classes (over_wire ord d) = []"
proof -
  let ?as = "ord (changed_contracts d)"
  have as: "distinct ?as" "set ?as = changed_contracts d" using assms(2) by (simp_all add: set_order_def)
  have d: "distinct (map fst (tsd_deployed_contracts d @ tsd_replaced_classes d))"
    "distinct (map fst (tsd_storage_diffs d))" "distinct (map fst (tsd_nonces d))"
    and ne: "\<forall>(a, es) \<in> set (tsd_storage_diffs d). es \<noteq> []"
    using assms(1) by (auto simp: servable_def diff_wf_def)
  have "storage_of d = map_of (tsd_storage_diffs d)"
  proof
    fix a
    have "map_of (tsd_storage_diffs d) a \<noteq> Some []" using ne by (auto dest: map_of_SomeD)
    then show "storage_of d a = map_of (tsd_storage_diffs d) a"
      by (simp add: storage_of_def split: option.split list.split)
  qed
  moreover have "fst ` set (tsd_deployed_contracts d @ tsd_replaced_classes d) \<subseteq> set ?as"
    "fst ` set (tsd_storage_diffs d) \<subseteq> set ?as" "fst ` set (tsd_nonces d) \<subseteq> set ?as"
    unfolding as(2) by (auto simp: changed_contracts_def)
  note mset_entries_at [OF as(1) d(1) this(1)] mset_entries_at [OF as(1) d(2) this(2)]
    mset_entries_at [OF as(1) d(3) this(3)]
  ultimately show "mset (tsd_deployed_contracts (over_wire ord d)) = mset (tsd_deployed_contracts d @ tsd_replaced_classes d)"
    "mset (tsd_storage_diffs (over_wire ord d)) = mset (tsd_storage_diffs d)"
    "mset (tsd_nonces (over_wire ord d)) = mset (tsd_nonces d)"
    by (simp_all add: over_wire_def contracts_over_wire_def class_of_def)
qed (simp_all add: over_wire_def contracts_over_wire_def empty_state_diff_def)

lemma same_entries:
  fixes m m' :: "('a \<times> 'b) list"
  assumes "mset m' = mset m"
  shows "set m' = set m" and "length m' = length m" and "distinct (map fst m') = distinct (map fst m)"
    and "distinct (map fst m) \<Longrightarrow> map_of m' = map_of m"
proof -
  show s: "set m' = set m" and "length m' = length m" using assms by (metis mset_eq_setD, metis size_mset)
  have "mset (map fst m') = mset (map fst m)" using assms by simp
  then show d: "distinct (map fst m') = distinct (map fst m)" by (rule mset_eq_imp_distinct_iff)
  show "map_of m' = map_of m" if "distinct (map fst m)"
    using map_of_inject_set [of m' m] that d s by simp
qed

lemma over_wire_diff_wf:
  assumes "servable d" and "set_order ord"
  shows "diff_wf (over_wire ord d)" and "diff_entries (over_wire ord d) = diff_entries d"
proof -
  note f = over_wire_fields [OF assms]
  have sum: "sum_list (map (length \<circ> snd) (tsd_storage_diffs (over_wire ord d))) =
      sum_list (map (length \<circ> snd) (tsd_storage_diffs d))"
    using f(2) by (metis mset_map sum_mset_sum_list)
  have "distinct (map fst (tsd_deployed_contracts d @ tsd_replaced_classes d))"
    using assms(1) by (auto simp: servable_def diff_wf_def)
  then show "diff_wf (over_wire ord d)"
    using same_entries(3) [OF f(1)] same_entries(1,3) [OF f(2)] same_entries(3) [OF f(3)] f(4,6) assms(1)
    by (simp add: diff_wf_def servable_def)
  show "diff_entries (over_wire ord d) = diff_entries d"
    using same_entries(2) [OF f(1)] same_entries(2) [OF f(3)] sum f(4,5,6) by (simp add: diff_entries_def)
qed

lemma over_wire_assigns:
  assumes "servable d" and "set_order ord"
  shows "diff_storage (over_wire ord d) = diff_storage d" and "diff_class (over_wire ord d) = diff_class d"
    and "diff_nonce (over_wire ord d) a =
      (if map_of (tsd_nonces d) a = None \<and> map_of (tsd_replaced_classes d) a \<noteq> None then Some 0
       else diff_nonce d a)"
proof -
  note f = over_wire_fields [OF assms]
  have wf: "diff_wf d" "diff_wf (over_wire ord d)" using assms over_wire_diff_wf(1) by (auto simp: servable_def)
  have "set (storage_entries (over_wire ord d)) = set (storage_entries d)"
    using same_entries(1) [OF f(2)] by (simp add: storage_entries_def)
  then show "diff_storage (over_wire ord d) = diff_storage d"
    unfolding diff_storage_def using map_of_inject_set diff_wf_storage_entries wf by blast
  have d: "distinct (map fst (tsd_deployed_contracts d @ tsd_replaced_classes d))"
    using assms(1) by (auto simp: servable_def diff_wf_def)
  have c: "map_of (tsd_deployed_contracts (over_wire ord d)) =
      map_of (tsd_deployed_contracts d @ tsd_replaced_classes d)"
    by (rule same_entries(4) [OF f(1) d])
  then show "diff_class (over_wire ord d) = diff_class d"
    by (intro ext) (simp add: diff_class_def f(6) map_add_def split: option.split)
  have n: "map_of (tsd_nonces (over_wire ord d)) = map_of (tsd_nonces d)"
    by (rule same_entries(4) [OF f(3)]) (use wf(1) in \<open>simp add: diff_wf_def\<close>)
  show "diff_nonce (over_wire ord d) a =
      (if map_of (tsd_nonces d) a = None \<and> map_of (tsd_replaced_classes d) a \<noteq> None then Some 0
       else diff_nonce d a)"
    unfolding diff_nonce_def c n
    by (cases "map_of (tsd_nonces d) a"; cases "map_of (tsd_replaced_classes d) a")
      (simp_all add: map_add_def split: option.split)
qed

section \<open>Receiving what was served\<close>

definition messages :: "'a list \<Rightarrow> 'a incoming list" where
  "messages xs = map (\<lambda>x. Received (Inr (Some x))) xs"

lemma messages_simps [simp]:
  "messages [] = []" "messages (x # xs) = Received (Inr (Some x)) # messages xs"
  "messages (xs @ ys) = messages xs @ messages ys"
  by (simp_all add: messages_def)

lemma collect_served:
  assumes "fold_res (\<lambda>chunk d. unite_state_diffs d chunk) chunks result = Inr d"
    and "\<forall>chunk \<in> set chunks. \<not> chunk_is_empty chunk" and "target = current + sum_list (map chunk_len chunks)"
  shows "\<exists>p. collect_chunks target (messages chunks @ rest) current prev result = Inr (Some (d, p, target), rest)"
  using assms
proof (induction chunks arbitrary: current prev result)
  case Nil
  then show ?case by (simp add: collect_chunks.simps [of _ rest])
next
  case (Cons chunk chunks)
  then obtain r where r: "unite_state_diffs result chunk = Inr r"
    "fold_res (\<lambda>chunk d. unite_state_diffs d chunk) chunks r = Inr d" by (auto simp: res_bind_eq_Inr)
  have ne: "\<not> chunk_is_empty chunk" using Cons.prems(2) by simp
  then have "current < target" using Cons.prems(3) by (simp add: chunk_is_empty_def)
  moreover obtain p where "collect_chunks target (messages chunks @ rest) (current + chunk_len chunk) current r =
      Inr (Some (d, p, target), rest)"
    using Cons.IH [OF r(2), of "current + chunk_len chunk" current] Cons.prems(2,3) by auto
  ultimately show ?case using r(1) ne by (simp add: collect_chunks.simps [of target "_ # _"])
qed

lemma chunks_not_empty:
  assumes "servable d" and "set_order ord" and "chunk \<in> set (split_thin_state_diff ord d)"
  shows "\<not> chunk_is_empty chunk \<and> chunk_wf chunk"
proof (cases chunk)
  case (ContractDiff c)
  with assms obtain a where a: "a \<in> changed_contracts d" and c: "c = contract_diff_of d a"
    by (auto simp: split_thin_state_diff_def set_order_def)
  from a consider "map_of (tsd_deployed_contracts d) a \<noteq> None" | "map_of (tsd_replaced_classes d) a \<noteq> None"
    | "map_of (tsd_nonces d) a \<noteq> None" | "map_of (tsd_storage_diffs d) a \<noteq> None"
    by (auto simp: changed_contracts_def map_of_eq_None_iff)
  then have "\<not> chunk_is_empty chunk"
  proof cases
    case 4
    then obtain es where es: "map_of (tsd_storage_diffs d) a = Some es" by blast
    then have "es \<noteq> []" using assms(1) by (auto simp: servable_def dest: map_of_SomeD)
    with es show ?thesis by (simp add: ContractDiff c chunk_is_empty_def contract_diff_of_def)
  qed (auto simp: ContractDiff c chunk_is_empty_def contract_diff_of_def split: option.splits)
  moreover have "distinct (map fst es)" if "map_of (tsd_storage_diffs d) a = Some es" for es
    using map_of_SomeD [OF that] assms(1) by (auto simp: servable_def diff_wf_def)
  then have "chunk_wf chunk" by (auto simp: ContractDiff c contract_diff_of_def split: option.split)
  ultimately show ?thesis ..
qed (simp_all add: chunk_is_empty_def)

lemma sum_chunk_len:
  assumes "fold_res (\<lambda>chunk d. unite_state_diffs d chunk) chunks result = Inr d"
    and "\<forall>chunk \<in> set chunks. chunk_wf chunk" and "united result"
  shows "diff_entries d = diff_entries result + sum_list (map chunk_len chunks)"
  using assms
proof (induction chunks arbitrary: result)
  case (Cons chunk chunks)
  then obtain r where r: "unite_state_diffs result chunk = Inr r"
    "fold_res (\<lambda>chunk d. unite_state_diffs d chunk) chunks r = Inr d" by (auto simp: res_bind_eq_Inr)
  with Cons unite_state_diffs_spec [OF r(1)] show ?case by simp
qed simp

lemma parse_served_diff:
  assumes "servable d" and "set_order ord" and "get_block_header db b = Inr (Some h)"
    and "sbh_state_diff_length h = Some (diff_entries d)"
  shows "parse_state_diff_for_block (messages (split_thin_state_diff ord d) @ rest) b db =
    Inr (Some (over_wire ord d, b), rest)"
proof -
  note unite = unite_split [OF assms(1,2)]
  have "diff_entries d = 0 + sum_list (map chunk_len (split_thin_state_diff ord d))"
    using sum_chunk_len [OF unite] chunks_not_empty [OF assms(1,2)] over_wire_diff_wf(2) [OF assms(1,2)] by simp
  from collect_served [OF unite _ this, of rest 0] chunks_not_empty [OF assms(1,2)] obtain p
    where "collect_chunks (diff_entries d) (messages (split_thin_state_diff ord d) @ rest) 0 0 empty_state_diff =
      Inr (Some (over_wire ord d, p, diff_entries d), rest)" by blast
  moreover have "validate_deprecated_declared_classes_non_conflicting (over_wire ord d) = Inr ()"
    using assms(1) over_wire_fields(5) [OF assms(1,2)]
    by (simp add: validate_deprecated_declared_classes_non_conflicting_def servable_def distinct_card)
  ultimately show ?thesis using assms(3,4) by (simp add: parse_state_diff_for_block_def)
qed

section \<open>A client that talks to an honest server\<close>

definition answers_of ::
  "(storage_txn \<Rightarrow> block_number \<Rightarrow> 'a list server_result) \<Rightarrow> storage_txn \<Rightarrow> query \<Rightarrow> 'a incoming list" where
  "answers_of fetch server query =
     map (\<lambda>message. Received (Inr message)) (fst (send_data_for_query fetch server query None))"

inductive honest_step ::
  "serde_sizes \<Rightarrow> p2p_sync_client_config \<Rightarrow> (thin_state_diff \<Rightarrow> nat) \<Rightarrow>
   (contract_address set \<Rightarrow> contract_address list) \<Rightarrow> storage_txn \<Rightarrow> client \<Rightarrow> client \<Rightarrow> bool"
  for sz config diff_len ord server where
  "cl_failed cl = None \<Longrightarrow> honest_step sz config diff_len ord server cl
     (headers_send config (answers_of (fetch_signed_block_header diff_len) server) cl)"
| "cl_failed cl = None \<Longrightarrow> honest_step sz config diff_len ord server cl
     (state_diffs_send config (answers_of (fetch_state_diff_chunks ord) server) cl)"
| "cl_failed cl = None \<Longrightarrow> honest_step sz config diff_len ord server cl (headers_read config cl)"
| "cl_failed cl = None \<Longrightarrow> honest_step sz config diff_len ord server cl (state_diffs_read sz config cl)"

inductive_cases honest_stepE: "honest_step sz config diff_len ord server cl cl'"

abbreviation honest_run where
  "honest_run sz config diff_len ord server \<equiv> (honest_step sz config diff_len ord server)\<^sup>*\<^sup>*"

text \<open>A server with a whole chain, and what a client gets of it.\<close>

definition honest_chain :: "storage_txn \<Rightarrow> block_header list \<Rightarrow> thin_state_diff list \<Rightarrow> bool" where
  "honest_chain server hs ds \<longleftrightarrow>
     header_rel server hs \<and> state_rel server ds \<and> length ds = length hs \<and>
     (\<forall>b < length hs. get_block_signature server b \<noteq> None \<and> sbh_block_number (hs ! b) = b \<and>
        servable (ds ! b) \<and> sbh_state_diff_length (hs ! b) \<in> {None, Some (diff_entries (ds ! b))})"

definition chain_headers :: "block_header list \<Rightarrow> thin_state_diff list \<Rightarrow> block_header list" where
  "chain_headers hs ds = map2 (served_header diff_entries) hs ds"

definition sent_header :: "storage_txn \<Rightarrow> block_header list \<Rightarrow> thin_state_diff list \<Rightarrow> block_number \<Rightarrow> signed_block_header" where
  "sent_header server hs ds b =
     \<lparr>sh_block_header = chain_headers hs ds ! b, sh_signatures = [the (get_block_signature server b)]\<rparr>"

definition end_message :: "'a incoming" where
  "end_message = Received (Inr None)"

fun headers_stream_ok ::
  "storage_txn \<Rightarrow> block_header list \<Rightarrow> thin_state_diff list \<Rightarrow> nat \<Rightarrow> signed_block_header stream_state \<Rightarrow> bool" where
  "headers_stream_ok server hs ds k (Sending c) \<longleftrightarrow> c = k"
| "headers_stream_ok server hs ds k (Reading c e rs) \<longleftrightarrow> c = k \<and> k \<le> e \<and>
     rs = messages (map (sent_header server hs ds) [k..<min e (length hs)]) @ [end_message]"
| "headers_stream_ok server hs ds k Ended \<longleftrightarrow> False"

fun diffs_stream_ok ::
  "(contract_address set \<Rightarrow> contract_address list) \<Rightarrow> thin_state_diff list \<Rightarrow> nat \<Rightarrow> nat \<Rightarrow>
   state_diff_chunk stream_state \<Rightarrow> bool" where
  "diffs_stream_ok ord ds k j (Sending c) \<longleftrightarrow> c = j"
| "diffs_stream_ok ord ds k j (Reading c e rs) \<longleftrightarrow> c = j \<and> j \<le> e \<and> e \<le> k \<and>
     rs = messages (concat (map (\<lambda>b. split_thin_state_diff ord (ds ! b)) [j..<e])) @ [end_message]"
| "diffs_stream_ok ord ds k j Ended \<longleftrightarrow> False"

definition honest_inv ::
  "(contract_address set \<Rightarrow> contract_address list) \<Rightarrow> storage_txn \<Rightarrow> block_header list \<Rightarrow> thin_state_diff list \<Rightarrow>
   nat \<Rightarrow> nat \<Rightarrow> client \<Rightarrow> bool" where
  "honest_inv ord server hs ds k j cl \<longleftrightarrow>
     header_rel (cl_db cl) (take k (chain_headers hs ds)) \<and> state_rel (cl_db cl) (take j (map (over_wire ord) ds)) \<and>
     j \<le> k \<and> k \<le> length hs \<and> cl_failed cl = None \<and> headers_stream_ok server hs ds k (cl_headers cl) \<and>
     diffs_stream_ok ord ds k j (cl_state_diffs cl)"

definition honest_config :: "p2p_sync_client_config \<Rightarrow> nat \<Rightarrow> bool" where
  "honest_config config n \<longleftrightarrow>
     stop_sync_at_block_number config = None \<and> 0 < num_headers_per_query config \<and>
     0 < num_block_state_diffs_per_query config \<and> n + num_headers_per_query config < u64_max"

lemma takeWhile_upt: "takeWhile (\<lambda>b. b < n) [k..<m] = [k..<min m n]"
proof (cases "n \<le> k")
  case True
  then show ?thesis by (cases "k < m") (simp_all add: upt_rec [of k m])
next
  case False
  show ?thesis
  proof (cases "n \<le> m")
    case True
    then have "[k..<m] = [k..<n] @ [n..<m]" using False by (metis le_add_diff_inverse nat_le_linear upt_add_eq_append)
    moreover have "takeWhile (\<lambda>b. b < n) [n..<m] = []" by (cases "n < m") (simp_all add: upt_rec [of n m])
    ultimately show ?thesis using True by (simp add: min_def takeWhile_append)
  next
    case False
    then show ?thesis by (simp add: min_def takeWhile_eq_all_conv)
  qed
qed

lemma served_from: "served_blocks (query_from k limit) k n = [k..<min (k + limit) n]"
proof -
  have "asked_blocks (query_from k limit) k = map int [k..<k + limit]"
    by (rule nth_equalityI) (simp_all add: asked_blocks_def query_from_def STEP_def)
  then show ?thesis
    by (simp add: served_blocks_def takeWhile_map comp_def takeWhile_upt)
qed

lemma answers_from:
  assumes "limit < 2 ^ 64" and "n \<le> u64_max" and "\<And>b. b < n \<Longrightarrow> fetch server b = Inr (data b)"
    and "\<And>b. n \<le> b \<Longrightarrow> \<exists>e. fetch server b = Inl e"
  shows "answers_of fetch server (query_from k limit) =
    messages (concat (map data [k..<min (k + limit) n])) @ [end_message]"
proof -
  have "start_block_number server (query_from k limit) = Inr k"
    by (simp add: start_block_number_def query_from_def)
  moreover have "q_step (query_from k limit) * q_limit (query_from k limit) < 2 ^ 64"
    using assms(1) by (simp add: query_from_def STEP_def)
  ultimately obtain r where "send_data_for_query fetch server (query_from k limit) None =
      (map Some (concat (map data (served_blocks (query_from k limit) k n))) @ [None], r)"
    using send_data_available [of server "query_from k limit" k n fetch data] assms(2-4) by blast
  then show ?thesis by (simp add: answers_of_def served_from messages_def end_message_def comp_def)
qed

lemma chain_header_nth:
  assumes "honest_chain server hs ds" and "b < length hs"
  shows "chain_headers hs ds ! b = served_header diff_entries (hs ! b) (ds ! b)"
    and "sbh_block_number (chain_headers hs ds ! b) = b" and "length (chain_headers hs ds) = length hs"
    and "sbh_state_diff_length (chain_headers hs ds ! b) = Some (diff_entries (ds ! b))"
    and "sbh_block_hash (chain_headers hs ds ! b) = sbh_block_hash (hs ! b)"
  using assms by (auto simp: honest_chain_def chain_headers_def served_header_def)

lemma answers_of_headers:
  assumes "honest_chain server hs ds" and "diff_len_law diff_len" and "limit < 2 ^ 64" and "length hs \<le> u64_max"
  shows "answers_of (fetch_signed_block_header diff_len) server (query_from k limit) =
    messages (map (sent_header server hs ds) [k..<min (k + limit) (length hs)]) @ [end_message]"
proof -
  have rel: "header_rel server hs" "state_rel server ds" "length ds = length hs"
    using assms(1) by (simp_all add: honest_chain_def)
  have len: "diff_len = diff_entries" using assms(2) by (auto simp: diff_len_law_def)
  have "fetch_signed_block_header diff_len server b = Inr [sent_header server hs ds b]" if b: "b < length hs" for b
  proof -
    obtain sig where "get_block_signature server b = Some sig" using assms(1) b by (auto simp: honest_chain_def)
    with fetch_signed_block_header_eq [OF rel(1,2) b _ this] b rel(3) show ?thesis
      by (simp add: sent_header_def len chain_header_nth(1) [OF assms(1)])
  qed
  moreover have "\<exists>e. fetch_signed_block_header diff_len server b = Inl e" if "length hs \<le> b" for b
  proof -
    have "get_block_header server b = Inr None"
      using rel(1) that unfolding header_rel_def header_wf_def
      by (auto simp: get_block_header_def tbl_get_def fmdom_notD not_less split: option.split)
    then show ?thesis by (simp add: fetch_signed_block_header_def)
  qed
  ultimately show ?thesis
    using answers_from [OF assms(3,4), of "fetch_signed_block_header diff_len" server "\<lambda>b. [sent_header server hs ds b]" k]
    by (simp add: map_concat [symmetric] comp_def)
qed

lemma answers_of_diffs:
  assumes "honest_chain server hs ds" and "limit < 2 ^ 64" and "length hs \<le> u64_max"
  shows "answers_of (fetch_state_diff_chunks ord) server (query_from k limit) =
    messages (concat (map (\<lambda>b. split_thin_state_diff ord (ds ! b)) [k..<min (k + limit) (length hs)])) @ [end_message]"
proof -
  have rel: "state_rel server ds" "length ds = length hs" using assms(1) by (simp_all add: honest_chain_def)
  show ?thesis
    by (rule answers_from [OF assms(2,3)]) (simp_all add: fetch_state_diff_chunks_eq [OF rel(1)] rel(2))
qed

text \<open>The server's chain can be appended block by block.\<close>

lemma header_rel_hash_inj:
  assumes "header_rel server hs" and "a < length hs" and "b < length hs"
    and "sbh_block_hash (hs ! a) = sbh_block_hash (hs ! b)"
  shows "a = b"
proof -
  have "get_block_header server a = Inr (Some (hs ! a))" "get_block_header server b = Inr (Some (hs ! b))"
    using assms(1-3) by (simp_all add: header_rel_def)
  from this [THEN get_block_header_hash] assms(4) obtain sa sb
    where "fmlookup (tx_headers server) a = Some sa" "fmlookup (tx_headers server) b = Some sb"
      "sbh_block_hash sa = sbh_block_hash sb" by auto
  moreover have "\<forall>h b. fmlookup (tx_block_hash_to_number server) h = Some b \<longleftrightarrow>
      (\<exists>sh. fmlookup (tx_headers server) b = Some sh \<and> sbh_block_hash sh = h)"
    using assms(1) by (simp add: header_rel_def header_wf_def)
  ultimately have "fmlookup (tx_block_hash_to_number server) (sbh_block_hash sb) = Some a"
    "fmlookup (tx_block_hash_to_number server) (sbh_block_hash sb) = Some b" by auto
  then show ?thesis by simp
qed

lemma write_sent_header:
  assumes chain: "honest_chain server hs ds" and k: "k < length hs" and n: "length hs < u64_max"
    and rel: "header_rel db (take k (chain_headers hs ds))"
  shows "\<exists>db'. write_header_to_storage (sent_header server hs ds k) db = Inr db' \<and>
    header_rel db' (take (Suc k) (chain_headers hs ds)) \<and> state_part db' = state_part db"
proof -
  let ?h = "chain_headers hs ds ! k" and ?sig = "the (get_block_signature server k)"
  note nth = chain_header_nth [OF chain]
  have len: "length (take k (chain_headers hs ds)) = k" using nth(3) [OF k] k by simp
  have wf: "header_wf db" and m: "get_header_marker db = k" using rel len by (simp_all add: header_rel_def)
  have fresh: "sbh_block_hash ?h \<notin> sbh_block_hash ` set (take k (chain_headers hs ds))"
  proof
    assume "sbh_block_hash ?h \<in> sbh_block_hash ` set (take k (chain_headers hs ds))"
    then obtain i where i: "i < k" "sbh_block_hash ?h = sbh_block_hash (chain_headers hs ds ! i)"
      using len by (auto simp: in_set_conv_nth)
    have "header_rel server hs" using chain by (simp add: honest_chain_def)
    from header_rel_hash_inj [OF this, of k i] i k nth(5) [OF k] nth(5) [of i] show False by simp
  qed
  obtain u where u: "append_header db k ?h = Inr u"
    using append_header_ok [OF wf m] header_rel_hash_None [OF rel] fresh by blast
  note eq = append_header_eq_Inr(3) [OF u]
  have "k |\<notin>| fmdom (tx_block_signatures db)" using wf m by (auto simp: header_wf_def)
  then have "fmlookup (tx_block_signatures u) k = None" by (simp add: eq set_marker_def fmdom_notD)
  moreover have "get_header_marker u = Suc k" by (simp add: get_header_marker_def) (simp add: eq)
  ultimately obtain db' where s: "append_block_signature u k ?sig = Inr db'"
    by (simp add: append_block_signature_def tbl_insert_def db_res_def tbl_get_def)
  have w: "write_header_to_storage (sent_header server hs ds k) db = Inr db'"
    using u s nth(2) [OF k] by (simp add: write_header_to_storage_def sent_header_def)
  have "header_rel u (take k (chain_headers hs ds) @ [?h])"
    using append_header_rel [OF rel u] k n by simp
  from append_block_signature_rel [OF this s] have "header_rel db' (take (Suc k) (chain_headers hs ds))"
    using nth(3) [OF k] k by (simp add: take_Suc_conv_app_nth)
  moreover have "state_part db' = state_part db"
    using append_header_parts(2) [OF u] append_block_signature_parts(2) [OF s] by simp
  ultimately show ?thesis using w by blast
qed

lemma write_sent_diff:
  assumes chain: "honest_chain server hs ds" and j: "j < length hs" and ord: "set_order ord"
    and sz: "sizes_positive sz" and rel: "state_rel db (take j (map (over_wire ord) ds))"
  shows "\<exists>db'. write_state_diff_to_storage sz (over_wire ord (ds ! j), j) db = Inr db' \<and>
    state_rel db' (take (Suc j) (map (over_wire ord) ds)) \<and> header_part db' = header_part db"
proof -
  let ?ds = "take j (map (over_wire ord) ds)" and ?d = "over_wire ord (ds ! j)"
  have len: "length ds = length hs" and srel: "state_rel server ds" and sv: "servable (ds ! i)" if "i < length hs" for i
    using chain that by (simp_all add: honest_chain_def)
  have lds: "length ds = length hs" using len [OF j] .
  have wf: "diff_wf ?d" by (rule over_wire_diff_wf(1) [OF sv [OF j] ord])
  have declared: "tsd_declared_classes (over_wire ord (ds ! i)) = tsd_declared_classes (ds ! i)" if "i < length hs" for i
    by (rule over_wire_fields(4) [OF sv [OF that] ord])
  have "fst ` set (tsd_declared_classes (ds ! j)) \<inter> fst ` set (tsd_declared_classes (ds ! i)) = {}" if i: "i < j" for i
  proof -
    have "False" if c: "c \<in> fst ` set (tsd_declared_classes (ds ! j))" "c \<in> fst ` set (tsd_declared_classes (ds ! i))" for c
    proof -
      have "fmlookup (tx_declared_classes_block server) c = Some j" "fmlookup (tx_declared_classes_block server) c = Some i"
        unfolding state_relD(7) [OF srel [OF j]] using c i j lds by auto
      with i show False by simp
    qed
    then show ?thesis by blast
  qed
  then have "fst ` set (tsd_declared_classes ?d) \<inter> fst ` set (tsd_declared_classes (?ds ! i)) = {}" if "i < j" for i
    using declared that j lds by simp
  moreover have "\<exists>i < j. d' = ?ds ! i" if "d' \<in> set ?ds" for d'
    using that j lds by (auto simp: in_set_conv_nth)
  ultimately have "\<forall>d' \<in> set ?ds. fst ` set (tsd_declared_classes ?d) \<inter> fst ` set (tsd_declared_classes d') = {}"
    by blast
  then have "diff_new ?ds ?d"
    using over_wire_fields(6) [OF sv [OF j] ord] by (simp add: diff_new_def)
  from append_state_diff_ok [OF rel wf sz this] obtain db'
    where "append_state_diff sz db (length ?ds) ?d = Inr db'" by blast
  moreover have "length ?ds = j" using j lds by simp
  ultimately have w: "write_state_diff_to_storage sz (?d, j) db = Inr db'"
    by (simp add: write_state_diff_to_storage_def)
  from write_state_diff_spec [OF w rel wf sz] have "state_rel db' (?ds @ [?d])" "header_part db' = header_part db" by blast+
  then show ?thesis using w j lds by (auto simp: take_Suc_conv_app_nth)
qed

text \<open>Every step of the run keeps the invariant, and a read in the middle of a query adds a block.\<close>

lemma honest_headers_send:
  assumes chain: "honest_chain server hs ds" and len: "diff_len_law diff_len" and config: "honest_config config (length hs)"
    and inv: "honest_inv ord server hs ds k j cl"
  shows "honest_inv ord server hs ds k j
      (headers_send config (answers_of (fetch_signed_block_header diff_len) server) cl) \<and>
    (\<forall>c. cl_headers cl = Sending c \<longrightarrow> (\<exists>e rs. k < e \<and>
      cl_headers (headers_send config (answers_of (fetch_signed_block_header diff_len) server) cl) = Reading k e rs))"
proof (cases "cl_headers cl")
  case (Sending c)
  let ?n = "num_headers_per_query config"
  have c: "c = k" "k \<le> length hs" using inv Sending by (simp_all add: honest_inv_def)
  have n: "0 < ?n" "length hs + ?n < u64_max" using config by (simp_all add: honest_config_def)
  then have "?n < 2 ^ 64" "length hs \<le> u64_max" "(k + ?n) mod 2 ^ 64 = k + ?n" using c by (simp_all add: u64_max_def)
  with answers_of_headers [OF chain len, of ?n k]
  have "stream_send Unlimited ?n (cl_db cl) k (answers_of (fetch_signed_block_header diff_len) server) =
      Reading k (k + ?n) (messages (map (sent_header server hs ds) [k..<min (k + ?n) (length hs)]) @ [end_message])"
    by (simp add: stream_send_def query_limit_def)
  with inv n(1) show ?thesis by (auto simp: headers_send_def Sending c(1) honest_inv_def)
qed (use inv in \<open>auto simp: headers_send_def\<close>)

lemma honest_diffs_send:
  assumes chain: "honest_chain server hs ds" and config: "honest_config config (length hs)"
    and inv: "honest_inv ord server hs ds k j cl"
  shows "honest_inv ord server hs ds k j
      (state_diffs_send config (answers_of (fetch_state_diff_chunks ord) server) cl) \<and>
    (\<forall>c. cl_state_diffs cl = Sending c \<longrightarrow> j < k \<longrightarrow> (\<exists>e rs. j < e \<and>
      cl_state_diffs (state_diffs_send config (answers_of (fetch_state_diff_chunks ord) server) cl) = Reading j e rs))"
proof (cases "cl_state_diffs cl")
  case (Sending c)
  let ?n = "num_block_state_diffs_per_query config" and ?net = "answers_of (fetch_state_diff_chunks ord) server"
  have c: "c = j" "j \<le> k" "k \<le> length hs" and rel: "header_rel (cl_db cl) (take k (chain_headers hs ds))"
    using inv Sending by (simp_all add: honest_inv_def)
  have n: "0 < ?n" "length hs < u64_max" using config by (simp_all add: honest_config_def)
  have "length (chain_headers hs ds) = length hs" using chain by (simp add: chain_headers_def honest_chain_def)
  then have m: "get_header_marker (cl_db cl) = k" using rel c by (simp add: header_rel_def)
  have "k + 2 ^ 64 - j = (k - j) + 2 ^ 64" using c by simp
  moreover have "k - j < 2 ^ 64" using c n by (simp add: u64_max_def)
  ultimately have "(k + 2 ^ 64 - j) mod 2 ^ 64 = k - j" by (metis mod_add_self2 mod_less)
  then have lim: "query_limit HeaderMarkerLimit ?n (cl_db cl) j = (if j = k then None else Some (min (k - j) ?n))"
    using c n(1) by (auto simp: query_limit_def m Let_def min_def)
  show ?thesis
  proof (cases "j = k")
    case True
    then show ?thesis using inv lim by (simp add: state_diffs_send_def Sending c(1) stream_send_def honest_inv_def)
  next
    case False
    define l where "l = min (k - j) ?n"
    have l: "0 < l" "j + l \<le> k" "l < 2 ^ 64" "(j + l) mod 2 ^ 64 = j + l"
      using False c n by (auto simp: l_def u64_max_def min_def)
    have "stream_send HeaderMarkerLimit ?n (cl_db cl) j ?net =
        Reading j (j + l) (messages (concat (map (\<lambda>b. split_thin_state_diff ord (ds ! b)) [j..<j + l])) @ [end_message])"
      using answers_of_diffs [OF chain l(3), of ord j] l c n lim False
      by (simp add: stream_send_def l_def [symmetric] min_absorb1)
    with inv l show ?thesis by (auto simp: state_diffs_send_def Sending c(1) honest_inv_def)
  qed
qed (use inv in \<open>auto simp: state_diffs_send_def\<close>)

lemma honest_headers_read:
  assumes chain: "honest_chain server hs ds" and config: "honest_config config (length hs)"
    and inv: "honest_inv ord server hs ds k j cl"
  shows "case cl_headers cl of
      Reading c e rs \<Rightarrow>
        if k < e \<and> k < length hs then honest_inv ord server hs ds (Suc k) j (headers_read config cl)
        else honest_inv ord server hs ds k j (headers_read config cl) \<and> cl_headers (headers_read config cl) = Sending k
    | _ \<Rightarrow> headers_read config cl = cl"
proof (cases "cl_headers cl")
  case (Reading c e rs)
  have c: "c = k" "k \<le> e" "j \<le> k" "k \<le> length hs"
    and rs: "rs = messages (map (sent_header server hs ds) [k..<min e (length hs)]) @ [end_message]"
    and rel: "header_rel (cl_db cl) (take k (chain_headers hs ds))"
    using inv Reading by (simp_all add: honest_inv_def)
  have n: "length hs < u64_max" and stop: "stop_sync_at_block_number config = None"
    using config by (simp_all add: honest_config_def)
  show ?thesis
  proof (cases "k < e \<and> k < length hs")
    case True
    then have "[k..<min e (length hs)] = k # [Suc k..<min e (length hs)]" by (simp add: upt_conv_Cons)
    then have "parse_header_for_block rs k (cl_db cl) = Inr (Some (sent_header server hs ds k),
        messages (map (sent_header server hs ds) [Suc k..<min e (length hs)]) @ [end_message])"
      using True chain_header_nth(2) [OF chain, of k]
      by (simp add: rs parse_header_for_block_def receive_def sent_header_def ALLOWED_SIGNATURES_LENGTH_def)
    moreover have "(k + 1) mod 2 ^ 64 = Suc k" using True n by (simp add: u64_max_def)
    ultimately have read: "stream_read ''headers'' parse_header_for_block (stop_sync_at_block_number config) (cl_db cl) k e rs =
        Inr (Reading (Suc k) e (messages (map (sent_header server hs ds) [Suc k..<min e (length hs)]) @ [end_message]),
             Some (sent_header server hs ds k))"
      using True by (simp add: stream_read_def stop)
    from write_sent_header [OF chain _ n rel] True obtain db'
      where w: "write_header_to_storage (sent_header server hs ds k) (cl_db cl) = Inr db'"
        and db': "header_rel db' (take (Suc k) (chain_headers hs ds))" "state_part db' = state_part (cl_db cl)" by blast
    have "state_rel db' (take j (map (over_wire ord) ds))"
      using inv state_part_rel [OF db'(2)] by (simp add: honest_inv_def)
    moreover have "diffs_stream_ok ord ds (Suc k) j (cl_state_diffs cl)"
      using inv by (cases "cl_state_diffs cl") (auto simp: honest_inv_def)
    moreover have "headers_read config cl = cl\<lparr>cl_headers := Reading (Suc k) e (messages
        (map (sent_header server hs ds) [Suc k..<min e (length hs)]) @ [end_message]), cl_db := db'\<rparr>"
      by (simp add: headers_read_def Reading c(1) read w write_yielded_def)
    ultimately show ?thesis using True inv db' c by (simp add: Reading honest_inv_def)
  next
    case False
    then have "rs = [end_message]" using c by (auto simp: rs min_def)
    then have "stream_read ''headers'' parse_header_for_block (stop_sync_at_block_number config) (cl_db cl) k e rs =
        Inr (Sending k, None)"
      by (simp add: stream_read_def parse_header_for_block_def receive_def end_message_def)
    with False inv show ?thesis
      by (auto simp: headers_read_def Reading c(1) write_yielded_def honest_inv_def)
  qed
qed (use inv in \<open>simp_all add: headers_read_def\<close>)

lemma honest_diffs_read:
  assumes chain: "honest_chain server hs ds" and config: "honest_config config (length hs)"
    and ord: "set_order ord" and sz: "sizes_positive sz" and inv: "honest_inv ord server hs ds k j cl"
  shows "case cl_state_diffs cl of
      Reading c e rs \<Rightarrow>
        if j < e then honest_inv ord server hs ds k (Suc j) (state_diffs_read sz config cl)
        else honest_inv ord server hs ds k j (state_diffs_read sz config cl) \<and>
          cl_state_diffs (state_diffs_read sz config cl) = Sending j
    | _ \<Rightarrow> state_diffs_read sz config cl = cl"
proof (cases "cl_state_diffs cl")
  case (Reading c e rs)
  have c: "c = j" "j \<le> e" "e \<le> k" "k \<le> length hs"
    and rs: "rs = messages (concat (map (\<lambda>b. split_thin_state_diff ord (ds ! b)) [j..<e])) @ [end_message]"
    and rel: "header_rel (cl_db cl) (take k (chain_headers hs ds))"
      "state_rel (cl_db cl) (take j (map (over_wire ord) ds))"
    using inv Reading by (simp_all add: honest_inv_def)
  have n: "length hs < u64_max" and stop: "stop_sync_at_block_number config = None"
    using config by (simp_all add: honest_config_def)
  show ?thesis
  proof (cases "j < e")
    case True
    let ?rest = "messages (concat (map (\<lambda>b. split_thin_state_diff ord (ds ! b)) [Suc j..<e])) @ [end_message]"
    have j: "j < length hs" "j < k" using True c by simp_all
    note nth = chain_header_nth [OF chain j(1)]
    have "rs = messages (split_thin_state_diff ord (ds ! j)) @ ?rest" using True by (simp add: rs upt_conv_Cons)
    moreover have "servable (ds ! j)" using chain j by (simp add: honest_chain_def)
    moreover have "get_block_header (cl_db cl) j = Inr (Some (chain_headers hs ds ! j))"
      using rel(1) j nth(3) c by (simp add: header_rel_def)
    ultimately have "parse_state_diff_for_block rs j (cl_db cl) = Inr (Some (over_wire ord (ds ! j), j), ?rest)"
      using parse_served_diff [OF _ ord _ nth(4)] by simp
    moreover have "(j + 1) mod 2 ^ 64 = Suc j" using j n by (simp add: u64_max_def)
    ultimately have read: "stream_read ''state diffs'' parse_state_diff_for_block (stop_sync_at_block_number config)
        (cl_db cl) j e rs = Inr (Reading (Suc j) e ?rest, Some (over_wire ord (ds ! j), j))"
      using True by (simp add: stream_read_def stop)
    from write_sent_diff [OF chain j(1) ord sz rel(2)] obtain db'
      where w: "write_state_diff_to_storage sz (over_wire ord (ds ! j), j) (cl_db cl) = Inr db'"
        and db': "state_rel db' (take (Suc j) (map (over_wire ord) ds))" "header_part db' = header_part (cl_db cl)" by blast
    have "header_rel db' (take k (chain_headers hs ds))" using rel(1) header_part_rel [OF db'(2)] by simp
    moreover have "state_diffs_read sz config cl = cl\<lparr>cl_state_diffs := Reading (Suc j) e ?rest, cl_db := db'\<rparr>"
      by (simp add: state_diffs_read_def Reading c(1) read w write_yielded_def)
    ultimately show ?thesis using True inv db' c j by (simp add: Reading honest_inv_def)
  next
    case False
    then have "stream_read ''state diffs'' parse_state_diff_for_block (stop_sync_at_block_number config) (cl_db cl) j e rs =
        Inr (Sending j, None)"
      by (simp add: rs stream_read_def end_message_def)
    with False inv show ?thesis
      by (auto simp: state_diffs_read_def Reading c(1) write_yielded_def honest_inv_def)
  qed
qed (use inv in \<open>simp_all add: state_diffs_read_def\<close>)

lemma honest_step_inv:
  assumes chain: "honest_chain server hs ds" and len: "diff_len_law diff_len"
    and config: "honest_config config (length hs)" and ord: "set_order ord" and sz: "sizes_positive sz"
    and inv: "honest_inv ord server hs ds k j cl" and step: "honest_step sz config diff_len ord server cl cl'"
  shows "\<exists>k j. honest_inv ord server hs ds k j cl'"
  using step
proof cases
  case 1
  then show ?thesis using honest_headers_send [OF chain len config inv] by blast
next
  case 2
  then show ?thesis using honest_diffs_send [OF chain config inv] by blast
next
  case 3
  then show ?thesis using honest_headers_read [OF chain config inv] inv
    by (cases "cl_headers cl") (auto split: if_splits)
next
  case 4
  then show ?thesis using honest_diffs_read [OF chain config ord sz inv] inv
    by (cases "cl_state_diffs cl") (auto split: if_splits)
qed

lemma honest_headers_progress:
  assumes chain: "honest_chain server hs ds" and len: "diff_len_law diff_len"
    and config: "honest_config config (length hs)"
    and inv: "honest_inv ord server hs ds k j cl" and k: "k < length hs"
  shows "\<exists>cl'. honest_run sz config diff_len ord server cl cl' \<and> honest_inv ord server hs ds (Suc k) j cl'"
proof -
  let ?step = "honest_step sz config diff_len ord server"
  let ?net = "answers_of (fetch_signed_block_header diff_len) server"
  have ok: "cl_failed cl = None" if "honest_inv ord server hs ds k j cl" for cl using that by (simp add: honest_inv_def)
  have read: "\<exists>cl'. ?step\<^sup>*\<^sup>* cl cl' \<and> honest_inv ord server hs ds (Suc k) j cl'"
    if "honest_inv ord server hs ds k j cl" "cl_headers cl = Reading k e rs" "k < e" for cl e rs
  proof -
    have "?step cl (headers_read config cl)" by (rule honest_step.intros(3) [OF ok [OF that(1)]])
    moreover have "honest_inv ord server hs ds (Suc k) j (headers_read config cl)"
      using honest_headers_read [OF chain config that(1)] that k by simp
    ultimately show ?thesis by (meson r_into_rtranclp)
  qed
  have send: "\<exists>cl'. ?step\<^sup>*\<^sup>* cl cl' \<and> honest_inv ord server hs ds (Suc k) j cl'"
    if s: "honest_inv ord server hs ds k j cl" "cl_headers cl = Sending c" for cl c
  proof -
    from honest_headers_send [OF chain len config s(1)] s(2) obtain e rs
      where "k < e" "cl_headers (headers_send config ?net cl) = Reading k e rs"
        and i: "honest_inv ord server hs ds k j (headers_send config ?net cl)" by blast
    from read [OF i this(2,1)] honest_step.intros(1) [OF ok [OF s(1)]] show ?thesis
      by (meson converse_rtranclp_into_rtranclp)
  qed
  show ?thesis
  proof (cases "cl_headers cl")
    case (Sending c)
    then show ?thesis by (rule send [OF inv])
  next
    case (Reading c e rs)
    then have c: "c = k" "k \<le> e" using inv by (simp_all add: honest_inv_def)
    show ?thesis
    proof (cases "k < e")
      case True
      then show ?thesis using read [OF inv] Reading c by blast
    next
      case False
      then have "honest_inv ord server hs ds k j (headers_read config cl)" "cl_headers (headers_read config cl) = Sending k"
        using honest_headers_read [OF chain config inv] Reading by simp_all
      from send [OF this] honest_step.intros(3) [OF ok [OF inv]] show ?thesis
        by (meson converse_rtranclp_into_rtranclp)
    qed
  qed (use inv in \<open>simp add: honest_inv_def\<close>)
qed

lemma honest_diffs_progress:
  assumes chain: "honest_chain server hs ds" and config: "honest_config config (length hs)"
    and ord: "set_order ord" and sz: "sizes_positive sz"
    and inv: "honest_inv ord server hs ds k j cl" and j: "j < k"
  shows "\<exists>cl'. honest_run sz config diff_len ord server cl cl' \<and> honest_inv ord server hs ds k (Suc j) cl'"
proof -
  let ?step = "honest_step sz config diff_len ord server"
  let ?net = "answers_of (fetch_state_diff_chunks ord) server"
  have ok: "cl_failed cl = None" if "honest_inv ord server hs ds k j cl" for cl using that by (simp add: honest_inv_def)
  have read: "\<exists>cl'. ?step\<^sup>*\<^sup>* cl cl' \<and> honest_inv ord server hs ds k (Suc j) cl'"
    if "honest_inv ord server hs ds k j cl" "cl_state_diffs cl = Reading j e rs" "j < e" for cl e rs
  proof -
    have "?step cl (state_diffs_read sz config cl)" by (rule honest_step.intros(4) [OF ok [OF that(1)]])
    moreover have "honest_inv ord server hs ds k (Suc j) (state_diffs_read sz config cl)"
      using honest_diffs_read [OF chain config ord sz that(1)] that by simp
    ultimately show ?thesis by (meson r_into_rtranclp)
  qed
  have send: "\<exists>cl'. ?step\<^sup>*\<^sup>* cl cl' \<and> honest_inv ord server hs ds k (Suc j) cl'"
    if s: "honest_inv ord server hs ds k j cl" "cl_state_diffs cl = Sending c" for cl c
  proof -
    from honest_diffs_send [OF chain config s(1)] s(2) j obtain e rs
      where "j < e" "cl_state_diffs (state_diffs_send config ?net cl) = Reading j e rs"
        and i: "honest_inv ord server hs ds k j (state_diffs_send config ?net cl)" by blast
    from read [OF i this(2,1)] honest_step.intros(2) [OF ok [OF s(1)]] show ?thesis
      by (meson converse_rtranclp_into_rtranclp)
  qed
  show ?thesis
  proof (cases "cl_state_diffs cl")
    case (Sending c)
    then show ?thesis by (rule send [OF inv])
  next
    case (Reading c e rs)
    then have c: "c = j" "j \<le> e" using inv by (simp_all add: honest_inv_def)
    show ?thesis
    proof (cases "j < e")
      case True
      then show ?thesis using read [OF inv] Reading c by blast
    next
      case False
      then have "honest_inv ord server hs ds k j (state_diffs_read sz config cl)"
        "cl_state_diffs (state_diffs_read sz config cl) = Sending j"
        using honest_diffs_read [OF chain config ord sz inv] Reading by simp_all
      from send [OF this] honest_step.intros(4) [OF ok [OF inv]] show ?thesis
        by (meson converse_rtranclp_into_rtranclp)
    qed
  qed (use inv in \<open>simp add: honest_inv_def\<close>)
qed

lemma honest_run_completes:
  assumes "honest_chain server hs ds" and "diff_len_law diff_len" and "honest_config config (length hs)"
    and "set_order ord" and "sizes_positive sz" and "honest_inv ord server hs ds k j cl"
  shows "\<exists>cl'. honest_run sz config diff_len ord server cl cl' \<and>
    honest_inv ord server hs ds (length hs) (length hs) cl'"
  using assms(6)
proof (induction "(length hs - k) + (length hs - j)" arbitrary: k j cl rule: less_induct)
  case less
  have le: "j \<le> k" "k \<le> length hs" using less(2) by (simp_all add: honest_inv_def)
  show ?case
  proof (cases "j < length hs")
    case True
    have "\<exists>cl' k' j'. honest_run sz config diff_len ord server cl cl' \<and> honest_inv ord server hs ds k' j' cl' \<and>
        (length hs - k') + (length hs - j') < (length hs - k) + (length hs - j)"
    proof (cases "k < length hs")
      case k: True
      from honest_headers_progress [OF assms(1-3) less(2) k] k show ?thesis by (meson add_less_mono1 diff_less_mono2 lessI)
    next
      case False
      with True le have "j < k" by simp
      from honest_diffs_progress [OF assms(1,3-5) less(2) this] True show ?thesis
        by (meson add_less_cancel_left diff_less_mono2 lessI)
    qed
    then obtain cl1 k' j' where r: "honest_run sz config diff_len ord server cl cl1" and "honest_inv ord server hs ds k' j' cl1"
      "(length hs - k') + (length hs - j') < (length hs - k) + (length hs - j)" by blast
    from less(1) [OF this(3,2)] r show ?thesis by (meson rtranclp_trans)
  next
    case False
    then have "j = length hs" "k = length hs" using le by simp_all
    then show ?thesis using less(2) by blast
  qed
qed

section \<open>Any peers\<close>

lemma client_step_marker:
  assumes "client_step sz config cl cl'"
  shows "get_header_marker (cl_db cl) \<le> get_header_marker (cl_db cl')"
  using assms
proof cases
  case (read_headers)
  have "get_header_marker db \<le> get_header_marker db'" if "write_header_to_storage data db = Inr db'" for data db db'
  proof -
    let ?h = "sh_block_header data"
    from that obtain u sig where u: "append_header db (sbh_block_number ?h) ?h = Inr u"
      and "append_block_signature u (sbh_block_number ?h) sig = Inr db'"
      by (cases "sh_signatures data") (auto simp: write_header_to_storage_def Let_def res_bind_eq_Inr)
    then obtain t where "db' = u\<lparr>tx_block_signatures := t\<rparr>" using append_block_signature_eq_Inr by blast
    with append_header_eq_Inr(1,3) [OF u] show ?thesis by (simp add: get_header_marker_def)
  qed
  then show ?thesis
    by (auto simp: read_headers headers_read_def write_yielded_def res_bind_eq_Inr
        split: stream_state.splits sum.splits option.splits)
next
  case (read_state_diffs)
  have "get_header_marker db' = get_header_marker db" if "write_state_diff_to_storage sz data db = Inr db'" for data db db'
    using append_state_diff_state_frame [OF that [unfolded write_state_diff_to_storage_def]]
    by (simp add: state_frame_def header_part_def get_header_marker_def)
  then show ?thesis
    by (auto simp: read_state_diffs state_diffs_read_def write_yielded_def res_bind_eq_Inr
        split: stream_state.splits sum.splits option.splits)
qed (auto simp: headers_send_def state_diffs_send_def split: stream_state.splits)

lemma client_reachable_inv:
  assumes "client_reachable sz config db cl" and "header_rel db hs0" and "state_rel db ds0"
    and "length ds0 \<le> length hs0" and "sizes_positive sz" and "get_header_marker (cl_db cl) < u64_max"
  shows "\<exists>hs ds. client_inv hs0 ds0 hs ds cl"
  using assms(1,6)
proof induction
  case client_init
  have "client_inv hs0 ds0 [] [] (client_start db)"
    using assms(2-4) by (simp add: client_inv_def copied_ok_def client_start_def header_rel_def get_state_marker_def state_relD(1))
  then show ?case by blast
next
  case (client_next cl cl')
  have m: "get_header_marker (cl_db cl) < u64_max" using client_step_marker [OF client_next(2)] client_next.prems by simp
  from client_next.IH [OF this] obtain hs ds where inv: "client_inv hs0 ds0 hs ds cl" by blast
  from client_next(2) show ?case
  proof cases
    case (send_headers network)
    then show ?thesis using sends_inv(1) [OF inv m] by blast
  next
    case (send_state_diffs network)
    then show ?thesis using sends_inv(2) [OF inv m] by blast
  next
    case read_headers
    then show ?thesis using headers_read_inv [OF inv, of config] client_next.prems by blast
  next
    case read_state_diffs
    then show ?thesis using state_diffs_read_inv [OF inv m assms(5), of config] by blast
  next
    case (send_failed b)
    then show ?thesis using client_inv_failed [OF inv, of P2pSendError] by (auto simp: missing_header_panic_def)
  next
    case streams_ended
    then show ?thesis
      using client_inv_failed [OF inv, of "P2pPanic ''Sync data stream should never end''"]
      by (auto simp: missing_header_panic_def)
  qed
qed

section \<open>A small chain\<close>

definition demo_config :: p2p_sync_client_config where
  "demo_config = \<lparr>num_headers_per_query = 10, num_block_state_diffs_per_query = 5, stop_sync_at_block_number = None\<rparr>"

lemma demo_order: "set_order (sorted_list_of_set :: nat set \<Rightarrow> nat list)"
  by (simp add: set_order_def)

lemma demo_servable: "servable demo_diff"
  using demo_diff_wf(1) by (simp add: servable_def) (simp add: demo_diff_def)

lemma demo_server:
  "\<exists>server. honest_chain server [demo_header] [demo_diff] \<and> body_rel server []"
proof -
  obtain u where u: "append_header (empty_txn FullArchive) 0 demo_header = Inr u" using append_demo_header by blast
  have "header_rel u [demo_header]" using append_header_rel [OF header_rel_empty u] by (simp add: u64_max_def)
  moreover have "\<exists>v. append_block_signature u 0 3 = Inr v \<and> get_block_signature v 0 = Some 3"
    by (simp add: append_block_signature_def append_header_eq_Inr(3) [OF u] get_header_marker_def tbl_insert_def
        tbl_get_def db_res_def set_marker_def empty_txn_def get_block_signature_def)
      (simp add: get_marker_def tbl_get_def tbl_upsert_def)
  then obtain v where v: "append_block_signature u 0 3 = Inr v" "get_block_signature v 0 = Some 3" by blast
  ultimately have hv: "header_rel v [demo_header]" using append_block_signature_rel by blast
  have "state_part v = state_part (empty_txn FullArchive)" "body_part v = body_part (empty_txn FullArchive)"
    using append_header_parts [OF u] append_block_signature_parts [OF v(1)] by simp_all
  then have sv: "state_rel v []" "body_rel v []"
    using state_part_rel [of v "empty_txn FullArchive"] body_part_rel [of v "empty_txn FullArchive"] state_rel_empty body_rel_empty
    by simp_all
  obtain w where w: "append_state_diff demo_sizes v 0 demo_diff = Inr w"
    using append_state_diff_ok [OF sv(1) demo_diff_wf(1) sizes_positive_demo demo_diff_wf(3)] by auto
  from append_state_diff_rel [OF w sv(1) demo_diff_wf(1) sizes_positive_demo] have sw: "state_rel w [demo_diff]" by simp
  from append_state_diff_state_frame [OF w] have "header_part w = header_part v" "body_part w = body_part v"
    by (simp_all add: state_frame_def)
  then have "header_rel w [demo_header]" "body_rel w []" "get_block_signature w 0 = Some 3"
    using header_part_rel [of w v] body_part_rel [of w v] hv sv(2) v(2)
    by (simp_all add: header_part_def get_block_signature_def)
  with sw demo_servable show ?thesis by (auto simp: honest_chain_def demo_header_def)
qed

section \<open>Properties\<close>

definition answers_exactly ::
  "(storage_txn \<Rightarrow> block_number \<Rightarrow> 'a list server_result) \<Rightarrow> (block_number \<Rightarrow> 'a list) \<Rightarrow> nat \<Rightarrow>
   storage_txn \<Rightarrow> query \<Rightarrow> nat \<Rightarrow> bool" where
  "answers_exactly fetch data m txn query start_block \<longleftrightarrow>
     (let all = map Some (concat (map data (served_blocks query start_block m))) @ [None] in
      fst (send_data_for_query fetch txn query None) = all \<and>
      (\<forall>n. fst (send_data_for_query fetch txn query (Some n)) = take n all)) \<and>
     (snd (send_data_for_query fetch txn query None) = Inr () \<longleftrightarrow>
        (\<forall>b \<in> set (asked_blocks query start_block). 0 \<le> b \<and> b < int m))"

lemma answers_exactlyI:
  assumes "start_block_number txn query = Inr start_block" and "q_step query * q_limit query < 2 ^ 64"
    and "m \<le> u64_max" and "\<And>b. b < m \<Longrightarrow> fetch txn b = Inr (data b)"
    and "\<And>b. m \<le> b \<Longrightarrow> \<exists>e. fetch txn b = Inl e"
  shows "answers_exactly fetch data m txn query start_block"
proof -
  from send_data_available [of txn query start_block m fetch data] assms
  obtain r where "send_data_for_query fetch txn query None =
      (map Some (concat (map data (served_blocks query start_block m))) @ [None], r)"
    "r = Inr () \<longleftrightarrow> (\<forall>b \<in> set (asked_blocks query start_block). 0 \<le> b \<and> b < int m)" by blast
  then show ?thesis by (simp add: answers_exactly_def send_data_closed)
qed




definition demo_replacement :: thin_state_diff where
  "demo_replacement = \<lparr>tsd_deployed_contracts = [], tsd_storage_diffs = [], tsd_declared_classes = [],
     tsd_deprecated_declared_classes = [], tsd_nonces = [], tsd_replaced_classes = [(1, 52)]\<rparr>"


text \<open>
  \<^bold>\<open>C10.\<close> Whatever the peers answer, the client keeps its storage well formed. In every state that a run
  can reach (any answers, in any order of turns, up to the last representable block) the storage holds a
  chain of headers and a chain of diffs that extend the ones it had at the start; every added header has its
  own number and a signature; every added diff has distinct keys, no replaced class, no repeated deprecated
  class, and exactly as many entries as the header of its block says; the diffs are never ahead of the
  headers; and the run never hits the \<open>expect\<close> on a missing header.
\<close>

theorem p2p_client_keeps_storage:
  assumes "client_reachable sz config db cl" and "header_rel db hs0" and "state_rel db ds0"
    and "length ds0 \<le> length hs0" and "sizes_positive sz" and "get_header_marker (cl_db cl) < u64_max"
  shows "cl_failed cl \<noteq> Some missing_header_panic \<and> (\<exists>hs ds. copied_ok (cl_db cl) hs0 ds0 hs ds)"
  using client_reachable_inv [OF assms] by (auto simp: client_inv_def)

definition demo_network_answers :: "query \<Rightarrow> signed_block_header incoming list" where
  "demo_network_answers query = [Received (Inr (Some \<lparr>sh_block_header = demo_header, sh_signatures = [7]\<rparr>)), Elapsed]"

theorem p2p_client_keeps_storage_witness:
  "\<exists>cl hs. client_reachable demo_sizes demo_config (empty_txn FullArchive) cl \<and>
     get_header_marker (cl_db cl) = 1 \<and> copied_ok (cl_db cl) [] [] hs []"
proof -
  let ?cl1 = "headers_send demo_config demo_network_answers (client_start (empty_txn FullArchive))"
  let ?cl = "headers_read demo_config ?cl1" and ?data = "\<lparr>sh_block_header = demo_header, sh_signatures = [7]\<rparr>"
  have r1: "client_reachable demo_sizes demo_config (empty_txn FullArchive) ?cl1"
    by (rule client_next [OF client_init send_headers]) (simp add: client_start_def)
  have s1: "cl_headers ?cl1 = Reading 0 10 (demo_network_answers (query_from 0 10))" "cl_db ?cl1 = empty_txn FullArchive"
    "cl_failed ?cl1 = None"
    by (simp_all add: headers_send_def client_start_def stream_send_def query_limit_def demo_config_def
        get_header_marker_def)
  have r: "client_reachable demo_sizes demo_config (empty_txn FullArchive) ?cl"
    by (rule client_next [OF r1 read_headers [OF s1(3)]])
  obtain u where u: "append_header (empty_txn FullArchive) 0 demo_header = Inr u" using append_demo_header by blast
  have "\<exists>v. append_block_signature u 0 7 = Inr v"
    by (simp add: append_block_signature_def append_header_eq_Inr(3) [OF u] get_header_marker_def tbl_insert_def
        tbl_get_def db_res_def set_marker_def empty_txn_def)
      (simp add: get_marker_def tbl_get_def tbl_upsert_def)
  then obtain v where s: "append_block_signature u 0 7 = Inr v" by blast
  have "sbh_block_number demo_header = 0" by (simp add: demo_header_def)
  with u s have w: "write_header_to_storage ?data (empty_txn FullArchive) = Inr v"
    by (simp add: write_header_to_storage_def)
  have stop: "stop_sync_at_block_number demo_config = None" by (simp add: demo_config_def)
  have "stream_read ''headers'' parse_header_for_block None (empty_txn FullArchive) 0 10
      (demo_network_answers (query_from 0 10)) = Inr (Reading 1 10 [Elapsed], Some ?data)"
    by (simp add: stream_read_def parse_header_for_block_def receive_def demo_network_answers_def demo_header_def
        ALLOWED_SIGNATURES_LENGTH_def)
  with w have cl: "cl_db ?cl = v"
    by (simp add: headers_read_def s1 stop write_yielded_def)
  from append_block_signature_eq_Inr [OF s] obtain t where t: "v = u\<lparr>tx_block_signatures := t\<rparr>" ..
  have m: "get_header_marker v = 1"
    unfolding t append_header_eq_Inr(3) [OF u] by (simp add: get_header_marker_def)
  from p2p_client_keeps_storage [OF r header_rel_empty state_rel_empty] m cl obtain hs ds
    where ok: "copied_ok v [] [] hs ds" by (auto simp: sizes_positive_demo u64_max_def)
  have "state_rel v []"
    using append_header_parts(2) [OF u] append_block_signature_parts(2) [OF s] state_rel_empty [of FullArchive]
      state_part_rel [of v "empty_txn FullArchive"] by simp
  then have "ds = []" using ok by (simp add: copied_ok_def state_relD(1) [of v]) (metis length_0_conv state_relD(1))
  with ok r cl m show ?thesis by blast
qed


definition demo_query :: query where
  "demo_query = \<lparr>q_start_block = BNumber 0, q_direction = Backward, q_limit = 3, q_step = 1\<rparr>"


end
