(* ===== verification/Protobuf_Common.thy ===== *)
theory Protobuf_Common
  imports Starknet_Types P2p_Sync_Server "HOL-Library.AList"
begin

text \<open>
  Conversion of the node's data to and from the messages it exchanges with its peers:
  \<open>papyrus_protobuf/src/converters\<close>. This theory holds the converters of \<open>common.rs\<close>, \<open>header.rs\<close>,
  \<open>state_diff.rs\<close> and \<open>event.rs\<close>; transactions are in \<open>Protobuf_Transaction\<close>,
  receipts in \<open>Protobuf_Receipt\<close>, classes in \<open>Protobuf_Class\<close>, consensus messages in \<open>Protobuf_Consensus\<close>.

  \<^item> A message is a record with the fields of its \<open>.proto\<close> definition; a field of message type is an
    option, a \<open>oneof\<close> an option of a datatype, an enum an \<open>i32\<close>. A message with the single field
    \<open>elements\<close> (\<open>Felt252\<close>, \<open>Hash\<close>, \<open>Address\<close>, \<open>EthereumAddress\<close>) is its bytes. How a message is encoded in
    bytes is the business of the library \<open>prost\<close>.
  \<^item> A \<open>converter\<close> holds the two implementations for a type: \<open>c_into\<close> (\<open>From\<close>, which may panic) and
    \<open>c_try_from\<close> (\<open>TryFrom\<close>, which may fail or panic), and the values \<open>c_valid\<close> that survive being sent.
    \<open>converter_ok\<close> says that they do; every converter is proved to satisfy it.
  \<^item> Field elements come from the crate \<open>starknet_types_core\<close>: the record \<open>felt_ext\<close> with the laws
    \<open>felt_ext_ok\<close> (32 bytes, most significant first, and reading back what was written).
  \<^item> \<open>conversion_failure\<close> is \<open>ProtobufConversionError\<close> without the printed value of \<open>OutOfRangeValue\<close>, and with a
    constructor for a panic.
\<close>

section \<open>Converters\<close>

datatype conversion_failure =
    OutOfRangeValue string
  | MissingField string
  | BytesDataLengthMismatch string nat "u8 list"
  | DecodeError string
  | ConversionPanic string

type_synonym 'a converted = "(conversion_failure, 'a) result"

record ('a, 'm) converter =
  c_into :: "'a \<Rightarrow> 'm converted"
  c_try_from :: "'m \<Rightarrow> 'a converted"
  c_valid :: "'a \<Rightarrow> bool"

definition converter_ok :: "('a, 'm) converter \<Rightarrow> bool" where
  "converter_ok c \<longleftrightarrow> (\<forall>x. c_valid c x \<longrightarrow> (\<exists>m. c_into c x = Inr m \<and> c_try_from c m = Inr x))"

definition required :: "string \<Rightarrow> 'a option \<Rightarrow> 'a converted" where
  "required field_description x = (case x of None \<Rightarrow> Inl (MissingField field_description) | Some v \<Rightarrow> Inr v)"

text \<open>\<open>Option::map(..).transpose()?\<close>\<close>

definition transposed :: "('m \<Rightarrow> 'a converted) \<Rightarrow> 'm option \<Rightarrow> 'a option converted" where
  "transposed f x = (case x of None \<Rightarrow> Inr None | Some m \<Rightarrow> res_bind (f m) (\<lambda>v. Inr (Some v)))"

text \<open>
  The macro \<open>auto_impl_into_and_try_from_vec_u8\<close>: a value is sent as the encoded message. The encoding of a
  message type, \<open>encode_to_vec\<close> and \<open>decode\<close>, is generated by \<open>prost\<close>: a codec, of which \<open>prost_codec_ok\<close>
  states that decoding gives back the encoded message.
\<close>

record 'm prost_codec =
  encode_to_vec :: "'m \<Rightarrow> u8 list"
  decode :: "u8 list \<Rightarrow> 'm option"

definition prost_codec_ok :: "'m prost_codec \<Rightarrow> bool" where
  "prost_codec_ok p \<longleftrightarrow> (\<forall>m. decode p (encode_to_vec p m) = Some m)"

definition vec_u8_converter :: "'m prost_codec \<Rightarrow> ('a, 'm) converter \<Rightarrow> ('a, u8 list) converter" where
  "vec_u8_converter p c = \<lparr>
     c_into = (\<lambda>v. res_bind (c_into c v) (\<lambda>protobuf_value. Inr (encode_to_vec p protobuf_value))),
     c_try_from = (\<lambda>bytes. case decode p bytes of
         None \<Rightarrow> Inl (DecodeError ''decode'')
       | Some protobuf_value \<Rightarrow> c_try_from c protobuf_value),
     c_valid = c_valid c\<rparr>"

section \<open>Field elements\<close>

record felt_ext =
  fx_to_bytes_be :: "felt \<Rightarrow> u8 list"
  fx_from_bytes_be :: "u8 list \<Rightarrow> felt"
  fx_is_felt :: "nat \<Rightarrow> bool"
  fx_is_patricia_key :: "felt \<Rightarrow> bool"

definition felt_ext_ok :: "felt_ext \<Rightarrow> bool" where
  "felt_ext_ok ext \<longleftrightarrow>
     (\<forall>f. fx_is_felt ext f \<longrightarrow>
        fx_to_bytes_be ext f = low_bytes 32 f \<and> fx_from_bytes_be ext (fx_to_bytes_be ext f) = f) \<and>
     (\<forall>n < 2 ^ 128. fx_is_felt ext n)"

definition felt_into :: "felt_ext \<Rightarrow> felt \<Rightarrow> u8 list" where
  "felt_into ext f = fx_to_bytes_be ext f"

definition felt_try_from :: "felt_ext \<Rightarrow> u8 list \<Rightarrow> felt converted" where
  "felt_try_from ext elements =
     (if length elements \<noteq> 32 then Inl (ConversionPanic ''copy_from_slice'')
      else Inr (fx_from_bytes_be ext elements))"

definition felts_try_from :: "felt_ext \<Rightarrow> u8 list list \<Rightarrow> felt list converted" where
  "felts_try_from ext = map_res (felt_try_from ext)"

definition hash_try_from :: "felt_ext \<Rightarrow> u8 list \<Rightarrow> felt converted" where
  "hash_try_from ext elements =
     (if length elements \<noteq> 32 then Inl (BytesDataLengthMismatch ''Hash'' 32 elements)
      else Inr (fx_from_bytes_be ext elements))"

definition address_try_from :: "felt_ext \<Rightarrow> u8 list \<Rightarrow> contract_address converted" where
  "address_try_from ext elements =
     (if length elements \<noteq> 32 then Inl (BytesDataLengthMismatch ''Address'' 32 elements)
      else let hash = fx_from_bytes_be ext elements in
           if fx_is_patricia_key ext hash then Inr hash else Inl (OutOfRangeValue ''Address''))"

definition try_from_starkfelt_to_u128 :: "felt_ext \<Rightarrow> felt \<Rightarrow> nat option" where
  "try_from_starkfelt_to_u128 ext f =
     (let felt_be_bytes = fx_to_bytes_be ext f in
      if take 16 felt_be_bytes \<noteq> replicate 16 0 then None else Some (from_be_bytes (drop 16 felt_be_bytes)))"

definition try_from_starkfelt_to_u32 :: "felt_ext \<Rightarrow> felt \<Rightarrow> nat option" where
  "try_from_starkfelt_to_u32 ext f =
     (let felt_be_bytes = fx_to_bytes_be ext f in
      if take 28 felt_be_bytes \<noteq> replicate 28 0 then None else Some (from_be_bytes (drop 28 felt_be_bytes)))"

text \<open>A required \<open>Felt252\<close> that must fit \<open>u128\<close>, as all the fee fields are read.\<close>

definition u128_try_from :: "felt_ext \<Rightarrow> string \<Rightarrow> u8 list option \<Rightarrow> nat converted" where
  "u128_try_from ext field x =
     res_bind (required field x) (\<lambda>elements.
     res_bind (felt_try_from ext elements) (\<lambda>f.
     case try_from_starkfelt_to_u128 ext f of None \<Rightarrow> Inl (OutOfRangeValue ''u128'') | Some n \<Rightarrow> Inr n))"

section \<open>Integers and enums\<close>

record pb_uint128 =
  u128_low :: nat
  u128_high :: nat

definition uint128_into :: "nat \<Rightarrow> pb_uint128" where
  "uint128_into n = \<lparr>u128_low = n mod 2 ^ 64, u128_high = (n div 2 ^ 64) mod 2 ^ 64\<rparr>"

definition uint128_from :: "pb_uint128 \<Rightarrow> nat" where
  "uint128_from m = u128_low m + u128_high m * 2 ^ 64"

text \<open>The data availability mode of a header is a boolean of the model, true for \<open>Blob\<close>.\<close>

definition enum_int_to_l1_data_availability_mode :: "int \<Rightarrow> bool converted" where
  "enum_int_to_l1_data_availability_mode n =
     (if n = 0 then Inr False else if n = 1 then Inr True else Inl (OutOfRangeValue ''DataAvailabilityMode''))"

definition l1_data_availability_mode_to_enum_int :: "bool \<Rightarrow> int" where
  "l1_data_availability_mode_to_enum_int b = (if b then 1 else 0)"

definition enum_int_to_volition_domain :: "int \<Rightarrow> data_availability_mode converted" where
  "enum_int_to_volition_domain n =
     (if n = 0 then Inr DaL1 else if n = 1 then Inr DaL2 else Inl (OutOfRangeValue ''VolitionDomain''))"

definition volition_domain_to_enum_int :: "data_availability_mode \<Rightarrow> int" where
  "volition_domain_to_enum_int d = (case d of DaL1 \<Rightarrow> 0 | DaL2 \<Rightarrow> 1)"

section \<open>Queries\<close>

datatype pb_iteration_start = PbBlockNumber nat | PbHeader "u8 list"

record pb_iteration =
  it_start :: "pb_iteration_start option"
  it_direction :: int
  it_limit :: nat
  it_step :: nat

definition query_converter :: "felt_ext \<Rightarrow> (query, pb_iteration) converter" where
  "query_converter ext = \<lparr>
     c_into = (\<lambda>v. Inr
       \<lparr>it_start = Some (case q_start_block v of
            BNumber number \<Rightarrow> PbBlockNumber number
          | BHash block_hash \<Rightarrow> PbHeader (fx_to_bytes_be ext block_hash)),
        it_direction = (case q_direction v of Forward \<Rightarrow> 0 | Backward \<Rightarrow> 1),
        it_limit = q_limit v, it_step = q_step v\<rparr>),
     c_try_from = (\<lambda>m.
       res_bind (required ''Iteration::start'' (it_start m)) (\<lambda>start.
       res_bind
         (case start of
            PbBlockNumber block_number \<Rightarrow> Inr (BNumber block_number)
          | PbHeader elements \<Rightarrow> res_bind (hash_try_from ext elements) (\<lambda>h. Inr (BHash h))) (\<lambda>start_block.
       res_bind
         (if it_direction m = 0 then Inr Forward
          else if it_direction m = 1 then Inr Backward
          else Inl (OutOfRangeValue ''Direction'')) (\<lambda>direction.
       Inr \<lparr>q_start_block = start_block, q_direction = direction, q_limit = it_limit m, q_step = it_step m\<rparr>)))),
     c_valid = (\<lambda>v. case q_start_block v of BNumber _ \<Rightarrow> True | BHash h \<Rightarrow> fx_is_felt ext h)\<rparr>"

text \<open>The five kinds of request have one field each, the iteration.\<close>

definition request_converter :: "felt_ext \<Rightarrow> string \<Rightarrow> (query, pb_iteration option) converter" where
  "request_converter ext name = \<lparr>
     c_into = (\<lambda>v. res_bind (c_into (query_converter ext) v) (\<lambda>m. Inr (Some m))),
     c_try_from = (\<lambda>m. res_bind (required (name @ ''::iteration'') m) (c_try_from (query_converter ext))),
     c_valid = c_valid (query_converter ext)\<rparr>"

section \<open>Responses\<close>

text \<open>A response is a datum or the end message; a response with neither is an error.\<close>

datatype 'm pb_response = PbData 'm | PbFin

definition response_converter ::
  "string \<Rightarrow> ('a, 'm) converter \<Rightarrow> ('a option, 'm pb_response option) converter" where
  "response_converter field c = \<lparr>
     c_into = (\<lambda>v. case v of
         Some x \<Rightarrow> res_bind (c_into c x) (\<lambda>m. Inr (Some (PbData m)))
       | None \<Rightarrow> Inr (Some PbFin)),
     c_try_from = (\<lambda>m. case m of
         Some (PbData x) \<Rightarrow> res_bind (c_try_from c x) (\<lambda>v. Inr (Some v))
       | Some PbFin \<Rightarrow> Inr None
       | None \<Rightarrow> Inl (MissingField field)),
     c_valid = (\<lambda>v. case v of None \<Rightarrow> True | Some x \<Rightarrow> c_valid c x)\<rparr>"

section \<open>Headers\<close>

type_synonym signature = "felt \<times> felt"

record pb_consensus_signature =
  cs_r :: "u8 list option"
  cs_s :: "u8 list option"

record pb_patricia =
  pa_n_leaves :: nat
  pa_root :: "u8 list option"

record pb_state_diff_commitment =
  sc_state_diff_length :: nat
  sc_root :: "u8 list option"

record pb_signed_block_header =
  ph_block_hash :: "u8 list option"
  ph_parent_hash :: "u8 list option"
  ph_number :: nat
  ph_time :: nat
  ph_sequencer_address :: "u8 list option"
  ph_state_root :: "u8 list option"
  ph_state_diff_commitment :: "pb_state_diff_commitment option"
  ph_transactions :: "pb_patricia option"
  ph_events :: "pb_patricia option"
  ph_receipts :: "u8 list option"
  ph_protocol_version :: string
  ph_gas_price_fri :: "pb_uint128 option"
  ph_gas_price_wei :: "pb_uint128 option"
  ph_data_gas_price_fri :: "pb_uint128 option"
  ph_data_gas_price_wei :: "pb_uint128 option"
  ph_l1_data_availability_mode :: int
  ph_signatures :: "pb_consensus_signature list"

definition signature_converter :: "felt_ext \<Rightarrow> (signature, pb_consensus_signature) converter" where
  "signature_converter ext = \<lparr>
     c_into = (\<lambda>(r, s). Inr \<lparr>cs_r = Some (felt_into ext r), cs_s = Some (felt_into ext s)\<rparr>),
     c_try_from = (\<lambda>m.
       res_bind (required ''SignedBlockHeader::r'' (cs_r m)) (\<lambda>r.
       res_bind (felt_try_from ext r) (\<lambda>r.
       res_bind (required ''SignedBlockHeader::s'' (cs_s m)) (\<lambda>s.
       res_bind (felt_try_from ext s) (\<lambda>s.
       Inr (r, s)))))),
     c_valid = (\<lambda>(r, s). fx_is_felt ext r \<and> fx_is_felt ext s)\<rparr>"

definition hash_field :: "felt_ext \<Rightarrow> string \<Rightarrow> u8 list option \<Rightarrow> felt converted" where
  "hash_field ext field x = res_bind (required field x) (hash_try_from ext)"

definition address_field :: "felt_ext \<Rightarrow> string \<Rightarrow> u8 list option \<Rightarrow> felt converted" where
  "address_field ext field x = res_bind (required field x) (address_try_from ext)"

definition felt_field :: "felt_ext \<Rightarrow> string \<Rightarrow> u8 list option \<Rightarrow> felt converted" where
  "felt_field ext field x = res_bind (required field x) (felt_try_from ext)"

definition header_into :: "felt_ext \<Rightarrow> block_header \<Rightarrow> pb_consensus_signature list \<Rightarrow> pb_signed_block_header" where
  "header_into ext h signatures =
     \<lparr>ph_block_hash = Some (fx_to_bytes_be ext (sbh_block_hash h)),
      ph_parent_hash = Some (fx_to_bytes_be ext (sbh_parent_hash h)),
      ph_number = sbh_block_number h, ph_time = sbh_timestamp h,
      ph_sequencer_address = Some (fx_to_bytes_be ext (sbh_sequencer h)),
      ph_state_root = Some (fx_to_bytes_be ext (sbh_state_root h)),
      ph_state_diff_commitment =
        (case (sbh_state_diff_commitment h, sbh_state_diff_length h) of
           (Some commitment, Some len) \<Rightarrow>
             Some \<lparr>sc_state_diff_length = len, sc_root = Some (fx_to_bytes_be ext commitment)\<rparr>
         | _ \<Rightarrow> None),
      ph_transactions = map_option (\<lambda>commitment.
        \<lparr>pa_n_leaves = sbh_n_transactions h, pa_root = Some (fx_to_bytes_be ext commitment)\<rparr>)
          (sbh_transaction_commitment h),
      ph_events = map_option (\<lambda>commitment.
        \<lparr>pa_n_leaves = sbh_n_events h, pa_root = Some (fx_to_bytes_be ext commitment)\<rparr>) (sbh_event_commitment h),
      ph_receipts = map_option (fx_to_bytes_be ext) (sbh_receipt_commitment h),
      ph_protocol_version = bh_starknet_version h,
      ph_gas_price_fri = Some (uint128_into (fst (sbh_l1_gas_price h))),
      ph_gas_price_wei = Some (uint128_into (snd (sbh_l1_gas_price h))),
      ph_data_gas_price_fri = Some (uint128_into (fst (sbh_l1_data_gas_price h))),
      ph_data_gas_price_wei = Some (uint128_into (snd (sbh_l1_data_gas_price h))),
      ph_l1_data_availability_mode = l1_data_availability_mode_to_enum_int (sbh_l1_da_mode h),
      ph_signatures = signatures\<rparr>"

definition header_try_from ::
  "felt_ext \<Rightarrow> pb_signed_block_header \<Rightarrow> (block_header \<times> signature list) converted" where
  "header_try_from ext m =
     res_bind (hash_field ext ''SignedBlockHeader::block_hash'' (ph_block_hash m)) (\<lambda>block_hash.
     res_bind (hash_field ext ''SignedBlockHeader::parent_hash'' (ph_parent_hash m)) (\<lambda>parent_hash.
     res_bind (address_field ext ''SignedBlockHeader::sequencer_address'' (ph_sequencer_address m)) (\<lambda>sequencer.
     res_bind (hash_field ext ''SignedBlockHeader::state_root'' (ph_state_root m)) (\<lambda>state_root.
     res_bind (required ''SignedBlockHeader::transactions'' (ph_transactions m)) (\<lambda>transactions.
     res_bind (hash_field ext ''Merkle::root'' (pa_root transactions)) (\<lambda>transaction_commitment.
     res_bind (required ''SignedBlockHeader::events'' (ph_events m)) (\<lambda>events.
     res_bind (hash_field ext ''Merkle::root'' (pa_root events)) (\<lambda>event_commitment.
     res_bind (enum_int_to_l1_data_availability_mode (ph_l1_data_availability_mode m)) (\<lambda>l1_da_mode.
     res_bind (required ''SignedBlockHeader::gas_price_fri'' (ph_gas_price_fri m)) (\<lambda>gas_price_fri.
     res_bind (required ''SignedBlockHeader::gas_price_wei'' (ph_gas_price_wei m)) (\<lambda>gas_price_wei.
     res_bind (required ''SignedBlockHeader::data_gas_price_fri'' (ph_data_gas_price_fri m)) (\<lambda>data_gas_price_fri.
     res_bind (required ''SignedBlockHeader::data_gas_price_wei'' (ph_data_gas_price_wei m)) (\<lambda>data_gas_price_wei.
     res_bind (transposed (hash_try_from ext) (ph_receipts m)) (\<lambda>receipt_commitment.
     res_bind (transposed (\<lambda>c. hash_field ext ''StateDiffCommitment::root'' (sc_root c))
                 (ph_state_diff_commitment m)) (\<lambda>state_diff_commitment.
     res_bind (map_res (c_try_from (signature_converter ext)) (ph_signatures m)) (\<lambda>signatures.
     Inr (\<lparr>sbh_block_hash = block_hash, sbh_parent_hash = parent_hash, sbh_block_number = ph_number m,
           sbh_l1_gas_price = (uint128_from gas_price_fri, uint128_from gas_price_wei),
           sbh_l1_data_gas_price = (uint128_from data_gas_price_fri, uint128_from data_gas_price_wei),
           sbh_state_root = state_root, sbh_sequencer = sequencer, sbh_timestamp = ph_time m,
           sbh_l1_da_mode = l1_da_mode, sbh_state_diff_commitment = state_diff_commitment,
           sbh_transaction_commitment = Some transaction_commitment,
           sbh_event_commitment = Some event_commitment, sbh_receipt_commitment = receipt_commitment,
           sbh_state_diff_length = map_option sc_state_diff_length (ph_state_diff_commitment m),
           sbh_n_transactions = pa_n_leaves transactions, sbh_n_events = pa_n_leaves events,
           bh_starknet_version = ph_protocol_version m\<rparr>, signatures)))))))))))))))))"

text \<open>
  A header that survives: the transaction and event commitments are known, and the commitment of the
  state diff is known together with its length.
\<close>

definition header_valid :: "felt_ext \<Rightarrow> block_header \<Rightarrow> bool" where
  "header_valid ext h \<longleftrightarrow>
     fx_is_felt ext (sbh_block_hash h) \<and> fx_is_felt ext (sbh_parent_hash h) \<and> fx_is_felt ext (sbh_state_root h) \<and>
     fx_is_felt ext (sbh_sequencer h) \<and> fx_is_patricia_key ext (sbh_sequencer h) \<and>
     pred_option (fx_is_felt ext) (sbh_transaction_commitment h) \<and> sbh_transaction_commitment h \<noteq> None \<and>
     pred_option (fx_is_felt ext) (sbh_event_commitment h) \<and> sbh_event_commitment h \<noteq> None \<and>
     pred_option (fx_is_felt ext) (sbh_receipt_commitment h) \<and>
     pred_option (fx_is_felt ext) (sbh_state_diff_commitment h) \<and>
     (sbh_state_diff_commitment h = None \<longleftrightarrow> sbh_state_diff_length h = None) \<and>
     fst (sbh_l1_gas_price h) < 2 ^ 128 \<and> snd (sbh_l1_gas_price h) < 2 ^ 128 \<and>
     fst (sbh_l1_data_gas_price h) < 2 ^ 128 \<and> snd (sbh_l1_data_gas_price h) < 2 ^ 128"

definition header_converter ::
  "felt_ext \<Rightarrow> (block_header \<times> signature list, pb_signed_block_header) converter" where
  "header_converter ext = \<lparr>
     c_into = (\<lambda>(h, signatures).
       res_bind (map_res (c_into (signature_converter ext)) signatures) (\<lambda>ms. Inr (header_into ext h ms))),
     c_try_from = header_try_from ext,
     c_valid = (\<lambda>(h, signatures). header_valid ext h \<and> list_all (c_valid (signature_converter ext)) signatures)\<rparr>"

section \<open>State diffs\<close>

record pb_contract_stored_value =
  sv_key :: "u8 list option"
  sv_value :: "u8 list option"

record pb_contract_diff =
  pcd_address :: "u8 list option"
  pcd_nonce :: "u8 list option"
  pcd_class_hash :: "u8 list option"
  pcd_values :: "pb_contract_stored_value list"
  pcd_domain :: int

record pb_declared_class =
  pdc_class_hash :: "u8 list option"
  pdc_compiled_class_hash :: "u8 list option"

datatype pb_state_diff_message = PbContractDiff pb_contract_diff | PbDeclaredClass pb_declared_class

definition stored_value_converter :: "felt_ext \<Rightarrow> (storage_key \<times> felt, pb_contract_stored_value) converter" where
  "stored_value_converter ext = \<lparr>
     c_into = (\<lambda>(key, v). Inr \<lparr>sv_key = Some (felt_into ext key), sv_value = Some (felt_into ext v)\<rparr>),
     c_try_from = (\<lambda>m.
       res_bind (felt_field ext ''ContractStoredValue::key'' (sv_key m)) (\<lambda>key.
       res_bind (if fx_is_patricia_key ext key then Inr key else Inl (OutOfRangeValue ''Felt252'')) (\<lambda>key.
       res_bind (felt_field ext ''ContractStoredValue::value'' (sv_value m)) (\<lambda>v.
       Inr (key, v))))),
     c_valid = (\<lambda>(key, v). fx_is_felt ext key \<and> fx_is_patricia_key ext key \<and> fx_is_felt ext v)\<rparr>"

text \<open>Collecting entries in an \<open>IndexMap\<close>: a repeated key keeps its place and takes the last value.\<close>

definition index_map_collect :: "('k \<times> 'v) list \<Rightarrow> ('k \<times> 'v) list" where
  "index_map_collect es = foldl (\<lambda>m (k, v). AList.update k v m) [] es"

definition contract_diff_converter :: "felt_ext \<Rightarrow> (contract_diff, pb_contract_diff) converter" where
  "contract_diff_converter ext = \<lparr>
     c_into = (\<lambda>v.
       res_bind (map_res (c_into (stored_value_converter ext)) (cd_storage_diffs v)) (\<lambda>values.
       Inr \<lparr>pcd_address = Some (fx_to_bytes_be ext (cd_contract_address v)),
            pcd_nonce = map_option (felt_into ext) (cd_nonce v),
            pcd_class_hash = map_option (fx_to_bytes_be ext) (cd_class_hash v),
            pcd_values = values, pcd_domain = volition_domain_to_enum_int DaL1\<rparr>)),
     c_try_from = (\<lambda>m.
       res_bind (address_field ext ''ContractDiff::address'' (pcd_address m)) (\<lambda>contract_address.
       res_bind (transposed (hash_try_from ext) (pcd_class_hash m)) (\<lambda>class_hash.
       res_bind (transposed (felt_try_from ext) (pcd_nonce m)) (\<lambda>nonce.
       res_bind (map_res (c_try_from (stored_value_converter ext)) (pcd_values m)) (\<lambda>entries.
       Inr \<lparr>cd_contract_address = contract_address, cd_class_hash = class_hash, cd_nonce = nonce,
            cd_storage_diffs = index_map_collect entries\<rparr>))))),
     c_valid = (\<lambda>v. fx_is_felt ext (cd_contract_address v) \<and> fx_is_patricia_key ext (cd_contract_address v) \<and>
       pred_option (fx_is_felt ext) (cd_class_hash v) \<and> pred_option (fx_is_felt ext) (cd_nonce v) \<and>
       distinct (map fst (cd_storage_diffs v)) \<and>
       list_all (c_valid (stored_value_converter ext)) (cd_storage_diffs v))\<rparr>"

definition declared_class_converter ::
  "felt_ext \<Rightarrow> (class_hash \<times> compiled_class_hash, pb_declared_class) converter" where
  "declared_class_converter ext = \<lparr>
     c_into = (\<lambda>(class_hash, compiled_class_hash). Inr
       \<lparr>pdc_class_hash = Some (fx_to_bytes_be ext class_hash),
        pdc_compiled_class_hash = Some (fx_to_bytes_be ext compiled_class_hash)\<rparr>),
     c_try_from = (\<lambda>m.
       res_bind (hash_field ext ''DeclaredClass::class_hash'' (pdc_class_hash m)) (\<lambda>class_hash.
       res_bind (hash_field ext ''DeclaredClass::compiled_class_hash'' (pdc_compiled_class_hash m)) (\<lambda>compiled.
       Inr (class_hash, compiled)))),
     c_valid = (\<lambda>(class_hash, compiled). fx_is_felt ext class_hash \<and> fx_is_felt ext compiled)\<rparr>"

definition deprecated_declared_class_converter :: "felt_ext \<Rightarrow> (class_hash, pb_declared_class) converter" where
  "deprecated_declared_class_converter ext = \<lparr>
     c_into = (\<lambda>class_hash. Inr
       \<lparr>pdc_class_hash = Some (fx_to_bytes_be ext class_hash), pdc_compiled_class_hash = None\<rparr>),
     c_try_from = (\<lambda>m. hash_field ext ''DeclaredClass::class_hash'' (pdc_class_hash m)),
     c_valid = fx_is_felt ext\<rparr>"

definition state_diff_chunk_converter :: "felt_ext \<Rightarrow> (state_diff_chunk, pb_state_diff_message) converter" where
  "state_diff_chunk_converter ext = \<lparr>
     c_into = (\<lambda>v. case v of
         ContractDiff d \<Rightarrow> res_bind (c_into (contract_diff_converter ext) d) (\<lambda>m. Inr (PbContractDiff m))
       | DeclaredClass c h \<Rightarrow> res_bind (c_into (declared_class_converter ext) (c, h)) (\<lambda>m. Inr (PbDeclaredClass m))
       | DeprecatedDeclaredClass c \<Rightarrow>
           res_bind (c_into (deprecated_declared_class_converter ext) c) (\<lambda>m. Inr (PbDeclaredClass m))),
     c_try_from = (\<lambda>m. case m of
         PbContractDiff d \<Rightarrow> res_bind (c_try_from (contract_diff_converter ext) d) (\<lambda>v. Inr (ContractDiff v))
       | PbDeclaredClass d \<Rightarrow>
           (case pdc_compiled_class_hash d of
              Some _ \<Rightarrow> res_bind (c_try_from (declared_class_converter ext) d) (\<lambda>(c, h). Inr (DeclaredClass c h))
            | None \<Rightarrow> res_bind (c_try_from (deprecated_declared_class_converter ext) d)
                (\<lambda>c. Inr (DeprecatedDeclaredClass c)))),
     c_valid = (\<lambda>v. case v of
         ContractDiff d \<Rightarrow> c_valid (contract_diff_converter ext) d
       | DeclaredClass c h \<Rightarrow> c_valid (declared_class_converter ext) (c, h)
       | DeprecatedDeclaredClass c \<Rightarrow> c_valid (deprecated_declared_class_converter ext) c)\<rparr>"

section \<open>Events\<close>

record pb_event =
  pe_transaction_hash :: "u8 list option"
  pe_from_address :: "u8 list option"
  pe_keys :: "u8 list list"
  pe_data :: "u8 list list"

definition event_converter :: "felt_ext \<Rightarrow> (tx_event \<times> tx_hash, pb_event) converter" where
  "event_converter ext = \<lparr>
     c_into = (\<lambda>(ev, transaction_hash). Inr
       \<lparr>pe_transaction_hash = Some (fx_to_bytes_be ext transaction_hash),
        pe_from_address = Some (felt_into ext (te_from_address ev)),
        pe_keys = map (felt_into ext) (ec_keys (te_content ev)),
        pe_data = map (felt_into ext) (ec_data (te_content ev))\<rparr>),
     c_try_from = (\<lambda>m.
       res_bind (hash_field ext ''Event::transaction_hash'' (pe_transaction_hash m)) (\<lambda>transaction_hash.
       res_bind (felt_field ext ''Event::from_address'' (pe_from_address m)) (\<lambda>from_address.
       res_bind (if fx_is_patricia_key ext from_address then Inr from_address
                 else Inl (OutOfRangeValue ''PatriciaKey'')) (\<lambda>from_address.
       res_bind (felts_try_from ext (pe_keys m)) (\<lambda>keys.
       res_bind (felts_try_from ext (pe_data m)) (\<lambda>data.
       Inr (\<lparr>te_from_address = from_address, te_content = \<lparr>ec_keys = keys, ec_data = data\<rparr>\<rparr>, transaction_hash))))))),
     c_valid = (\<lambda>(ev, transaction_hash). fx_is_felt ext transaction_hash \<and> fx_is_felt ext (te_from_address ev) \<and>
       fx_is_patricia_key ext (te_from_address ev) \<and> list_all (fx_is_felt ext) (ec_keys (te_content ev)) \<and>
       list_all (fx_is_felt ext) (ec_data (te_content ev)))\<rparr>"

section \<open>What is sent is received\<close>

named_theorems converter_intros \<open>converters whose values survive\<close>
named_theorems converter_simps \<open>reading back what was written\<close>

lemma converter_okI:
  "(\<And>x. c_valid c x \<Longrightarrow> \<exists>m. c_into c x = Inr m \<and> c_try_from c m = Inr x) \<Longrightarrow> converter_ok c"
  by (simp add: converter_ok_def)

lemma converter_okD: "converter_ok c \<Longrightarrow> c_valid c x \<Longrightarrow> \<exists>m. c_into c x = Inr m \<and> c_try_from c m = Inr x"
  by (simp add: converter_ok_def)

lemma converter_list:
  assumes "converter_ok c" and "list_all (c_valid c) xs"
  shows "\<exists>ms. map_res (c_into c) xs = Inr ms \<and> map_res (c_try_from c) ms = Inr xs"
  using assms(2)
proof (induction xs)
  case (Cons x xs)
  then obtain m ms where "c_into c x = Inr m" "c_try_from c m = Inr x"
    "map_res (c_into c) xs = Inr ms" "map_res (c_try_from c) ms = Inr xs"
    using converter_okD [OF assms(1), of x] by auto
  then show ?case by simp
qed simp

lemma required_Some [converter_simps]: "required field (Some v) = Inr v"
  by (simp add: required_def)

lemma transposed_simps [converter_simps]:
  "transposed f None = Inr None" "transposed f (Some m) = res_bind (f m) (\<lambda>v. Inr (Some v))"
  by (simp_all add: transposed_def)

lemma felt_bytes:
  assumes "felt_ext_ok ext" and "fx_is_felt ext f"
  shows "fx_to_bytes_be ext f = low_bytes 32 f" and "length (fx_to_bytes_be ext f) = 32"
    and "fx_from_bytes_be ext (fx_to_bytes_be ext f) = f"
  using assms by (auto simp: felt_ext_ok_def)

lemma felt_roundtrip [converter_simps]:
  assumes "felt_ext_ok ext" and "fx_is_felt ext f"
  shows "felt_try_from ext (felt_into ext f) = Inr f" and "hash_try_from ext (fx_to_bytes_be ext f) = Inr f"
    and "fx_is_patricia_key ext f \<Longrightarrow> address_try_from ext (fx_to_bytes_be ext f) = Inr f"
  using felt_bytes [OF assms] by (simp_all add: felt_try_from_def felt_into_def hash_try_from_def address_try_from_def)

lemma felts_roundtrip [converter_simps]:
  assumes "felt_ext_ok ext" and "list_all (fx_is_felt ext) fs"
  shows "felts_try_from ext (map (felt_into ext) fs) = Inr fs"
  using assms(2) by (induction fs) (simp_all add: felts_try_from_def felt_roundtrip [OF assms(1)])

lemma fields_roundtrip [converter_simps]:
  assumes "felt_ext_ok ext" and "fx_is_felt ext f"
  shows "felt_field ext field (Some (felt_into ext f)) = Inr f"
    and "hash_field ext field (Some (fx_to_bytes_be ext f)) = Inr f"
    and "fx_is_patricia_key ext f \<Longrightarrow> address_field ext field (Some (fx_to_bytes_be ext f)) = Inr f"
  using felt_roundtrip [OF assms] by (simp_all add: felt_field_def hash_field_def address_field_def required_Some)

lemma transposed_roundtrip [converter_simps]:
  assumes "felt_ext_ok ext" and "pred_option (fx_is_felt ext) x"
  shows "transposed (hash_try_from ext) (map_option (fx_to_bytes_be ext) x) = Inr x"
    and "transposed (felt_try_from ext) (map_option (felt_into ext) x) = Inr x"
  using assms(2) felt_roundtrip [OF assms(1)] by (cases x; simp add: transposed_def)+

lemma low_bytes_zeros: "x < 256 ^ k \<Longrightarrow> low_bytes (j + k) x = replicate j 0 @ low_bytes k x"
proof (induction k arbitrary: x)
  case 0
  have "low_bytes j (0 :: nat) = replicate j 0" by (induction j) (simp_all add: replicate_append_same)
  then show ?case using 0 by simp
next
  case (Suc k)
  then have "x div 256 < 256 ^ k" by (simp add: less_mult_imp_div_less)
  from Suc.IH [OF this] show ?case by simp
qed

lemma starkfelt_to_uint [converter_simps]:
  assumes "felt_ext_ok ext" and "n < 2 ^ 128"
  shows "fx_is_felt ext n" and "try_from_starkfelt_to_u128 ext n = Some n"
    and "n < 2 ^ 32 \<Longrightarrow> try_from_starkfelt_to_u32 ext n = Some n"
proof -
  show f: "fx_is_felt ext n" using assms by (simp add: felt_ext_ok_def)
  have b: "fx_to_bytes_be ext n = low_bytes 32 n" by (rule felt_bytes(1) [OF assms(1) f])
  have p: "(2 :: nat) ^ 128 = 256 ^ 16" "(2 :: nat) ^ 32 = 256 ^ 4" by simp_all
  have "low_bytes (16 + 16) n = replicate 16 0 @ low_bytes 16 n"
    by (rule low_bytes_zeros) (use assms(2) p in simp)
  then show "try_from_starkfelt_to_u128 ext n = Some n"
    using assms(2) p(1) by (simp add: try_from_starkfelt_to_u128_def b from_be_bytes_low_bytes del: low_bytes.simps)
  show "try_from_starkfelt_to_u32 ext n = Some n" if "n < 2 ^ 32"
  proof -
    have "low_bytes (28 + 4) n = replicate 28 0 @ low_bytes 4 n"
      by (rule low_bytes_zeros) (use that p in simp)
    then show ?thesis
      using that p(2) by (simp add: try_from_starkfelt_to_u32_def b from_be_bytes_low_bytes del: low_bytes.simps)
  qed
qed

lemma u128_roundtrip [converter_simps]:
  assumes "felt_ext_ok ext" and "n < 2 ^ 128"
  shows "u128_try_from ext field (Some (felt_into ext n)) = Inr n"
  using starkfelt_to_uint [OF assms] felt_roundtrip(1) [OF assms(1)] by (simp add: u128_try_from_def required_Some)

lemma uint128_roundtrip [converter_simps]: "n < 2 ^ 128 \<Longrightarrow> uint128_from (uint128_into n) = n"
proof -
  assume "n < 2 ^ 128"
  then have "n < 2 ^ 64 * 2 ^ 64" by simp
  then have "n div 2 ^ 64 < 2 ^ 64" by (rule less_mult_imp_div_less)
  then show ?thesis by (simp add: uint128_from_def uint128_into_def)
qed

lemma enums_roundtrip [converter_simps]:
  "enum_int_to_l1_data_availability_mode (l1_data_availability_mode_to_enum_int b) = Inr b"
  "enum_int_to_volition_domain (volition_domain_to_enum_int d) = Inr d"
  by (simp_all add: enum_int_to_l1_data_availability_mode_def l1_data_availability_mode_to_enum_int_def
      enum_int_to_volition_domain_def volition_domain_to_enum_int_def split: data_availability_mode.split)

lemma query_converter_ok [converter_intros]: "felt_ext_ok ext \<Longrightarrow> converter_ok (query_converter ext)"
  by (rule converter_okI)
    (auto simp: query_converter_def converter_simps split: block_hash_or_number.splits direction.splits)

lemma request_converter_ok [converter_intros]: "felt_ext_ok ext \<Longrightarrow> converter_ok (request_converter ext name)"
  using query_converter_ok [of ext] by (fastforce simp: converter_ok_def request_converter_def required_def)

lemma response_converter_ok [converter_intros]: "converter_ok c \<Longrightarrow> converter_ok (response_converter field c)"
  by (rule converter_okI) (auto simp: response_converter_def dest!: converter_okD split: option.splits)

lemma vec_u8_converter_ok [converter_intros]:
  "prost_codec_ok p \<Longrightarrow> converter_ok c \<Longrightarrow> converter_ok (vec_u8_converter p c)"
  by (rule converter_okI) (auto simp: vec_u8_converter_def prost_codec_ok_def dest!: converter_okD)

lemma signature_converter_ok [converter_intros]: "felt_ext_ok ext \<Longrightarrow> converter_ok (signature_converter ext)"
  by (rule converter_okI) (auto simp: signature_converter_def converter_simps)

lemma header_roundtrip:
  assumes ext: "felt_ext_ok ext" and v: "header_valid ext h"
    and sigs: "map_res (c_try_from (signature_converter ext)) ms = Inr signatures"
  shows "header_try_from ext (header_into ext h ms) = Inr (h, signatures)"
proof -
  from v obtain tc ec where c: "sbh_transaction_commitment h = Some tc" "sbh_event_commitment h = Some ec"
    "fx_is_felt ext tc" "fx_is_felt ext ec" by (auto simp: header_valid_def)
  note f = v [unfolded header_valid_def]
  have sd: "transposed (\<lambda>c. hash_field ext ''StateDiffCommitment::root'' (sc_root c))
      (ph_state_diff_commitment (header_into ext h ms)) = Inr (sbh_state_diff_commitment h)"
    "map_option sc_state_diff_length (ph_state_diff_commitment (header_into ext h ms)) = sbh_state_diff_length h"
    using f by (cases "sbh_state_diff_commitment h"; cases "sbh_state_diff_length h";
        simp add: header_into_def converter_simps ext)+
  show ?thesis
    unfolding header_try_from_def sd
    using f c sigs by (simp add: header_into_def converter_simps ext)
qed

lemma header_converter_ok [converter_intros]: "felt_ext_ok ext \<Longrightarrow> converter_ok (header_converter ext)"
proof (rule converter_okI)
  fix x
  assume ext: "felt_ext_ok ext" and v: "c_valid (header_converter ext) x"
  obtain h signatures where x: "x = (h, signatures)" by (cases x)
  from v have hv: "header_valid ext h" "list_all (c_valid (signature_converter ext)) signatures"
    by (simp_all add: header_converter_def x)
  from converter_list [OF signature_converter_ok [OF ext] hv(2)] obtain ms
    where "map_res (c_into (signature_converter ext)) signatures = Inr ms"
      "map_res (c_try_from (signature_converter ext)) ms = Inr signatures" by blast
  with header_roundtrip [OF ext hv(1) this(2)]
  show "\<exists>m. c_into (header_converter ext) x = Inr m \<and> c_try_from (header_converter ext) m = Inr x"
    by (simp add: header_converter_def x)
qed

lemma stored_value_converter_ok [converter_intros]: "felt_ext_ok ext \<Longrightarrow> converter_ok (stored_value_converter ext)"
  by (rule converter_okI) (auto simp: stored_value_converter_def converter_simps)

lemma update_new: "k \<notin> fst ` set m \<Longrightarrow> AList.update k v m = m @ [(k, v)]"
  by (induction m) auto

lemma index_map_collect_snoc:
  "index_map_collect (es @ [(k, v)]) = AList.update k v (index_map_collect es)"
  by (simp add: index_map_collect_def)

lemma index_map_collect_distinct: "distinct (map fst es) \<Longrightarrow> index_map_collect es = es"
proof (induction es rule: rev_induct)
  case Nil
  then show ?case by (simp add: index_map_collect_def)
next
  case (snoc e es)
  then show ?case by (cases e) (auto simp: index_map_collect_snoc update_new)
qed

lemma distinct_index_map_collect: "distinct (map fst (index_map_collect es))"
proof (induction es rule: rev_induct)
  case Nil
  then show ?case by (simp add: index_map_collect_def)
next
  case (snoc e es)
  then show ?case by (cases e) (simp add: index_map_collect_snoc distinct_update)
qed

lemma contract_diff_converter_ok [converter_intros]:
  assumes ext: "felt_ext_ok ext"
  shows "converter_ok (contract_diff_converter ext)"
proof (rule converter_okI)
  fix x
  assume v: "c_valid (contract_diff_converter ext) x"
  from v have "list_all (c_valid (stored_value_converter ext)) (cd_storage_diffs x)"
    by (simp add: contract_diff_converter_def)
  from converter_list [OF stored_value_converter_ok [OF ext] this] obtain ms
    where "map_res (c_into (stored_value_converter ext)) (cd_storage_diffs x) = Inr ms"
      "map_res (c_try_from (stored_value_converter ext)) ms = Inr (cd_storage_diffs x)" by blast
  with v show "\<exists>m. c_into (contract_diff_converter ext) x = Inr m \<and> c_try_from (contract_diff_converter ext) m = Inr x"
    by (simp add: contract_diff_converter_def converter_simps ext index_map_collect_distinct)
qed

lemma class_converters_ok [converter_intros]:
  "felt_ext_ok ext \<Longrightarrow> converter_ok (declared_class_converter ext)"
  "felt_ext_ok ext \<Longrightarrow> converter_ok (deprecated_declared_class_converter ext)"
  by (rule converter_okI; auto simp: declared_class_converter_def deprecated_declared_class_converter_def converter_simps)+

lemma state_diff_chunk_converter_ok [converter_intros]:
  assumes ext: "felt_ext_ok ext"
  shows "converter_ok (state_diff_chunk_converter ext)"
proof (rule converter_okI)
  fix x
  assume v: "c_valid (state_diff_chunk_converter ext) x"
  show "\<exists>m. c_into (state_diff_chunk_converter ext) x = Inr m \<and> c_try_from (state_diff_chunk_converter ext) m = Inr x"
  proof (cases x)
    case (ContractDiff d)
    with v converter_okD [OF contract_diff_converter_ok [OF ext], of d] show ?thesis
      by (auto simp: state_diff_chunk_converter_def)
  next
    case (DeclaredClass c h)
    with v show ?thesis
      by (simp add: state_diff_chunk_converter_def declared_class_converter_def converter_simps ext)
  next
    case (DeprecatedDeclaredClass c)
    with v show ?thesis
      by (simp add: state_diff_chunk_converter_def deprecated_declared_class_converter_def converter_simps ext)
  qed
qed

text \<open>Whatever message a chunk comes from, the entries of its storage have different keys.\<close>

lemma received_chunk_distinct:
  assumes "c_try_from (state_diff_chunk_converter ext) m = Inr (ContractDiff d)"
  shows "distinct (map fst (cd_storage_diffs d))"
  using assms
  by (auto simp: state_diff_chunk_converter_def contract_diff_converter_def res_bind_eq_Inr distinct_index_map_collect
      split: pb_state_diff_message.splits option.splits)

lemma event_converter_ok [converter_intros]: "felt_ext_ok ext \<Longrightarrow> converter_ok (event_converter ext)"
  by (rule converter_okI) (auto simp: event_converter_def converter_simps)

end
