(* ===== verification/Protobuf_Transaction.thy ===== *)
theory Protobuf_Transaction
  imports Protobuf_Common
begin

text \<open>
  The converters of transactions: \<open>papyrus_protobuf/src/converters/transaction.rs\<close>, with the messages of
  \<open>transaction.proto\<close>. There is one message and one converter for each version of each kind of
  transaction; \<open>transaction_converter\<close> chooses among them. The checks of \<open>c_try_from\<close> are in the order of
  the code, so that the first missing or malformed field decides the error. What is lost on the way is
  excluded by \<open>c_valid\<close>: a declare transaction of version 0 has no nonce on the wire, the version of an L1
  handler transaction is not sent, and the version of a deploy transaction is sent as \<open>u32\<close> (0 when it
  does not fit).
\<close>

section \<open>Resource bounds\<close>

record pb_resource_limits =
  rl_max_amount :: nat
  rl_max_price_per_unit :: "u8 list option"

record pb_resource_bounds =
  prb_l1_gas :: "pb_resource_limits option"
  prb_l2_gas :: "pb_resource_limits option"

definition resource_bounds_default :: resource_bounds where
  "resource_bounds_default = \<lparr>rb_max_amount = 0, rb_max_price_per_unit = 0\<rparr>"

definition resource_bounds_into :: "felt_ext \<Rightarrow> resource_bounds_mapping \<Rightarrow> pb_resource_bounds" where
  "resource_bounds_into ext v =
     (let bounds = (\<lambda>r. case map_of v r of None \<Rightarrow> resource_bounds_default | Some b \<Rightarrow> b);
          limits = (\<lambda>b. \<lparr>rl_max_amount = rb_max_amount b,
                         rl_max_price_per_unit = Some (felt_into ext (rb_max_price_per_unit b))\<rparr>)
      in \<lparr>prb_l1_gas = Some (limits (bounds L1Gas)), prb_l2_gas = Some (limits (bounds L2Gas))\<rparr>)"

definition resource_bounds_try_from :: "felt_ext \<Rightarrow> pb_resource_bounds \<Rightarrow> resource_bounds_mapping converted" where
  "resource_bounds_try_from ext m =
     res_bind (required ''ResourceBounds::l1_gas'' (prb_l1_gas m)) (\<lambda>l1_gas.
     res_bind (u128_try_from ext ''ResourceBounds::l1_gas::max_price_per_unit'' (rl_max_price_per_unit l1_gas)) (\<lambda>l1_price.
     res_bind (required ''ResourceBounds::l2_gas'' (prb_l2_gas m)) (\<lambda>l2_gas.
     res_bind (u128_try_from ext ''ResourceBounds::l2_gas::max_price_per_unit'' (rl_max_price_per_unit l2_gas)) (\<lambda>l2_price.
     Inr [(L1Gas, \<lparr>rb_max_amount = rl_max_amount l1_gas, rb_max_price_per_unit = l1_price\<rparr>),
          (L2Gas, \<lparr>rb_max_amount = rl_max_amount l2_gas, rb_max_price_per_unit = l2_price\<rparr>)]))))"

text \<open>The bounds that survive: both resources are present. An absent one arrives as zero bounds.\<close>

definition resource_bounds_valid :: "resource_bounds_mapping \<Rightarrow> bool" where
  "resource_bounds_valid v \<longleftrightarrow>
     map fst v = [L1Gas, L2Gas] \<and> list_all (\<lambda>(_, b). rb_max_price_per_unit b < 2 ^ 128) v"

section \<open>The messages\<close>

record pb_deploy_account_v1 =
  pda1_max_fee :: "u8 list option"
  pda1_signature :: "u8 list list option"
  pda1_class_hash :: "u8 list option"
  pda1_nonce :: "u8 list option"
  pda1_address_salt :: "u8 list option"
  pda1_calldata :: "u8 list list"

record pb_deploy_account_v3 =
  pda3_signature :: "u8 list list option"
  pda3_class_hash :: "u8 list option"
  pda3_nonce :: "u8 list option"
  pda3_address_salt :: "u8 list option"
  pda3_calldata :: "u8 list list"
  pda3_resource_bounds :: "pb_resource_bounds option"
  pda3_tip :: "nat"
  pda3_paymaster_data :: "u8 list list"
  pda3_nonce_data_availability_mode :: "int"
  pda3_fee_data_availability_mode :: "int"

record pb_invoke_v0 =
  pi0_max_fee :: "u8 list option"
  pi0_signature :: "u8 list list option"
  pi0_address :: "u8 list option"
  pi0_entry_point_selector :: "u8 list option"
  pi0_calldata :: "u8 list list"

record pb_invoke_v1 =
  pi1_sender :: "u8 list option"
  pi1_max_fee :: "u8 list option"
  pi1_signature :: "u8 list list option"
  pi1_calldata :: "u8 list list"
  pi1_nonce :: "u8 list option"

record pb_invoke_v3 =
  pi3_sender :: "u8 list option"
  pi3_signature :: "u8 list list option"
  pi3_calldata :: "u8 list list"
  pi3_resource_bounds :: "pb_resource_bounds option"
  pi3_tip :: "nat"
  pi3_paymaster_data :: "u8 list list"
  pi3_account_deployment_data :: "u8 list list"
  pi3_nonce_data_availability_mode :: "int"
  pi3_fee_data_availability_mode :: "int"
  pi3_nonce :: "u8 list option"

record pb_declare_v0 =
  pd0_sender :: "u8 list option"
  pd0_max_fee :: "u8 list option"
  pd0_signature :: "u8 list list option"
  pd0_class_hash :: "u8 list option"

record pb_declare_v1 =
  pd1_sender :: "u8 list option"
  pd1_max_fee :: "u8 list option"
  pd1_signature :: "u8 list list option"
  pd1_class_hash :: "u8 list option"
  pd1_nonce :: "u8 list option"

record pb_declare_v2 =
  pd2_sender :: "u8 list option"
  pd2_max_fee :: "u8 list option"
  pd2_signature :: "u8 list list option"
  pd2_class_hash :: "u8 list option"
  pd2_nonce :: "u8 list option"
  pd2_compiled_class_hash :: "u8 list option"

record pb_declare_v3 =
  pd3_sender :: "u8 list option"
  pd3_signature :: "u8 list list option"
  pd3_class_hash :: "u8 list option"
  pd3_nonce :: "u8 list option"
  pd3_compiled_class_hash :: "u8 list option"
  pd3_resource_bounds :: "pb_resource_bounds option"
  pd3_tip :: "nat"
  pd3_paymaster_data :: "u8 list list"
  pd3_account_deployment_data :: "u8 list list"
  pd3_nonce_data_availability_mode :: "int"
  pd3_fee_data_availability_mode :: "int"

record pb_deploy =
  pdp_class_hash :: "u8 list option"
  pdp_address_salt :: "u8 list option"
  pdp_calldata :: "u8 list list"
  pdp_version :: "nat"

record pb_l1_handler_v0 =
  pl0_nonce :: "u8 list option"
  pl0_address :: "u8 list option"
  pl0_entry_point_selector :: "u8 list option"
  pl0_calldata :: "u8 list list"

datatype pb_txn =
    PbDeclareV0 pb_declare_v0
  | PbDeclareV1 pb_declare_v1
  | PbDeclareV2 pb_declare_v2
  | PbDeclareV3 pb_declare_v3
  | PbDeploy pb_deploy
  | PbDeployAccountV1 pb_deploy_account_v1
  | PbDeployAccountV3 pb_deploy_account_v3
  | PbInvokeV0 pb_invoke_v0
  | PbInvokeV1 pb_invoke_v1
  | PbInvokeV3 pb_invoke_v3
  | PbL1Handler pb_l1_handler_v0

type_synonym pb_transaction = "pb_txn option"

section \<open>The converters\<close>

definition deploy_account_v1_converter :: "felt_ext \<Rightarrow> (deploy_account_transaction_v1, pb_deploy_account_v1) converter" where
  "deploy_account_v1_converter ext = \<lparr>
     c_into = (\<lambda>v. Inr
       \<lparr>pda1_max_fee = Some (felt_into ext (da1_max_fee v)),
        pda1_signature = Some (map (felt_into ext) (da1_signature v)),
        pda1_class_hash = Some (fx_to_bytes_be ext (da1_class_hash v)),
        pda1_nonce = Some (felt_into ext (da1_nonce v)),
        pda1_address_salt = Some (felt_into ext (da1_contract_address_salt v)),
        pda1_calldata = map (felt_into ext) (da1_constructor_calldata v)\<rparr>),
     c_try_from = (\<lambda>m.
       res_bind (u128_try_from ext ''DeployAccountV1::max_fee'' (pda1_max_fee m)) (\<lambda>max_fee.
       res_bind (res_bind (required ''DeployAccountV1::signature'' (pda1_signature m)) (felts_try_from ext)) (\<lambda>signature.
       res_bind (felt_field ext ''DeployAccountV1::nonce'' (pda1_nonce m)) (\<lambda>nonce.
       res_bind (hash_field ext ''DeployAccountV1::class_hash'' (pda1_class_hash m)) (\<lambda>class_hash.
       res_bind (felt_field ext ''DeployAccountV1::address_salt'' (pda1_address_salt m)) (\<lambda>contract_address_salt.
       res_bind (felts_try_from ext (pda1_calldata m)) (\<lambda>constructor_calldata.
       Inr \<lparr>da1_max_fee = max_fee, da1_signature = signature, da1_nonce = nonce, da1_class_hash = class_hash,
            da1_contract_address_salt = contract_address_salt, da1_constructor_calldata = constructor_calldata\<rparr>))))))),
     c_valid = (\<lambda>v. da1_max_fee v < 2 ^ 128 \<and> list_all (fx_is_felt ext) (da1_signature v) \<and>
       fx_is_felt ext (da1_nonce v) \<and> fx_is_felt ext (da1_class_hash v) \<and>
       fx_is_felt ext (da1_contract_address_salt v) \<and>
       list_all (fx_is_felt ext) (da1_constructor_calldata v))\<rparr>"

definition deploy_account_v3_converter :: "felt_ext \<Rightarrow> (deploy_account_transaction_v3, pb_deploy_account_v3) converter" where
  "deploy_account_v3_converter ext = \<lparr>
     c_into = (\<lambda>v. Inr
       \<lparr>pda3_signature = Some (map (felt_into ext) (da3_signature v)),
        pda3_class_hash = Some (fx_to_bytes_be ext (da3_class_hash v)),
        pda3_nonce = Some (felt_into ext (da3_nonce v)),
        pda3_address_salt = Some (felt_into ext (da3_contract_address_salt v)),
        pda3_calldata = map (felt_into ext) (da3_constructor_calldata v),
        pda3_resource_bounds = Some (resource_bounds_into ext (da3_resource_bounds v)), pda3_tip = da3_tip v,
        pda3_paymaster_data = map (felt_into ext) (da3_paymaster_data v),
        pda3_nonce_data_availability_mode = volition_domain_to_enum_int (da3_nonce_data_availability_mode v),
        pda3_fee_data_availability_mode = volition_domain_to_enum_int (da3_fee_data_availability_mode v)\<rparr>),
     c_try_from = (\<lambda>m.
       res_bind (res_bind (required ''DeployAccountV3::resource_bounds'' (pda3_resource_bounds m)) (resource_bounds_try_from ext)) (\<lambda>resource_bounds.
       res_bind (res_bind (required ''DeployAccountV3::signature'' (pda3_signature m)) (felts_try_from ext)) (\<lambda>signature.
       res_bind (felt_field ext ''DeployAccountV3::nonce'' (pda3_nonce m)) (\<lambda>nonce.
       res_bind (hash_field ext ''DeployAccountV3::class_hash'' (pda3_class_hash m)) (\<lambda>class_hash.
       res_bind (felt_field ext ''DeployAccountV3::address_salt'' (pda3_address_salt m)) (\<lambda>contract_address_salt.
       res_bind (felts_try_from ext (pda3_calldata m)) (\<lambda>constructor_calldata.
       res_bind (enum_int_to_volition_domain (pda3_nonce_data_availability_mode m)) (\<lambda>nonce_data_availability_mode.
       res_bind (enum_int_to_volition_domain (pda3_fee_data_availability_mode m)) (\<lambda>fee_data_availability_mode.
       res_bind (felts_try_from ext (pda3_paymaster_data m)) (\<lambda>paymaster_data.
       Inr \<lparr>da3_resource_bounds = resource_bounds, da3_tip = pda3_tip m, da3_signature = signature,
            da3_nonce = nonce, da3_class_hash = class_hash, da3_contract_address_salt = contract_address_salt,
            da3_constructor_calldata = constructor_calldata,
            da3_nonce_data_availability_mode = nonce_data_availability_mode,
            da3_fee_data_availability_mode = fee_data_availability_mode, da3_paymaster_data = paymaster_data\<rparr>)))))))))),
     c_valid = (\<lambda>v. resource_bounds_valid (da3_resource_bounds v) \<and>
       list_all (fx_is_felt ext) (da3_signature v) \<and> fx_is_felt ext (da3_nonce v) \<and>
       fx_is_felt ext (da3_class_hash v) \<and> fx_is_felt ext (da3_contract_address_salt v) \<and>
       list_all (fx_is_felt ext) (da3_constructor_calldata v) \<and>
       list_all (fx_is_felt ext) (da3_paymaster_data v))\<rparr>"

definition invoke_v0_converter :: "felt_ext \<Rightarrow> (invoke_transaction_v0, pb_invoke_v0) converter" where
  "invoke_v0_converter ext = \<lparr>
     c_into = (\<lambda>v. Inr
       \<lparr>pi0_max_fee = Some (felt_into ext (i0_max_fee v)),
        pi0_signature = Some (map (felt_into ext) (i0_signature v)),
        pi0_address = Some (fx_to_bytes_be ext (i0_contract_address v)),
        pi0_entry_point_selector = Some (felt_into ext (i0_entry_point_selector v)),
        pi0_calldata = map (felt_into ext) (i0_calldata v)\<rparr>),
     c_try_from = (\<lambda>m.
       res_bind (u128_try_from ext ''InvokeV0::max_fee'' (pi0_max_fee m)) (\<lambda>max_fee.
       res_bind (res_bind (required ''InvokeV0::signature'' (pi0_signature m)) (felts_try_from ext)) (\<lambda>signature.
       res_bind (address_field ext ''InvokeV0::address'' (pi0_address m)) (\<lambda>contract_address.
       res_bind (felt_field ext ''InvokeV0::entry_point_selector'' (pi0_entry_point_selector m)) (\<lambda>entry_point_selector.
       res_bind (felts_try_from ext (pi0_calldata m)) (\<lambda>calldata.
       Inr \<lparr>i0_max_fee = max_fee, i0_signature = signature, i0_contract_address = contract_address,
            i0_entry_point_selector = entry_point_selector, i0_calldata = calldata\<rparr>)))))),
     c_valid = (\<lambda>v. i0_max_fee v < 2 ^ 128 \<and> list_all (fx_is_felt ext) (i0_signature v) \<and>
       fx_is_felt ext (i0_contract_address v) \<and> fx_is_patricia_key ext (i0_contract_address v) \<and>
       fx_is_felt ext (i0_entry_point_selector v) \<and> list_all (fx_is_felt ext) (i0_calldata v))\<rparr>"

definition invoke_v1_converter :: "felt_ext \<Rightarrow> (invoke_transaction_v1, pb_invoke_v1) converter" where
  "invoke_v1_converter ext = \<lparr>
     c_into = (\<lambda>v. Inr
       \<lparr>pi1_sender = Some (fx_to_bytes_be ext (i1_sender_address v)),
        pi1_max_fee = Some (felt_into ext (i1_max_fee v)),
        pi1_signature = Some (map (felt_into ext) (i1_signature v)),
        pi1_calldata = map (felt_into ext) (i1_calldata v), pi1_nonce = Some (felt_into ext (i1_nonce v))\<rparr>),
     c_try_from = (\<lambda>m.
       res_bind (u128_try_from ext ''InvokeV1::max_fee'' (pi1_max_fee m)) (\<lambda>max_fee.
       res_bind (res_bind (required ''InvokeV1::signature'' (pi1_signature m)) (felts_try_from ext)) (\<lambda>signature.
       res_bind (address_field ext ''InvokeV1::sender'' (pi1_sender m)) (\<lambda>sender_address.
       res_bind (felt_field ext ''InvokeV1::nonce'' (pi1_nonce m)) (\<lambda>nonce.
       res_bind (felts_try_from ext (pi1_calldata m)) (\<lambda>calldata.
       Inr \<lparr>i1_max_fee = max_fee, i1_signature = signature, i1_nonce = nonce,
            i1_sender_address = sender_address, i1_calldata = calldata\<rparr>)))))),
     c_valid = (\<lambda>v. i1_max_fee v < 2 ^ 128 \<and> list_all (fx_is_felt ext) (i1_signature v) \<and>
       fx_is_felt ext (i1_nonce v) \<and> fx_is_felt ext (i1_sender_address v) \<and>
       fx_is_patricia_key ext (i1_sender_address v) \<and> list_all (fx_is_felt ext) (i1_calldata v))\<rparr>"

definition invoke_v3_converter :: "felt_ext \<Rightarrow> (invoke_transaction_v3, pb_invoke_v3) converter" where
  "invoke_v3_converter ext = \<lparr>
     c_into = (\<lambda>v. Inr
       \<lparr>pi3_sender = Some (fx_to_bytes_be ext (i3_sender_address v)),
        pi3_signature = Some (map (felt_into ext) (i3_signature v)),
        pi3_calldata = map (felt_into ext) (i3_calldata v),
        pi3_resource_bounds = Some (resource_bounds_into ext (i3_resource_bounds v)), pi3_tip = i3_tip v,
        pi3_paymaster_data = map (felt_into ext) (i3_paymaster_data v),
        pi3_account_deployment_data = map (felt_into ext) (i3_account_deployment_data v),
        pi3_nonce_data_availability_mode = volition_domain_to_enum_int (i3_nonce_data_availability_mode v),
        pi3_fee_data_availability_mode = volition_domain_to_enum_int (i3_fee_data_availability_mode v),
        pi3_nonce = Some (felt_into ext (i3_nonce v))\<rparr>),
     c_try_from = (\<lambda>m.
       res_bind (res_bind (required ''InvokeV3::resource_bounds'' (pi3_resource_bounds m)) (resource_bounds_try_from ext)) (\<lambda>resource_bounds.
       res_bind (res_bind (required ''InvokeV3::signature'' (pi3_signature m)) (felts_try_from ext)) (\<lambda>signature.
       res_bind (felt_field ext ''InvokeV3::nonce'' (pi3_nonce m)) (\<lambda>nonce.
       res_bind (address_field ext ''InvokeV3::sender'' (pi3_sender m)) (\<lambda>sender_address.
       res_bind (felts_try_from ext (pi3_calldata m)) (\<lambda>calldata.
       res_bind (enum_int_to_volition_domain (pi3_nonce_data_availability_mode m)) (\<lambda>nonce_data_availability_mode.
       res_bind (enum_int_to_volition_domain (pi3_fee_data_availability_mode m)) (\<lambda>fee_data_availability_mode.
       res_bind (felts_try_from ext (pi3_paymaster_data m)) (\<lambda>paymaster_data.
       res_bind (felts_try_from ext (pi3_account_deployment_data m)) (\<lambda>account_deployment_data.
       Inr \<lparr>i3_resource_bounds = resource_bounds, i3_tip = pi3_tip m, i3_signature = signature,
            i3_nonce = nonce, i3_sender_address = sender_address, i3_calldata = calldata,
            i3_nonce_data_availability_mode = nonce_data_availability_mode,
            i3_fee_data_availability_mode = fee_data_availability_mode, i3_paymaster_data = paymaster_data,
            i3_account_deployment_data = account_deployment_data\<rparr>)))))))))),
     c_valid = (\<lambda>v. resource_bounds_valid (i3_resource_bounds v) \<and>
       list_all (fx_is_felt ext) (i3_signature v) \<and> fx_is_felt ext (i3_nonce v) \<and>
       fx_is_felt ext (i3_sender_address v) \<and> fx_is_patricia_key ext (i3_sender_address v) \<and>
       list_all (fx_is_felt ext) (i3_calldata v) \<and> list_all (fx_is_felt ext) (i3_paymaster_data v) \<and>
       list_all (fx_is_felt ext) (i3_account_deployment_data v))\<rparr>"

definition declare_v0_converter :: "felt_ext \<Rightarrow> (declare_transaction_v0v1, pb_declare_v0) converter" where
  "declare_v0_converter ext = \<lparr>
     c_into = (\<lambda>v. Inr
       \<lparr>pd0_sender = Some (fx_to_bytes_be ext (d1_sender_address v)),
        pd0_max_fee = Some (felt_into ext (d1_max_fee v)),
        pd0_signature = Some (map (felt_into ext) (d1_signature v)),
        pd0_class_hash = Some (fx_to_bytes_be ext (d1_class_hash v))\<rparr>),
     c_try_from = (\<lambda>m.
       res_bind (u128_try_from ext ''DeclareV0::max_fee'' (pd0_max_fee m)) (\<lambda>max_fee.
       res_bind (res_bind (required ''DeclareV0::signature'' (pd0_signature m)) (felts_try_from ext)) (\<lambda>signature.
       res_bind (hash_field ext ''DeclareV0::class_hash'' (pd0_class_hash m)) (\<lambda>class_hash.
       res_bind (address_field ext ''DeclareV0::sender'' (pd0_sender m)) (\<lambda>sender_address.
       Inr \<lparr>d1_max_fee = max_fee, d1_signature = signature, d1_nonce = 0, d1_class_hash = class_hash,
            d1_sender_address = sender_address\<rparr>))))),
     c_valid = (\<lambda>v. d1_max_fee v < 2 ^ 128 \<and> list_all (fx_is_felt ext) (d1_signature v) \<and>
       d1_nonce v = 0 \<and> fx_is_felt ext (d1_class_hash v) \<and>
       fx_is_felt ext (d1_sender_address v) \<and> fx_is_patricia_key ext (d1_sender_address v))\<rparr>"

definition declare_v1_converter :: "felt_ext \<Rightarrow> (declare_transaction_v0v1, pb_declare_v1) converter" where
  "declare_v1_converter ext = \<lparr>
     c_into = (\<lambda>v. Inr
       \<lparr>pd1_sender = Some (fx_to_bytes_be ext (d1_sender_address v)),
        pd1_max_fee = Some (felt_into ext (d1_max_fee v)),
        pd1_signature = Some (map (felt_into ext) (d1_signature v)),
        pd1_class_hash = Some (fx_to_bytes_be ext (d1_class_hash v)),
        pd1_nonce = Some (felt_into ext (d1_nonce v))\<rparr>),
     c_try_from = (\<lambda>m.
       res_bind (u128_try_from ext ''DeclareV1::max_fee'' (pd1_max_fee m)) (\<lambda>max_fee.
       res_bind (res_bind (required ''DeclareV1::signature'' (pd1_signature m)) (felts_try_from ext)) (\<lambda>signature.
       res_bind (felt_field ext ''DeclareV1::nonce'' (pd1_nonce m)) (\<lambda>nonce.
       res_bind (hash_field ext ''DeclareV1::class_hash'' (pd1_class_hash m)) (\<lambda>class_hash.
       res_bind (address_field ext ''DeclareV1::sender'' (pd1_sender m)) (\<lambda>sender_address.
       Inr \<lparr>d1_max_fee = max_fee, d1_signature = signature, d1_nonce = nonce, d1_class_hash = class_hash,
            d1_sender_address = sender_address\<rparr>)))))),
     c_valid = (\<lambda>v. d1_max_fee v < 2 ^ 128 \<and> list_all (fx_is_felt ext) (d1_signature v) \<and>
       fx_is_felt ext (d1_nonce v) \<and> fx_is_felt ext (d1_class_hash v) \<and>
       fx_is_felt ext (d1_sender_address v) \<and> fx_is_patricia_key ext (d1_sender_address v))\<rparr>"

definition declare_v2_converter :: "felt_ext \<Rightarrow> (declare_transaction_v2, pb_declare_v2) converter" where
  "declare_v2_converter ext = \<lparr>
     c_into = (\<lambda>v. Inr
       \<lparr>pd2_sender = Some (fx_to_bytes_be ext (d2_sender_address v)),
        pd2_max_fee = Some (felt_into ext (d2_max_fee v)),
        pd2_signature = Some (map (felt_into ext) (d2_signature v)),
        pd2_class_hash = Some (fx_to_bytes_be ext (d2_class_hash v)),
        pd2_nonce = Some (felt_into ext (d2_nonce v)),
        pd2_compiled_class_hash = Some (fx_to_bytes_be ext (d2_compiled_class_hash v))\<rparr>),
     c_try_from = (\<lambda>m.
       res_bind (u128_try_from ext ''DeclareV2::max_fee'' (pd2_max_fee m)) (\<lambda>max_fee.
       res_bind (res_bind (required ''DeclareV2::signature'' (pd2_signature m)) (felts_try_from ext)) (\<lambda>signature.
       res_bind (felt_field ext ''DeclareV2::nonce'' (pd2_nonce m)) (\<lambda>nonce.
       res_bind (hash_field ext ''DeclareV2::class_hash'' (pd2_class_hash m)) (\<lambda>class_hash.
       res_bind (hash_field ext ''DeclareV2::compiled_class_hash'' (pd2_compiled_class_hash m)) (\<lambda>compiled_class_hash.
       res_bind (address_field ext ''DeclareV2::sender'' (pd2_sender m)) (\<lambda>sender_address.
       Inr \<lparr>d2_max_fee = max_fee, d2_signature = signature, d2_nonce = nonce, d2_class_hash = class_hash,
            d2_compiled_class_hash = compiled_class_hash, d2_sender_address = sender_address\<rparr>))))))),
     c_valid = (\<lambda>v. d2_max_fee v < 2 ^ 128 \<and> list_all (fx_is_felt ext) (d2_signature v) \<and>
       fx_is_felt ext (d2_nonce v) \<and> fx_is_felt ext (d2_class_hash v) \<and>
       fx_is_felt ext (d2_compiled_class_hash v) \<and> fx_is_felt ext (d2_sender_address v) \<and>
       fx_is_patricia_key ext (d2_sender_address v))\<rparr>"

definition declare_v3_converter :: "felt_ext \<Rightarrow> (declare_transaction_v3, pb_declare_v3) converter" where
  "declare_v3_converter ext = \<lparr>
     c_into = (\<lambda>v. Inr
       \<lparr>pd3_sender = Some (fx_to_bytes_be ext (d3_sender_address v)),
        pd3_signature = Some (map (felt_into ext) (d3_signature v)),
        pd3_class_hash = Some (fx_to_bytes_be ext (d3_class_hash v)),
        pd3_nonce = Some (felt_into ext (d3_nonce v)),
        pd3_compiled_class_hash = Some (fx_to_bytes_be ext (d3_compiled_class_hash v)),
        pd3_resource_bounds = Some (resource_bounds_into ext (d3_resource_bounds v)), pd3_tip = d3_tip v,
        pd3_paymaster_data = map (felt_into ext) (d3_paymaster_data v),
        pd3_account_deployment_data = map (felt_into ext) (d3_account_deployment_data v),
        pd3_nonce_data_availability_mode = volition_domain_to_enum_int (d3_nonce_data_availability_mode v),
        pd3_fee_data_availability_mode = volition_domain_to_enum_int (d3_fee_data_availability_mode v)\<rparr>),
     c_try_from = (\<lambda>m.
       res_bind (res_bind (required ''DeclareV3::resource_bounds'' (pd3_resource_bounds m)) (resource_bounds_try_from ext)) (\<lambda>resource_bounds.
       res_bind (res_bind (required ''DeclareV3::signature'' (pd3_signature m)) (felts_try_from ext)) (\<lambda>signature.
       res_bind (felt_field ext ''DeclareV3::nonce'' (pd3_nonce m)) (\<lambda>nonce.
       res_bind (hash_field ext ''DeclareV3::class_hash'' (pd3_class_hash m)) (\<lambda>class_hash.
       res_bind (hash_field ext ''DeclareV3::compiled_class_hash'' (pd3_compiled_class_hash m)) (\<lambda>compiled_class_hash.
       res_bind (address_field ext ''DeclareV3::sender'' (pd3_sender m)) (\<lambda>sender_address.
       res_bind (enum_int_to_volition_domain (pd3_nonce_data_availability_mode m)) (\<lambda>nonce_data_availability_mode.
       res_bind (enum_int_to_volition_domain (pd3_fee_data_availability_mode m)) (\<lambda>fee_data_availability_mode.
       res_bind (felts_try_from ext (pd3_paymaster_data m)) (\<lambda>paymaster_data.
       res_bind (felts_try_from ext (pd3_account_deployment_data m)) (\<lambda>account_deployment_data.
       Inr \<lparr>d3_resource_bounds = resource_bounds, d3_tip = pd3_tip m, d3_signature = signature,
            d3_nonce = nonce, d3_class_hash = class_hash, d3_compiled_class_hash = compiled_class_hash,
            d3_sender_address = sender_address, d3_nonce_data_availability_mode = nonce_data_availability_mode,
            d3_fee_data_availability_mode = fee_data_availability_mode, d3_paymaster_data = paymaster_data,
            d3_account_deployment_data = account_deployment_data\<rparr>))))))))))),
     c_valid = (\<lambda>v. resource_bounds_valid (d3_resource_bounds v) \<and>
       list_all (fx_is_felt ext) (d3_signature v) \<and> fx_is_felt ext (d3_nonce v) \<and>
       fx_is_felt ext (d3_class_hash v) \<and> fx_is_felt ext (d3_compiled_class_hash v) \<and>
       fx_is_felt ext (d3_sender_address v) \<and> fx_is_patricia_key ext (d3_sender_address v) \<and>
       list_all (fx_is_felt ext) (d3_paymaster_data v) \<and>
       list_all (fx_is_felt ext) (d3_account_deployment_data v))\<rparr>"

definition deploy_converter :: "felt_ext \<Rightarrow> (deploy_transaction, pb_deploy) converter" where
  "deploy_converter ext = \<lparr>
     c_into = (\<lambda>v. Inr
       \<lparr>pdp_class_hash = Some (fx_to_bytes_be ext (dp_class_hash v)),
        pdp_address_salt = Some (felt_into ext (dp_contract_address_salt v)),
        pdp_calldata = map (felt_into ext) (dp_constructor_calldata v),
        pdp_version = (case try_from_starkfelt_to_u32 ext (dp_version v) of None \<Rightarrow> 0 | Some n \<Rightarrow> n)\<rparr>),
     c_try_from = (\<lambda>m.
       res_bind (hash_field ext ''Deploy::class_hash'' (pdp_class_hash m)) (\<lambda>class_hash.
       res_bind (felt_field ext ''Deploy::address_salt'' (pdp_address_salt m)) (\<lambda>contract_address_salt.
       res_bind (felts_try_from ext (pdp_calldata m)) (\<lambda>constructor_calldata.
       Inr \<lparr>dp_version = pdp_version m, dp_class_hash = class_hash,
            dp_contract_address_salt = contract_address_salt, dp_constructor_calldata = constructor_calldata\<rparr>)))),
     c_valid = (\<lambda>v. dp_version v < 2 ^ 32 \<and> fx_is_felt ext (dp_class_hash v) \<and>
       fx_is_felt ext (dp_contract_address_salt v) \<and> list_all (fx_is_felt ext) (dp_constructor_calldata v))\<rparr>"

definition l1_handler_v0_converter :: "felt_ext \<Rightarrow> (l1_handler_transaction, pb_l1_handler_v0) converter" where
  "l1_handler_v0_converter ext = \<lparr>
     c_into = (\<lambda>v. Inr
       \<lparr>pl0_nonce = Some (felt_into ext (l1_nonce v)),
        pl0_address = Some (fx_to_bytes_be ext (l1_contract_address v)),
        pl0_entry_point_selector = Some (felt_into ext (l1_entry_point_selector v)),
        pl0_calldata = map (felt_into ext) (l1_calldata v)\<rparr>),
     c_try_from = (\<lambda>m.
       res_bind (felt_field ext ''L1HandlerV0::nonce'' (pl0_nonce m)) (\<lambda>nonce.
       res_bind (address_field ext ''L1HandlerV0::address'' (pl0_address m)) (\<lambda>contract_address.
       res_bind (felt_field ext ''L1HandlerV0::entry_point_selector'' (pl0_entry_point_selector m)) (\<lambda>entry_point_selector.
       res_bind (felts_try_from ext (pl0_calldata m)) (\<lambda>calldata.
       Inr \<lparr>l1_version = 0, l1_nonce = nonce, l1_contract_address = contract_address,
            l1_entry_point_selector = entry_point_selector, l1_calldata = calldata\<rparr>))))),
     c_valid = (\<lambda>v. l1_version v = 0 \<and> fx_is_felt ext (l1_nonce v) \<and>
       fx_is_felt ext (l1_contract_address v) \<and> fx_is_patricia_key ext (l1_contract_address v) \<and>
       fx_is_felt ext (l1_entry_point_selector v) \<and> list_all (fx_is_felt ext) (l1_calldata v))\<rparr>"

definition transaction_into :: "felt_ext \<Rightarrow> starknet_transaction \<Rightarrow> pb_transaction converted" where
  "transaction_into ext v =
     (case v of
        TxDeclare (DeclareV0 t) \<Rightarrow> res_bind (c_into (declare_v0_converter ext) t) (\<lambda>m. Inr (Some (PbDeclareV0 m)))
      | TxDeclare (DeclareV1 t) \<Rightarrow> res_bind (c_into (declare_v1_converter ext) t) (\<lambda>m. Inr (Some (PbDeclareV1 m)))
      | TxDeclare (DeclareV2 t) \<Rightarrow> res_bind (c_into (declare_v2_converter ext) t) (\<lambda>m. Inr (Some (PbDeclareV2 m)))
      | TxDeclare (DeclareV3 t) \<Rightarrow> res_bind (c_into (declare_v3_converter ext) t) (\<lambda>m. Inr (Some (PbDeclareV3 m)))
      | TxDeploy t \<Rightarrow> res_bind (c_into (deploy_converter ext) t) (\<lambda>m. Inr (Some (PbDeploy m)))
      | TxDeployAccount (DeployAccountV1 t) \<Rightarrow> res_bind (c_into (deploy_account_v1_converter ext) t) (\<lambda>m. Inr (Some (PbDeployAccountV1 m)))
      | TxDeployAccount (DeployAccountV3 t) \<Rightarrow> res_bind (c_into (deploy_account_v3_converter ext) t) (\<lambda>m. Inr (Some (PbDeployAccountV3 m)))
      | TxInvoke (InvokeV0 t) \<Rightarrow> res_bind (c_into (invoke_v0_converter ext) t) (\<lambda>m. Inr (Some (PbInvokeV0 m)))
      | TxInvoke (InvokeV1 t) \<Rightarrow> res_bind (c_into (invoke_v1_converter ext) t) (\<lambda>m. Inr (Some (PbInvokeV1 m)))
      | TxInvoke (InvokeV3 t) \<Rightarrow> res_bind (c_into (invoke_v3_converter ext) t) (\<lambda>m. Inr (Some (PbInvokeV3 m)))
      | TxL1Handler t \<Rightarrow> res_bind (c_into (l1_handler_v0_converter ext) t) (\<lambda>m. Inr (Some (PbL1Handler m))))"

definition transaction_try_from :: "felt_ext \<Rightarrow> pb_transaction \<Rightarrow> starknet_transaction converted" where
  "transaction_try_from ext m =
     res_bind (required ''Transaction::txn'' m) (\<lambda>txn.
     case txn of
        PbDeclareV0 m \<Rightarrow> res_bind (c_try_from (declare_v0_converter ext) m) (\<lambda>t. Inr (TxDeclare (DeclareV0 t)))
      | PbDeclareV1 m \<Rightarrow> res_bind (c_try_from (declare_v1_converter ext) m) (\<lambda>t. Inr (TxDeclare (DeclareV1 t)))
      | PbDeclareV2 m \<Rightarrow> res_bind (c_try_from (declare_v2_converter ext) m) (\<lambda>t. Inr (TxDeclare (DeclareV2 t)))
      | PbDeclareV3 m \<Rightarrow> res_bind (c_try_from (declare_v3_converter ext) m) (\<lambda>t. Inr (TxDeclare (DeclareV3 t)))
      | PbDeploy m \<Rightarrow> res_bind (c_try_from (deploy_converter ext) m) (\<lambda>t. Inr (TxDeploy t))
      | PbDeployAccountV1 m \<Rightarrow> res_bind (c_try_from (deploy_account_v1_converter ext) m) (\<lambda>t. Inr (TxDeployAccount (DeployAccountV1 t)))
      | PbDeployAccountV3 m \<Rightarrow> res_bind (c_try_from (deploy_account_v3_converter ext) m) (\<lambda>t. Inr (TxDeployAccount (DeployAccountV3 t)))
      | PbInvokeV0 m \<Rightarrow> res_bind (c_try_from (invoke_v0_converter ext) m) (\<lambda>t. Inr (TxInvoke (InvokeV0 t)))
      | PbInvokeV1 m \<Rightarrow> res_bind (c_try_from (invoke_v1_converter ext) m) (\<lambda>t. Inr (TxInvoke (InvokeV1 t)))
      | PbInvokeV3 m \<Rightarrow> res_bind (c_try_from (invoke_v3_converter ext) m) (\<lambda>t. Inr (TxInvoke (InvokeV3 t)))
      | PbL1Handler m \<Rightarrow> res_bind (c_try_from (l1_handler_v0_converter ext) m) (\<lambda>t. Inr (TxL1Handler t)))"

definition transaction_valid :: "felt_ext \<Rightarrow> starknet_transaction \<Rightarrow> bool" where
  "transaction_valid ext v =
     (case v of
        TxDeclare (DeclareV0 t) \<Rightarrow> c_valid (declare_v0_converter ext) t
      | TxDeclare (DeclareV1 t) \<Rightarrow> c_valid (declare_v1_converter ext) t
      | TxDeclare (DeclareV2 t) \<Rightarrow> c_valid (declare_v2_converter ext) t
      | TxDeclare (DeclareV3 t) \<Rightarrow> c_valid (declare_v3_converter ext) t
      | TxDeploy t \<Rightarrow> c_valid (deploy_converter ext) t
      | TxDeployAccount (DeployAccountV1 t) \<Rightarrow> c_valid (deploy_account_v1_converter ext) t
      | TxDeployAccount (DeployAccountV3 t) \<Rightarrow> c_valid (deploy_account_v3_converter ext) t
      | TxInvoke (InvokeV0 t) \<Rightarrow> c_valid (invoke_v0_converter ext) t
      | TxInvoke (InvokeV1 t) \<Rightarrow> c_valid (invoke_v1_converter ext) t
      | TxInvoke (InvokeV3 t) \<Rightarrow> c_valid (invoke_v3_converter ext) t
      | TxL1Handler t \<Rightarrow> c_valid (l1_handler_v0_converter ext) t)"

definition transaction_converter :: "felt_ext \<Rightarrow> (starknet_transaction, pb_transaction) converter" where
  "transaction_converter ext =
     \<lparr>c_into = transaction_into ext, c_try_from = transaction_try_from ext, c_valid = transaction_valid ext\<rparr>"

section \<open>What is sent is received\<close>

lemma resource_bounds_roundtrip [converter_simps]:
  assumes "felt_ext_ok ext" and "resource_bounds_valid v"
  shows "resource_bounds_try_from ext (resource_bounds_into ext v) = Inr v"
proof -
  from assms(2) obtain b1 b2 where v: "v = [(L1Gas, b1), (L2Gas, b2)]"
    by (auto simp: resource_bounds_valid_def Cons_eq_map_conv)
  with assms(2) show ?thesis
    by (simp add: resource_bounds_try_from_def resource_bounds_into_def resource_bounds_valid_def converter_simps assms(1))
qed

lemma deploy_account_v1_converter_ok [converter_intros]: "felt_ext_ok ext \<Longrightarrow> converter_ok (deploy_account_v1_converter ext)"
  by (rule converter_okI) (simp add: deploy_account_v1_converter_def converter_simps)

lemma deploy_account_v3_converter_ok [converter_intros]: "felt_ext_ok ext \<Longrightarrow> converter_ok (deploy_account_v3_converter ext)"
  by (rule converter_okI) (simp add: deploy_account_v3_converter_def converter_simps)

lemma invoke_v0_converter_ok [converter_intros]: "felt_ext_ok ext \<Longrightarrow> converter_ok (invoke_v0_converter ext)"
  by (rule converter_okI) (simp add: invoke_v0_converter_def converter_simps)

lemma invoke_v1_converter_ok [converter_intros]: "felt_ext_ok ext \<Longrightarrow> converter_ok (invoke_v1_converter ext)"
  by (rule converter_okI) (simp add: invoke_v1_converter_def converter_simps)

lemma invoke_v3_converter_ok [converter_intros]: "felt_ext_ok ext \<Longrightarrow> converter_ok (invoke_v3_converter ext)"
  by (rule converter_okI) (simp add: invoke_v3_converter_def converter_simps)

lemma declare_v0_converter_ok [converter_intros]: "felt_ext_ok ext \<Longrightarrow> converter_ok (declare_v0_converter ext)"
  by (rule converter_okI) (simp add: declare_v0_converter_def converter_simps)

lemma declare_v1_converter_ok [converter_intros]: "felt_ext_ok ext \<Longrightarrow> converter_ok (declare_v1_converter ext)"
  by (rule converter_okI) (simp add: declare_v1_converter_def converter_simps)

lemma declare_v2_converter_ok [converter_intros]: "felt_ext_ok ext \<Longrightarrow> converter_ok (declare_v2_converter ext)"
  by (rule converter_okI) (simp add: declare_v2_converter_def converter_simps)

lemma declare_v3_converter_ok [converter_intros]: "felt_ext_ok ext \<Longrightarrow> converter_ok (declare_v3_converter ext)"
  by (rule converter_okI) (simp add: declare_v3_converter_def converter_simps)

lemma deploy_converter_ok [converter_intros]: "felt_ext_ok ext \<Longrightarrow> converter_ok (deploy_converter ext)"
  by (rule converter_okI) (simp add: deploy_converter_def converter_simps)

lemma l1_handler_v0_converter_ok [converter_intros]: "felt_ext_ok ext \<Longrightarrow> converter_ok (l1_handler_v0_converter ext)"
  by (rule converter_okI) (simp add: l1_handler_v0_converter_def converter_simps)

lemmas version_converters_ok =
  declare_v0_converter_ok
  declare_v1_converter_ok
  declare_v2_converter_ok
  declare_v3_converter_ok
  deploy_converter_ok
  deploy_account_v1_converter_ok
  deploy_account_v3_converter_ok
  invoke_v0_converter_ok
  invoke_v1_converter_ok
  invoke_v3_converter_ok
  l1_handler_v0_converter_ok

lemma transaction_converter_ok [converter_intros]:
  assumes "felt_ext_ok ext"
  shows "converter_ok (transaction_converter ext)"
proof (rule converter_okI)
  fix x
  assume "c_valid (transaction_converter ext) x"
  then have "transaction_valid ext x" by (simp add: transaction_converter_def)
  then have "\<exists>m. transaction_into ext x = Inr m \<and> transaction_try_from ext m = Inr x"
    unfolding transaction_valid_def
    by (auto split: starknet_transaction.splits declare_transaction.splits deploy_account_transaction.splits
        invoke_transaction.splits
        dest!: version_converters_ok [OF assms, THEN converter_okD]
        simp: transaction_into_def transaction_try_from_def required_Some)
  then show "\<exists>m. c_into (transaction_converter ext) x = Inr m \<and> c_try_from (transaction_converter ext) m = Inr x"
    by (simp add: transaction_converter_def)
qed

end
