(* ===== verification/Protobuf_Receipt.thy ===== *)
theory Protobuf_Receipt
  imports Protobuf_Transaction
begin

text \<open>
  The converters of transaction outputs, \<open>papyrus_protobuf/src/converters/receipt.rs\<close>, and of a transaction
  together with its output, the datum of a transactions response (\<open>converters/transaction.rs\<close>).

  Events are not part of a receipt: the output that arrives has none. A counter or a step number of the
  output is \<open>u64\<close> and its field \<open>u32\<close>; sending one that does not fit panics. The counters are a
  \<open>HashMap\<close>, here the list of its entries in the order in which the code inserts them.
\<close>

section \<open>Messages\<close>

record pb_message_to_l1 =
  pm_from_address :: "u8 list option"
  pm_payload :: "u8 list list"
  pm_to_address :: "u8 list option"

record pb_builtin_counter =
  bc_bitwise :: nat
  bc_ecdsa :: nat
  bc_ec_op :: nat
  bc_pedersen :: nat
  bc_range_check :: nat
  bc_poseidon :: nat
  bc_keccak :: nat
  bc_output :: nat

record pb_gas_vector =
  pgv_l1_gas :: nat
  pgv_l1_data_gas :: nat

record pb_execution_resources =
  pxr_builtins :: "pb_builtin_counter option"
  pxr_steps :: nat
  pxr_memory_holes :: nat
  pxr_da_gas_consumed :: "pb_gas_vector option"
  pxr_gas_consumed :: "pb_gas_vector option"

record pb_receipt_common =
  prc_actual_fee :: "u8 list option"
  prc_price_unit :: int
  prc_messages_sent :: "pb_message_to_l1 list"
  prc_execution_resources :: "pb_execution_resources option"
  prc_revert_reason :: "rust_string option"

record pb_receipt_invoke =
  pri_common :: "pb_receipt_common option"

record pb_receipt_l1_handler =
  prl_common :: "pb_receipt_common option"
  prl_msg_hash :: "u8 list option"

record pb_receipt_declare =
  prd_common :: "pb_receipt_common option"

record pb_receipt_deploy =
  prp_common :: "pb_receipt_common option"
  prp_contract_address :: "u8 list option"

record pb_receipt_deploy_account =
  pra_common :: "pb_receipt_common option"
  pra_contract_address :: "u8 list option"

datatype pb_receipt_type =
    PbInvoke pb_receipt_invoke
  | PbL1HandlerReceipt pb_receipt_l1_handler
  | PbDeclare pb_receipt_declare
  | PbDeprecatedDeploy pb_receipt_deploy
  | PbDeployAccount pb_receipt_deploy_account

type_synonym pb_receipt = "pb_receipt_type option"

section \<open>Execution resources\<close>

definition u32_expect :: "nat \<Rightarrow> nat converted" where
  "u32_expect n = (if n < 2 ^ 32 then Inr n else Inl (ConversionPanic ''Failed to convert u64 to u32''))"

definition builtin_counter_try_from :: "pb_builtin_counter \<Rightarrow> (builtin \<times> nat) list" where
  "builtin_counter_try_from m =
     [(RangeCheck, bc_range_check m), (Pedersen, bc_pedersen m), (Poseidon, bc_poseidon m), (EcOp, bc_ec_op m),
      (Ecdsa, bc_ecdsa m), (Bitwise, bc_bitwise m), (Keccak, bc_keccak m), (SegmentArena, 0)]"

definition builtin_counter_into :: "(builtin \<times> nat) list \<Rightarrow> pb_builtin_counter converted" where
  "builtin_counter_into v =
     (let counter = (\<lambda>b. u32_expect (case map_of v b of None \<Rightarrow> 0 | Some n \<Rightarrow> n)) in
      res_bind (counter RangeCheck) (\<lambda>range_check.
      res_bind (counter Pedersen) (\<lambda>pedersen.
      res_bind (counter Poseidon) (\<lambda>poseidon.
      res_bind (counter EcOp) (\<lambda>ec_op.
      res_bind (counter Ecdsa) (\<lambda>ecdsa.
      res_bind (counter Bitwise) (\<lambda>bitwise.
      res_bind (counter Keccak) (\<lambda>keccak.
      Inr \<lparr>bc_bitwise = bitwise, bc_ecdsa = ecdsa, bc_ec_op = ec_op, bc_pedersen = pedersen,
           bc_range_check = range_check, bc_poseidon = poseidon, bc_keccak = keccak, bc_output = 0\<rparr>))))))))"

definition gas_vector_from :: "pb_gas_vector \<Rightarrow> gas_vector" where
  "gas_vector_from m = \<lparr>gv_l1_gas = pgv_l1_gas m, gv_l1_data_gas = pgv_l1_data_gas m\<rparr>"

definition gas_vector_into :: "gas_vector \<Rightarrow> pb_gas_vector" where
  "gas_vector_into v = \<lparr>pgv_l1_gas = gv_l1_gas v, pgv_l1_data_gas = gv_l1_data_gas v\<rparr>"

definition execution_resources_try_from :: "pb_execution_resources \<Rightarrow> execution_resources converted" where
  "execution_resources_try_from m =
     res_bind (required ''builtins'' (pxr_builtins m)) (\<lambda>builtins.
     res_bind (required ''ExecutionResources::gas_consumed'' (pxr_gas_consumed m)) (\<lambda>gas_consumed.
     res_bind (required ''ExecutionResources::da_gas_consumed'' (pxr_da_gas_consumed m)) (\<lambda>da_gas_consumed.
     Inr \<lparr>er_steps = pxr_steps m, er_builtin_instance_counter = builtin_counter_try_from builtins,
          er_memory_holes = pxr_memory_holes m, er_da_gas_consumed = gas_vector_from da_gas_consumed,
          er_gas_consumed = gas_vector_from gas_consumed\<rparr>)))"

definition execution_resources_into :: "execution_resources \<Rightarrow> pb_execution_resources converted" where
  "execution_resources_into v =
     res_bind (builtin_counter_into (er_builtin_instance_counter v)) (\<lambda>builtins.
     res_bind (u32_expect (er_steps v)) (\<lambda>steps.
     res_bind (u32_expect (er_memory_holes v)) (\<lambda>memory_holes.
     Inr \<lparr>pxr_builtins = Some builtins, pxr_steps = steps, pxr_memory_holes = memory_holes,
          pxr_da_gas_consumed = Some (gas_vector_into (er_da_gas_consumed v)),
          pxr_gas_consumed = Some (gas_vector_into (er_gas_consumed v))\<rparr>)))"

text \<open>The seven counters that are sent, and the segment arena, which arrives as 0.\<close>

definition sent_builtins :: "builtin list" where
  "sent_builtins = [RangeCheck, Pedersen, Poseidon, EcOp, Ecdsa, Bitwise, Keccak, SegmentArena]"

definition execution_resources_valid :: "execution_resources \<Rightarrow> bool" where
  "execution_resources_valid v \<longleftrightarrow>
     map fst (er_builtin_instance_counter v) = sent_builtins \<and>
     list_all (\<lambda>(b, n). n < 2 ^ 32 \<and> (b = SegmentArena \<longrightarrow> n = 0)) (er_builtin_instance_counter v) \<and>
     er_steps v < 2 ^ 32 \<and> er_memory_holes v < 2 ^ 32"

section \<open>Messages to L1\<close>

definition eth_address_try_from :: "u8 list \<Rightarrow> u8 list converted" where
  "eth_address_try_from elements =
     (if length elements \<noteq> 20 then Inl (BytesDataLengthMismatch ''EthereumAddress'' 20 elements) else Inr elements)"

definition message_to_l1_converter :: "felt_ext \<Rightarrow> (message_to_l1, pb_message_to_l1) converter" where
  "message_to_l1_converter ext = \<lparr>
     c_into = (\<lambda>v. Inr
       \<lparr>pm_from_address = Some (felt_into ext (ml_from_address v)),
        pm_payload = map (felt_into ext) (ml_payload v), pm_to_address = Some (ml_to_address v)\<rparr>),
     c_try_from = (\<lambda>m.
       res_bind (felt_field ext ''MessageToL1::from_address'' (pm_from_address m)) (\<lambda>from_address.
       res_bind (if fx_is_patricia_key ext from_address then Inr from_address
                 else Inl (ConversionPanic ''Converting ContractAddress from Felt failed'')) (\<lambda>from_address.
       res_bind (res_bind (required ''MessageToL1::to_address'' (pm_to_address m)) eth_address_try_from) (\<lambda>to_address.
       res_bind (felts_try_from ext (pm_payload m)) (\<lambda>payload.
       Inr \<lparr>ml_to_address = to_address, ml_payload = payload, ml_from_address = from_address\<rparr>))))),
     c_valid = (\<lambda>v. length (ml_to_address v) = 20 \<and> list_all (fx_is_felt ext) (ml_payload v) \<and>
       fx_is_felt ext (ml_from_address v) \<and> fx_is_patricia_key ext (ml_from_address v))\<rparr>"

section \<open>The fields common to all receipts\<close>

type_synonym output_fields = "nat \<times> message_to_l1 list \<times> execution_status \<times> execution_resources"

definition parse_common_receipt_fields :: "felt_ext \<Rightarrow> pb_receipt_common option \<Rightarrow> output_fields converted" where
  "parse_common_receipt_fields ext x =
     res_bind (required ''Common'' x) (\<lambda>common.
     res_bind (u128_try_from ext ''Common::actual_fee'' (prc_actual_fee common)) (\<lambda>actual_fee.
     res_bind (map_res (c_try_from (message_to_l1_converter ext)) (prc_messages_sent common)) (\<lambda>messages_sent.
     let execution_status = (case prc_revert_reason common of
           None \<Rightarrow> Succeeded | Some revert_reason \<Rightarrow> Reverted \<lparr>re_revert_reason = revert_reason\<rparr>) in
     res_bind (required ''Common::execution_resources'' (prc_execution_resources common)) (\<lambda>resources.
     res_bind (execution_resources_try_from resources) (\<lambda>execution_resources.
     Inr (actual_fee, messages_sent, execution_status, execution_resources))))))"

definition create_proto_receipt_common_from_txn_output_fields ::
  "felt_ext \<Rightarrow> output_fields \<Rightarrow> pb_receipt_common converted" where
  "create_proto_receipt_common_from_txn_output_fields ext v =
     (case v of (actual_fee, messages_sent, execution_status, execution_resources) \<Rightarrow>
        res_bind (map_res (c_into (message_to_l1_converter ext)) messages_sent) (\<lambda>messages_sent.
        res_bind (execution_resources_into execution_resources) (\<lambda>resources.
        Inr \<lparr>prc_actual_fee = Some (felt_into ext actual_fee), prc_price_unit = 0,
             prc_messages_sent = messages_sent, prc_execution_resources = Some resources,
             prc_revert_reason = (case execution_status of
                Reverted reverted_status \<Rightarrow> Some (re_revert_reason reverted_status) | Succeeded \<Rightarrow> None)\<rparr>)))"

definition output_fields_valid :: "felt_ext \<Rightarrow> output_fields \<Rightarrow> bool" where
  "output_fields_valid ext v =
     (case v of (actual_fee, messages_sent, execution_status, execution_resources) \<Rightarrow>
        actual_fee < 2 ^ 128 \<and> list_all (c_valid (message_to_l1_converter ext)) messages_sent \<and>
        execution_resources_valid execution_resources)"

text \<open>A contract address sent as a field element.\<close>

definition contract_address_field :: "felt_ext \<Rightarrow> string \<Rightarrow> u8 list option \<Rightarrow> contract_address converted" where
  "contract_address_field ext field x =
     res_bind (felt_field ext field x) (\<lambda>f.
       if fx_is_patricia_key ext f then Inr f else Inl (OutOfRangeValue ''PatriciaKey''))"

section \<open>Receipts\<close>

definition deploy_account_output_converter ::
  "felt_ext \<Rightarrow> (deploy_account_transaction_output, pb_receipt_deploy_account) converter" where
  "deploy_account_output_converter ext = \<lparr>
     c_into = (\<lambda>v.
       res_bind (create_proto_receipt_common_from_txn_output_fields ext
         (ao_actual_fee v, ao_messages_sent v, ao_execution_status v, ao_execution_resources v)) (\<lambda>common.
       Inr \<lparr>pra_common = Some common,
            pra_contract_address = Some (felt_into ext (ao_contract_address v))\<rparr>)),
     c_try_from = (\<lambda>m.
       res_bind (parse_common_receipt_fields ext (pra_common m))
         (\<lambda>(actual_fee, messages_sent, execution_status, execution_resources).
       res_bind (contract_address_field ext ''DeployAccount::contract_address'' (pra_contract_address m)) (\<lambda>contract_address.
       Inr \<lparr>ao_actual_fee = actual_fee, ao_messages_sent = messages_sent, ao_events = [],
            ao_contract_address = contract_address, ao_execution_status = execution_status, ao_execution_resources = execution_resources\<rparr>))),
     c_valid = (\<lambda>v. ao_events v = [] \<and> fx_is_felt ext (ao_contract_address v) \<and>
       fx_is_patricia_key ext (ao_contract_address v) \<and> output_fields_valid ext
         (ao_actual_fee v, ao_messages_sent v, ao_execution_status v, ao_execution_resources v))\<rparr>"

definition deploy_output_converter ::
  "felt_ext \<Rightarrow> (deploy_transaction_output, pb_receipt_deploy) converter" where
  "deploy_output_converter ext = \<lparr>
     c_into = (\<lambda>v.
       res_bind (create_proto_receipt_common_from_txn_output_fields ext
         (po_actual_fee v, po_messages_sent v, po_execution_status v, po_execution_resources v)) (\<lambda>common.
       Inr \<lparr>prp_common = Some common,
            prp_contract_address = Some (felt_into ext (po_contract_address v))\<rparr>)),
     c_try_from = (\<lambda>m.
       res_bind (parse_common_receipt_fields ext (prp_common m))
         (\<lambda>(actual_fee, messages_sent, execution_status, execution_resources).
       res_bind (contract_address_field ext ''Deploy::contract_address'' (prp_contract_address m)) (\<lambda>contract_address.
       Inr \<lparr>po_actual_fee = actual_fee, po_messages_sent = messages_sent, po_events = [],
            po_contract_address = contract_address, po_execution_status = execution_status, po_execution_resources = execution_resources\<rparr>))),
     c_valid = (\<lambda>v. po_events v = [] \<and> fx_is_felt ext (po_contract_address v) \<and>
       fx_is_patricia_key ext (po_contract_address v) \<and> output_fields_valid ext
         (po_actual_fee v, po_messages_sent v, po_execution_status v, po_execution_resources v))\<rparr>"

definition declare_output_converter ::
  "felt_ext \<Rightarrow> (declare_transaction_output, pb_receipt_declare) converter" where
  "declare_output_converter ext = \<lparr>
     c_into = (\<lambda>v.
       res_bind (create_proto_receipt_common_from_txn_output_fields ext
         (do_actual_fee v, do_messages_sent v, do_execution_status v, do_execution_resources v)) (\<lambda>common.
       Inr \<lparr>prd_common = Some common\<rparr>)),
     c_try_from = (\<lambda>m.
       res_bind (parse_common_receipt_fields ext (prd_common m))
         (\<lambda>(actual_fee, messages_sent, execution_status, execution_resources).
       Inr \<lparr>do_actual_fee = actual_fee, do_messages_sent = messages_sent, do_events = [],
            do_execution_status = execution_status, do_execution_resources = execution_resources\<rparr>)),
     c_valid = (\<lambda>v. do_events v = [] \<and> output_fields_valid ext
         (do_actual_fee v, do_messages_sent v, do_execution_status v, do_execution_resources v))\<rparr>"

definition invoke_output_converter ::
  "felt_ext \<Rightarrow> (invoke_transaction_output, pb_receipt_invoke) converter" where
  "invoke_output_converter ext = \<lparr>
     c_into = (\<lambda>v.
       res_bind (create_proto_receipt_common_from_txn_output_fields ext
         (io_actual_fee v, io_messages_sent v, io_execution_status v, io_execution_resources v)) (\<lambda>common.
       Inr \<lparr>pri_common = Some common\<rparr>)),
     c_try_from = (\<lambda>m.
       res_bind (parse_common_receipt_fields ext (pri_common m))
         (\<lambda>(actual_fee, messages_sent, execution_status, execution_resources).
       Inr \<lparr>io_actual_fee = actual_fee, io_messages_sent = messages_sent, io_events = [],
            io_execution_status = execution_status, io_execution_resources = execution_resources\<rparr>)),
     c_valid = (\<lambda>v. io_events v = [] \<and> output_fields_valid ext
         (io_actual_fee v, io_messages_sent v, io_execution_status v, io_execution_resources v))\<rparr>"

definition l1_handler_output_converter ::
  "felt_ext \<Rightarrow> (l1_handler_transaction_output, pb_receipt_l1_handler) converter" where
  "l1_handler_output_converter ext = \<lparr>
     c_into = (\<lambda>v.
       res_bind (create_proto_receipt_common_from_txn_output_fields ext
         (lo_actual_fee v, lo_messages_sent v, lo_execution_status v, lo_execution_resources v)) (\<lambda>common.
       Inr \<lparr>prl_common = Some common, prl_msg_hash = None\<rparr>)),
     c_try_from = (\<lambda>m.
       res_bind (parse_common_receipt_fields ext (prl_common m))
         (\<lambda>(actual_fee, messages_sent, execution_status, execution_resources).
       Inr \<lparr>lo_actual_fee = actual_fee, lo_messages_sent = messages_sent, lo_events = [],
            lo_execution_status = execution_status, lo_execution_resources = execution_resources\<rparr>)),
     c_valid = (\<lambda>v. lo_events v = [] \<and> output_fields_valid ext
         (lo_actual_fee v, lo_messages_sent v, lo_execution_status v, lo_execution_resources v))\<rparr>"

definition receipt_into :: "felt_ext \<Rightarrow> starknet_transaction_output \<Rightarrow> pb_receipt converted" where
  "receipt_into ext v =
     (case v of
        OutInvoke t \<Rightarrow> res_bind (c_into (invoke_output_converter ext) t) (\<lambda>m. Inr (Some (PbInvoke m)))
      | OutL1Handler t \<Rightarrow> res_bind (c_into (l1_handler_output_converter ext) t) (\<lambda>m. Inr (Some (PbL1HandlerReceipt m)))
      | OutDeclare t \<Rightarrow> res_bind (c_into (declare_output_converter ext) t) (\<lambda>m. Inr (Some (PbDeclare m)))
      | OutDeploy t \<Rightarrow> res_bind (c_into (deploy_output_converter ext) t) (\<lambda>m. Inr (Some (PbDeprecatedDeploy m)))
      | OutDeployAccount t \<Rightarrow> res_bind (c_into (deploy_account_output_converter ext) t) (\<lambda>m. Inr (Some (PbDeployAccount m))))"

definition receipt_try_from :: "felt_ext \<Rightarrow> pb_receipt \<Rightarrow> starknet_transaction_output converted" where
  "receipt_try_from ext m =
     res_bind (required ''Receipt::type'' m) (\<lambda>receipt.
     case receipt of
        PbInvoke r \<Rightarrow> res_bind (c_try_from (invoke_output_converter ext) r) (\<lambda>t. Inr (OutInvoke t))
      | PbL1HandlerReceipt r \<Rightarrow> res_bind (c_try_from (l1_handler_output_converter ext) r) (\<lambda>t. Inr (OutL1Handler t))
      | PbDeclare r \<Rightarrow> res_bind (c_try_from (declare_output_converter ext) r) (\<lambda>t. Inr (OutDeclare t))
      | PbDeprecatedDeploy r \<Rightarrow> res_bind (c_try_from (deploy_output_converter ext) r) (\<lambda>t. Inr (OutDeploy t))
      | PbDeployAccount r \<Rightarrow> res_bind (c_try_from (deploy_account_output_converter ext) r) (\<lambda>t. Inr (OutDeployAccount t)))"

definition output_valid :: "felt_ext \<Rightarrow> starknet_transaction_output \<Rightarrow> bool" where
  "output_valid ext v =
     (case v of
        OutInvoke t \<Rightarrow> c_valid (invoke_output_converter ext) t
      | OutL1Handler t \<Rightarrow> c_valid (l1_handler_output_converter ext) t
      | OutDeclare t \<Rightarrow> c_valid (declare_output_converter ext) t
      | OutDeploy t \<Rightarrow> c_valid (deploy_output_converter ext) t
      | OutDeployAccount t \<Rightarrow> c_valid (deploy_account_output_converter ext) t)"

section \<open>A transaction with its output\<close>

datatype price_unit = Wei | Fri

definition price_unit_into :: "price_unit \<Rightarrow> int" where
  "price_unit_into u = (case u of Wei \<Rightarrow> 0 | Fri \<Rightarrow> 1)"

definition transaction_price_unit :: "pb_transaction \<Rightarrow> price_unit option" where
  "transaction_price_unit transaction =
     (case transaction of
        Some (PbDeclareV1 _) \<Rightarrow> Some Wei
      | Some (PbDeclareV2 _) \<Rightarrow> Some Wei
      | Some (PbDeclareV3 _) \<Rightarrow> Some Fri
      | Some (PbDeploy _) \<Rightarrow> Some Wei
      | Some (PbDeployAccountV1 _) \<Rightarrow> Some Wei
      | Some (PbDeployAccountV3 _) \<Rightarrow> Some Fri
      | Some (PbInvokeV1 _) \<Rightarrow> Some Wei
      | Some (PbInvokeV3 _) \<Rightarrow> Some Fri
      | Some (PbL1Handler _) \<Rightarrow> Some Wei
      | _ \<Rightarrow> None)"

definition set_price_unit_based_on_transaction :: "pb_receipt \<Rightarrow> pb_transaction \<Rightarrow> pb_receipt" where
  "set_price_unit_based_on_transaction receipt transaction =
     (case transaction_price_unit transaction of
        None \<Rightarrow> receipt
      | Some price_unit \<Rightarrow>
          (let set = map_option (prc_price_unit_update (\<lambda>_. price_unit_into price_unit)) in
           map_option (\<lambda>receipt_type. case receipt_type of
               PbInvoke r \<Rightarrow> PbInvoke (pri_common_update set r)
             | PbL1HandlerReceipt r \<Rightarrow> PbL1HandlerReceipt (prl_common_update set r)
             | PbDeclare r \<Rightarrow> PbDeclare (prd_common_update set r)
             | PbDeprecatedDeploy r \<Rightarrow> PbDeprecatedDeploy (prp_common_update set r)
             | PbDeployAccount r \<Rightarrow> PbDeployAccount (pra_common_update set r)) receipt))"

record pb_transaction_with_receipt =
  ptr_transaction :: "pb_transaction option"
  ptr_receipt :: "pb_receipt option"

definition transaction_with_receipt_converter ::
  "felt_ext \<Rightarrow> (starknet_transaction \<times> starknet_transaction_output, pb_transaction_with_receipt) converter" where
  "transaction_with_receipt_converter ext = \<lparr>
     c_into = (\<lambda>(t, out).
       res_bind (transaction_into ext t) (\<lambda>transaction.
       res_bind (receipt_into ext out) (\<lambda>receipt.
       Inr \<lparr>ptr_transaction = Some transaction,
            ptr_receipt = Some (set_price_unit_based_on_transaction receipt transaction)\<rparr>))),
     c_try_from = (\<lambda>m.
       res_bind (required ''TransactionWithReceipt::transaction'' (ptr_transaction m)) (\<lambda>transaction.
       res_bind (transaction_try_from ext transaction) (\<lambda>t.
       res_bind (required ''TransactionWithReceipt::output'' (ptr_receipt m)) (\<lambda>receipt.
       res_bind (receipt_try_from ext receipt) (\<lambda>out.
       Inr (t, out)))))),
     c_valid = (\<lambda>(t, out). transaction_valid ext t \<and> output_valid ext out)\<rparr>"

section \<open>What is sent is received\<close>

lemma u32_expect_eq [converter_simps]: "n < 2 ^ 32 \<Longrightarrow> u32_expect n = Inr n"
  by (simp add: u32_expect_def)

lemma gas_vector_roundtrip [converter_simps]: "gas_vector_from (gas_vector_into v) = v"
  by (simp add: gas_vector_from_def gas_vector_into_def)

lemma execution_resources_roundtrip:
  assumes "execution_resources_valid v"
  shows "\<exists>m. execution_resources_into v = Inr m \<and> execution_resources_try_from m = Inr v"
proof -
  from assms obtain rc pe po eo ed bi ke sa where b: "er_builtin_instance_counter v =
      [(RangeCheck, rc), (Pedersen, pe), (Poseidon, po), (EcOp, eo), (Ecdsa, ed), (Bitwise, bi), (Keccak, ke),
       (SegmentArena, sa)]"
    unfolding execution_resources_valid_def sent_builtins_def by (auto simp: map_eq_Cons_conv)
  with assms show ?thesis
    by (simp add: execution_resources_into_def execution_resources_try_from_def execution_resources_valid_def
        builtin_counter_into_def builtin_counter_try_from_def converter_simps)
qed

lemma message_to_l1_converter_ok [converter_intros]: "felt_ext_ok ext \<Longrightarrow> converter_ok (message_to_l1_converter ext)"
  by (rule converter_okI) (simp add: message_to_l1_converter_def eth_address_try_from_def converter_simps)

lemma output_fields_roundtrip:
  assumes ext: "felt_ext_ok ext" and v: "output_fields_valid ext v"
  shows "\<exists>c. create_proto_receipt_common_from_txn_output_fields ext v = Inr c \<and>
             parse_common_receipt_fields ext (Some c) = Inr v"
proof -
  obtain fee messages status resources where x: "v = (fee, messages, status, resources)" by (cases v)
  from v have *: "fee < 2 ^ 128" "list_all (c_valid (message_to_l1_converter ext)) messages"
    "execution_resources_valid resources" by (simp_all add: output_fields_valid_def x)
  from converter_list [OF message_to_l1_converter_ok [OF ext] *(2)] obtain ms
    where "map_res (c_into (message_to_l1_converter ext)) messages = Inr ms"
      "map_res (c_try_from (message_to_l1_converter ext)) ms = Inr messages" by blast
  with execution_resources_roundtrip [OF *(3)] *(1) show ?thesis
    by (auto simp: create_proto_receipt_common_from_txn_output_fields_def parse_common_receipt_fields_def x Let_def
        converter_simps ext split: execution_status.splits)
qed

lemma contract_address_roundtrip [converter_simps]:
  "felt_ext_ok ext \<Longrightarrow> fx_is_felt ext f \<Longrightarrow> fx_is_patricia_key ext f \<Longrightarrow>
   contract_address_field ext field (Some (felt_into ext f)) = Inr f"
  by (simp add: contract_address_field_def converter_simps)

lemma deploy_account_output_converter_ok [converter_intros]:
  "felt_ext_ok ext \<Longrightarrow> converter_ok (deploy_account_output_converter ext)"
  by (rule converter_okI)
    (auto simp: deploy_account_output_converter_def converter_simps dest!: output_fields_roundtrip [rotated])

lemma deploy_output_converter_ok [converter_intros]:
  "felt_ext_ok ext \<Longrightarrow> converter_ok (deploy_output_converter ext)"
  by (rule converter_okI)
    (auto simp: deploy_output_converter_def converter_simps dest!: output_fields_roundtrip [rotated])

lemma declare_output_converter_ok [converter_intros]:
  "felt_ext_ok ext \<Longrightarrow> converter_ok (declare_output_converter ext)"
  by (rule converter_okI)
    (auto simp: declare_output_converter_def converter_simps dest!: output_fields_roundtrip [rotated])

lemma invoke_output_converter_ok [converter_intros]:
  "felt_ext_ok ext \<Longrightarrow> converter_ok (invoke_output_converter ext)"
  by (rule converter_okI)
    (auto simp: invoke_output_converter_def converter_simps dest!: output_fields_roundtrip [rotated])

lemma l1_handler_output_converter_ok [converter_intros]:
  "felt_ext_ok ext \<Longrightarrow> converter_ok (l1_handler_output_converter ext)"
  by (rule converter_okI)
    (auto simp: l1_handler_output_converter_def converter_simps dest!: output_fields_roundtrip [rotated])

lemmas output_converters_ok =
  deploy_account_output_converter_ok
  deploy_output_converter_ok
  declare_output_converter_ok
  invoke_output_converter_ok
  l1_handler_output_converter_ok

text \<open>The price unit is not read from a receipt.\<close>

lemma parse_common_price_unit:
  "parse_common_receipt_fields ext (map_option (prc_price_unit_update f) c) = parse_common_receipt_fields ext c"
  by (cases c) (simp_all add: parse_common_receipt_fields_def required_def)

lemma receipt_try_from_price_unit:
  "receipt_try_from ext (set_price_unit_based_on_transaction receipt transaction) = receipt_try_from ext receipt"
proof (cases "transaction_price_unit transaction")
  case None
  then show ?thesis by (simp add: set_price_unit_based_on_transaction_def)
next
  case (Some u)
  show ?thesis
    by (cases receipt)
      (auto simp: set_price_unit_based_on_transaction_def Some receipt_try_from_def required_def Let_def
        invoke_output_converter_def l1_handler_output_converter_def declare_output_converter_def
        deploy_output_converter_def deploy_account_output_converter_def parse_common_price_unit
        split: pb_receipt_type.splits)
qed

lemma receipt_roundtrip:
  assumes "felt_ext_ok ext" and "output_valid ext v"
  shows "\<exists>m. receipt_into ext v = Inr m \<and> receipt_try_from ext m = Inr v"
  using assms(2) unfolding output_valid_def
  by (auto split: starknet_transaction_output.splits dest!: output_converters_ok [OF assms(1), THEN converter_okD]
      simp: receipt_into_def receipt_try_from_def required_Some)

lemma transaction_with_receipt_converter_ok [converter_intros]:
  assumes ext: "felt_ext_ok ext"
  shows "converter_ok (transaction_with_receipt_converter ext)"
proof (rule converter_okI)
  fix x
  assume v: "c_valid (transaction_with_receipt_converter ext) x"
  obtain t out where x: "x = (t, out)" by (cases x)
  from v x have tv: "c_valid (transaction_converter ext) t" and ov: "output_valid ext out"
    by (simp_all add: transaction_with_receipt_converter_def transaction_converter_def)
  from converter_okD [OF transaction_converter_ok [OF ext] tv] receipt_roundtrip [OF ext ov]
  show "\<exists>m. c_into (transaction_with_receipt_converter ext) x = Inr m \<and>
            c_try_from (transaction_with_receipt_converter ext) m = Inr x"
    by (auto simp: x transaction_with_receipt_converter_def transaction_converter_def required_Some
        receipt_try_from_price_unit)
qed

end
