(* ===== verification/Protobuf_Consensus.thy ===== *)
theory Protobuf_Consensus
  imports Protobuf_Receipt Consensus_Single_Height
begin

text \<open>
  The converters of consensus messages: \<open>papyrus_protobuf/src/converters/consensus.rs\<close>, with the messages of
  \<open>consensus.proto\<close> and the types of \<open>Consensus_Single_Height\<close>; a proposal holds transactions. A vote for no
  block cannot be represented: \<open>block_hash\<close> is optional in the message but required by the converter.
\<close>

record pb_vote =
  pv_vote_type :: int
  pv_height :: nat
  pv_block_hash :: "u8 list option"
  pv_voter :: "u8 list option"

record pb_proposal =
  ppr_height :: nat
  ppr_proposer :: "u8 list option"
  ppr_transactions :: "pb_transaction list"
  ppr_block_hash :: "u8 list option"

datatype pb_consensus_message = PbProposal pb_proposal | PbVote pb_vote

definition vote_type_try_from :: "int \<Rightarrow> vote_type converted" where
  "vote_type_try_from n =
     (if n = 0 then Inr VtPrevote else if n = 1 then Inr VtPrecommit
      else Inl (DecodeError ''invalid enumeration value''))"

definition vote_converter :: "felt_ext \<Rightarrow> (vote, pb_vote) converter" where
  "vote_converter ext = \<lparr>
     c_into = (\<lambda>v. Inr
       \<lparr>pv_vote_type = (case vote_type v of VtPrevote \<Rightarrow> 0 | VtPrecommit \<Rightarrow> 1), pv_height = vote_height v,
        pv_block_hash = Some (fx_to_bytes_be ext (vote_block_hash v)),
        pv_voter = Some (fx_to_bytes_be ext (vote_voter v))\<rparr>),
     c_try_from = (\<lambda>m.
       res_bind (vote_type_try_from (pv_vote_type m)) (\<lambda>vote_type.
       res_bind (hash_field ext ''block_hash'' (pv_block_hash m)) (\<lambda>block_hash.
       res_bind (address_field ext ''voter'' (pv_voter m)) (\<lambda>voter.
       Inr \<lparr>vote_type = vote_type, vote_height = pv_height m, vote_block_hash = block_hash, vote_voter = voter\<rparr>)))),
     c_valid = (\<lambda>v. fx_is_felt ext (vote_block_hash v) \<and> fx_is_felt ext (vote_voter v) \<and>
       fx_is_patricia_key ext (vote_voter v))\<rparr>"

definition proposal_converter :: "felt_ext \<Rightarrow> (starknet_transaction proposal, pb_proposal) converter" where
  "proposal_converter ext = \<lparr>
     c_into = (\<lambda>v.
       res_bind (map_res (transaction_into ext) (prop_transactions v)) (\<lambda>transactions.
       Inr \<lparr>ppr_height = prop_height v, ppr_proposer = Some (fx_to_bytes_be ext (prop_proposer v)),
            ppr_transactions = transactions,
            ppr_block_hash = Some (fx_to_bytes_be ext (prop_block_hash v))\<rparr>)),
     c_try_from = (\<lambda>m.
       res_bind (map_res (transaction_try_from ext) (ppr_transactions m)) (\<lambda>transactions.
       res_bind (address_field ext ''proposer'' (ppr_proposer m)) (\<lambda>proposer.
       res_bind (hash_field ext ''block_hash'' (ppr_block_hash m)) (\<lambda>block_hash.
       Inr \<lparr>prop_height = ppr_height m, prop_proposer = proposer, prop_transactions = transactions,
            prop_block_hash = block_hash\<rparr>)))),
     c_valid = (\<lambda>v. fx_is_felt ext (prop_proposer v) \<and> fx_is_patricia_key ext (prop_proposer v) \<and>
       list_all (transaction_valid ext) (prop_transactions v) \<and> fx_is_felt ext (prop_block_hash v))\<rparr>"

definition consensus_message_converter ::
  "felt_ext \<Rightarrow> (starknet_transaction consensus_message, pb_consensus_message option) converter" where
  "consensus_message_converter ext = \<lparr>
     c_into = (\<lambda>v. case v of
         MsgProposal p \<Rightarrow> res_bind (c_into (proposal_converter ext) p) (\<lambda>m. Inr (Some (PbProposal m)))
       | MsgVote w \<Rightarrow> res_bind (c_into (vote_converter ext) w) (\<lambda>m. Inr (Some (PbVote m)))),
     c_try_from = (\<lambda>m.
       res_bind (required ''message'' m) (\<lambda>message.
       case message of
         PbProposal p \<Rightarrow> res_bind (c_try_from (proposal_converter ext) p) (\<lambda>v. Inr (MsgProposal v))
       | PbVote w \<Rightarrow> res_bind (c_try_from (vote_converter ext) w) (\<lambda>v. Inr (MsgVote v)))),
     c_valid = (\<lambda>v. case v of
         MsgProposal p \<Rightarrow> c_valid (proposal_converter ext) p
       | MsgVote w \<Rightarrow> c_valid (vote_converter ext) w)\<rparr>"

section \<open>What is sent is received\<close>

lemma vote_converter_ok [converter_intros]: "felt_ext_ok ext \<Longrightarrow> converter_ok (vote_converter ext)"
  by (rule converter_okI)
    (auto simp: vote_converter_def vote_type_try_from_def converter_simps split: vote_type.splits)

lemma proposal_converter_ok [converter_intros]:
  assumes ext: "felt_ext_ok ext"
  shows "converter_ok (proposal_converter ext)"
proof (rule converter_okI)
  fix x
  assume v: "c_valid (proposal_converter ext) x"
  then have "list_all (c_valid (transaction_converter ext)) (prop_transactions x)"
    by (simp add: proposal_converter_def transaction_converter_def)
  from converter_list [OF transaction_converter_ok [OF ext] this] obtain ms
    where "map_res (transaction_into ext) (prop_transactions x) = Inr ms"
      "map_res (transaction_try_from ext) ms = Inr (prop_transactions x)"
    by (auto simp: transaction_converter_def)
  with v show "\<exists>m. c_into (proposal_converter ext) x = Inr m \<and> c_try_from (proposal_converter ext) m = Inr x"
    by (simp add: proposal_converter_def converter_simps ext)
qed

lemma consensus_message_converter_ok [converter_intros]:
  assumes ext: "felt_ext_ok ext"
  shows "converter_ok (consensus_message_converter ext)"
  by (rule converter_okI)
    (auto simp: consensus_message_converter_def required_Some split: consensus_message.splits
      dest!: vote_converter_ok [OF ext, THEN converter_okD] proposal_converter_ok [OF ext, THEN converter_okD])

end
