(* ===== verification/Protobuf_Class.thy ===== *)
theory Protobuf_Class
  imports Protobuf_Common
begin

text \<open>
  The converters of contract classes: \<open>papyrus_protobuf/src/converters/class.rs\<close>, with the messages of
  \<open>class.proto\<close>. The entry points by type are a \<open>HashMap\<close>, here the list of its entries in the order in
  which the code inserts them. The program and the ABI of a Cairo 0 class are not sent (two TODOs of the
  code), so that only a class with the default program and no ABI survives. Sending a Cairo 1 class reads
  the first six elements of its program for the version string, and panics when there are fewer.

  \<open>class_ext\<close> is what comes from other crates: the JSON value \<open>null\<close>, of which \<open>Program::default()\<close> is made,
  and the \<open>Display\<close> of a field element.
\<close>

section \<open>Messages\<close>

record pb_entry_point =
  pep_selector :: "u8 list option"
  pep_offset :: nat

record pb_cairo0_class =
  pc0_abi :: rust_string
  pc0_externals :: "pb_entry_point list"
  pc0_l1_handlers :: "pb_entry_point list"
  pc0_constructors :: "pb_entry_point list"
  pc0_program :: rust_string

record pb_sierra_entry_point =
  pse_index :: nat
  pse_selector :: "u8 list option"

record pb_cairo1_entry_points =
  pce_externals :: "pb_sierra_entry_point list"
  pce_l1_handlers :: "pb_sierra_entry_point list"
  pce_constructors :: "pb_sierra_entry_point list"

record pb_cairo1_class =
  pc1_abi :: rust_string
  pc1_entry_points :: "pb_cairo1_entry_points option"
  pc1_program :: "u8 list list"
  pc1_contract_class_version :: rust_string

datatype pb_class_kind = PbCairo0 pb_cairo0_class | PbCairo1 pb_cairo1_class

record pb_class =
  pcl_class :: "pb_class_kind option"
  pcl_domain :: nat

datatype wire_class = WireDeprecatedContractClass deprecated_contract_class | WireContractClass contract_class

record class_ext =
  cx_json_null :: json_value
  cx_display_felt :: "felt \<Rightarrow> rust_string"

section \<open>Entry points\<close>

text \<open>\<open>usize\<close> has 64 bits, so the conversions between \<open>usize\<close> and \<open>u64\<close> do not fail.\<close>

definition entry_point_converter :: "felt_ext \<Rightarrow> (deprecated_entry_point, pb_entry_point) converter" where
  "entry_point_converter ext = \<lparr>
     c_into = (\<lambda>v. Inr \<lparr>pep_selector = Some (felt_into ext (de_selector v)), pep_offset = de_offset v\<rparr>),
     c_try_from = (\<lambda>m.
       res_bind (felt_field ext ''EntryPoint::selector'' (pep_selector m)) (\<lambda>selector.
       Inr \<lparr>de_selector = selector, de_offset = pep_offset m\<rparr>)),
     c_valid = (\<lambda>v. fx_is_felt ext (de_selector v))\<rparr>"

definition sierra_entry_point_converter :: "felt_ext \<Rightarrow> (entry_point, pb_sierra_entry_point) converter" where
  "sierra_entry_point_converter ext = \<lparr>
     c_into = (\<lambda>v. Inr \<lparr>pse_index = ep_function_idx v, pse_selector = Some (felt_into ext (ep_selector v))\<rparr>),
     c_try_from = (\<lambda>m.
       res_bind (felt_field ext ''SierraEntryPoint::selector'' (pse_selector m)) (\<lambda>selector.
       Inr \<lparr>ep_function_idx = pse_index m, ep_selector = selector\<rparr>)),
     c_valid = (\<lambda>v. fx_is_felt ext (ep_selector v))\<rparr>"

text \<open>The entry points of one type: none when the map has no entry, and no entry when there are none.\<close>

definition entry_points_get ::
  "('e, 'm) converter \<Rightarrow> ('k \<times> 'e list) list \<Rightarrow> 'k \<Rightarrow> 'm list converted" where
  "entry_points_get c entry_points k =
     map_res (c_into c) (case map_of entry_points k of None \<Rightarrow> [] | Some es \<Rightarrow> es)"

definition entry_points_insert ::
  "('e, 'm) converter \<Rightarrow> 'k \<Rightarrow> 'm list \<Rightarrow> ('k \<times> 'e list) list \<Rightarrow> ('k \<times> 'e list) list converted" where
  "entry_points_insert c k ms entry_points =
     (if ms = [] then Inr entry_points
      else res_bind (map_res (c_try_from c) ms) (\<lambda>es. Inr (AList.update k es entry_points)))"

definition entry_points_valid :: "('e, 'm) converter \<Rightarrow> 'k list \<Rightarrow> ('k \<times> 'e list) list \<Rightarrow> bool" where
  "entry_points_valid c ks entry_points \<longleftrightarrow>
     map fst entry_points = filter (\<lambda>k. map_of entry_points k \<noteq> None) ks \<and> distinct ks \<and>
     list_all (\<lambda>(_, es). es \<noteq> [] \<and> list_all (c_valid c) es) entry_points"

section \<open>Classes\<close>

definition program_default :: "class_ext \<Rightarrow> program" where
  "program_default cx = (let null = cx_json_null cx in
     \<lparr>pg_attributes = null, pg_builtins = null, pg_compiler_version = null, pg_data = null, pg_debug_info = null,
      pg_hints = null, pg_identifiers = null, pg_main_scope = null, pg_prime = null, pg_reference_manager = null\<rparr>)"

definition cairo0_class_converter ::
  "felt_ext \<Rightarrow> class_ext \<Rightarrow> (deprecated_contract_class, pb_cairo0_class) converter" where
  "cairo0_class_converter ext cx = (let c = entry_point_converter ext in \<lparr>
     c_into = (\<lambda>v.
       res_bind (entry_points_get c (dc_entry_points_by_type v) DeptConstructor) (\<lambda>constructors.
       res_bind (entry_points_get c (dc_entry_points_by_type v) DeptExternal) (\<lambda>externals.
       res_bind (entry_points_get c (dc_entry_points_by_type v) DeptL1Handler) (\<lambda>l1_handlers.
       Inr \<lparr>pc0_abi = [], pc0_externals = externals, pc0_l1_handlers = l1_handlers,
            pc0_constructors = constructors, pc0_program = []\<rparr>)))),
     c_try_from = (\<lambda>m.
       res_bind (entry_points_insert c DeptConstructor (pc0_constructors m) []) (\<lambda>entry_points.
       res_bind (entry_points_insert c DeptExternal (pc0_externals m) entry_points) (\<lambda>entry_points.
       res_bind (entry_points_insert c DeptL1Handler (pc0_l1_handlers m) entry_points) (\<lambda>entry_points.
       Inr \<lparr>dc_abi = None, dc_program = program_default cx, dc_entry_points_by_type = entry_points\<rparr>)))),
     c_valid = (\<lambda>v. dc_abi v = None \<and> dc_program v = program_default cx \<and>
       entry_points_valid c [DeptConstructor, DeptExternal, DeptL1Handler] (dc_entry_points_by_type v))\<rparr>)"

definition contract_class_version :: "class_ext \<Rightarrow> felt list \<Rightarrow> rust_string converted" where
  "contract_class_version cx program =
     (if length program < 6 then Inl (ConversionPanic ''index out of bounds'')
      else let str = map of_char; d = (\<lambda>i. cx_display_felt cx (program ! i)) in
           Inr (str ''sierra-v'' @ d 0 @ str ''.'' @ d 1 @ str ''.'' @ d 2 @ str '' cairo-v'' @
                d 3 @ str ''.'' @ d 4 @ str ''.'' @ d 5))"

definition cairo1_class_converter ::
  "felt_ext \<Rightarrow> class_ext \<Rightarrow> (contract_class, pb_cairo1_class) converter" where
  "cairo1_class_converter ext cx = (let c = sierra_entry_point_converter ext in \<lparr>
     c_into = (\<lambda>v.
       res_bind (entry_points_get c (cc_entry_points_by_type v) EptConstructor) (\<lambda>constructors.
       res_bind (entry_points_get c (cc_entry_points_by_type v) EptExternal) (\<lambda>externals.
       res_bind (entry_points_get c (cc_entry_points_by_type v) EptL1Handler) (\<lambda>l1_handlers.
       res_bind (contract_class_version cx (cc_sierra_program v)) (\<lambda>version.
       Inr \<lparr>pc1_abi = cc_abi v,
            pc1_entry_points = Some \<lparr>pce_externals = externals, pce_l1_handlers = l1_handlers,
                                     pce_constructors = constructors\<rparr>,
            pc1_program = map (felt_into ext) (cc_sierra_program v),
            pc1_contract_class_version = version\<rparr>))))),
     c_try_from = (\<lambda>m.
       res_bind (felts_try_from ext (pc1_program m)) (\<lambda>sierra_program.
       res_bind (required ''Cairo1Class::entry_points'' (pc1_entry_points m)) (\<lambda>ms.
       res_bind (entry_points_insert c EptConstructor (pce_constructors ms) []) (\<lambda>entry_points.
       res_bind (entry_points_insert c EptExternal (pce_externals ms) entry_points) (\<lambda>entry_points.
       res_bind (entry_points_insert c EptL1Handler (pce_l1_handlers ms) entry_points) (\<lambda>entry_points.
       Inr \<lparr>cc_sierra_program = sierra_program, cc_entry_points_by_type = entry_points, cc_abi = pc1_abi m\<rparr>)))))),
     c_valid = (\<lambda>v. 6 \<le> length (cc_sierra_program v) \<and> list_all (fx_is_felt ext) (cc_sierra_program v) \<and>
       entry_points_valid c [EptConstructor, EptExternal, EptL1Handler] (cc_entry_points_by_type v))\<rparr>)"

definition class_converter :: "felt_ext \<Rightarrow> class_ext \<Rightarrow> (wire_class, pb_class) converter" where
  "class_converter ext cx = \<lparr>
     c_into = (\<lambda>v.
       res_bind (case v of
           WireDeprecatedContractClass d \<Rightarrow> res_bind (c_into (cairo0_class_converter ext cx) d) (\<lambda>m. Inr (PbCairo0 m))
         | WireContractClass d \<Rightarrow> res_bind (c_into (cairo1_class_converter ext cx) d) (\<lambda>m. Inr (PbCairo1 m))) (\<lambda>kind.
       Inr \<lparr>pcl_class = Some kind, pcl_domain = nat (volition_domain_to_enum_int DaL1)\<rparr>)),
     c_try_from = (\<lambda>m. case pcl_class m of
         Some (PbCairo0 d) \<Rightarrow>
           res_bind (c_try_from (cairo0_class_converter ext cx) d) (\<lambda>v. Inr (WireDeprecatedContractClass v))
       | Some (PbCairo1 d) \<Rightarrow> res_bind (c_try_from (cairo1_class_converter ext cx) d) (\<lambda>v. Inr (WireContractClass v))
       | None \<Rightarrow> Inl (MissingField ''Class::class'')),
     c_valid = (\<lambda>v. case v of
         WireDeprecatedContractClass d \<Rightarrow> c_valid (cairo0_class_converter ext cx) d
       | WireContractClass d \<Rightarrow> c_valid (cairo1_class_converter ext cx) d)\<rparr>"

section \<open>What is sent is received\<close>

lemma entry_point_converters_ok [converter_intros]:
  "felt_ext_ok ext \<Longrightarrow> converter_ok (entry_point_converter ext)"
  "felt_ext_ok ext \<Longrightarrow> converter_ok (sierra_entry_point_converter ext)"
  by (rule converter_okI; simp add: entry_point_converter_def sierra_entry_point_converter_def converter_simps)+

lemma map_res_Nil_iff: "map_res f xs = Inr ys \<Longrightarrow> ys = [] \<longleftrightarrow> xs = []"
  by (cases xs) (auto simp: res_bind_eq_Inr)

lemma entry_points_step:
  assumes c: "converter_ok c" and es: "list_all (c_valid c) es" and k: "k \<notin> fst ` set acc"
  shows "\<exists>ms. map_res (c_into c) es = Inr ms \<and>
    entry_points_insert c k ms acc = Inr (if es = [] then acc else acc @ [(k, es)])"
proof -
  from converter_list [OF c es] obtain ms
    where ms: "map_res (c_into c) es = Inr ms" "map_res (c_try_from c) ms = Inr es" by blast
  from map_res_Nil_iff [OF ms(1)] ms(2) have "entry_points_insert c k ms acc = Inr (if es = [] then acc else acc @ [(k, es)])"
    by (simp add: entry_points_insert_def update_new [OF k])
  with ms(1) show ?thesis by blast
qed

text \<open>The three types in turn: each adds its entry, if there is one, at the end.\<close>

lemma entry_points_roundtrip:
  assumes c: "converter_ok c" and v: "entry_points_valid c [k1, k2, k3] eps"
  shows "\<exists>m1 m2 m3 e1 e2. entry_points_get c eps k1 = Inr m1 \<and> entry_points_get c eps k2 = Inr m2 \<and>
    entry_points_get c eps k3 = Inr m3 \<and> entry_points_insert c k1 m1 [] = Inr e1 \<and>
    entry_points_insert c k2 m2 e1 = Inr e2 \<and> entry_points_insert c k3 m3 e2 = Inr eps"
proof -
  define es where "es k = (case map_of eps k of None \<Rightarrow> [] | Some es \<Rightarrow> es)" for k
  define add where "add k acc = (if es k = [] then acc else acc @ [(k, es k)])" for k acc
  from v have dk: "distinct [k1, k2, k3]" and keys: "map fst eps = filter (\<lambda>k. map_of eps k \<noteq> None) [k1, k2, k3]"
    and all: "list_all (\<lambda>(_, es). es \<noteq> [] \<and> list_all (c_valid c) es) eps"
    unfolding entry_points_valid_def by blast+
  have es: "list_all (c_valid c) (es k)" "es k = [] \<longleftrightarrow> map_of eps k = None" for k
    using all map_of_SomeD [of eps k] by (cases "map_of eps k"; fastforce simp: es_def list_all_iff)+
  have dist: "distinct (map fst eps)" using dk unfolding keys by simp
  have "map (\<lambda>k. (k, es k)) (map fst eps) = eps"
    unfolding map_map by (rule map_idI) (auto simp: es_def map_of_is_SomeI [OF dist])
  also have "map fst eps = filter (\<lambda>k. es k \<noteq> []) [k1, k2, k3]" by (simp only: keys es(2) not_None_eq)
  also have "map (\<lambda>k. (k, es k)) \<dots> = add k3 (add k2 (add k1 []))" by (simp add: add_def)
  finally have eps: "add k3 (add k2 (add k1 [])) = eps" .
  have step: "\<exists>ms. entry_points_get c eps k = Inr ms \<and> entry_points_insert c k ms acc = Inr (add k acc)"
    if "k \<notin> fst ` set acc" for k acc
    using entry_points_step [OF c es(1) [of k] that] by (simp add: entry_points_get_def es_def [symmetric] add_def)
  have new: "k1 \<notin> fst ` set []" "k2 \<notin> fst ` set (add k1 [])" "k3 \<notin> fst ` set (add k2 (add k1 []))"
    using dk by (auto simp: add_def)
  from step [OF new(1)] obtain m1 where
    m1: "entry_points_get c eps k1 = Inr m1" "entry_points_insert c k1 m1 [] = Inr (add k1 [])" by (elim exE conjE)
  from step [OF new(2)] obtain m2 where m2: "entry_points_get c eps k2 = Inr m2"
    "entry_points_insert c k2 m2 (add k1 []) = Inr (add k2 (add k1 []))" by (elim exE conjE)
  from step [OF new(3)] obtain m3 where m3: "entry_points_get c eps k3 = Inr m3"
    "entry_points_insert c k3 m3 (add k2 (add k1 [])) = Inr (add k3 (add k2 (add k1 [])))" by (elim exE conjE)
  show ?thesis by (intro exI conjI) (rule m1 m2 m3 m3(2) [unfolded eps])+
qed

lemma cairo0_class_converter_ok [converter_intros]:
  assumes "felt_ext_ok ext"
  shows "converter_ok (cairo0_class_converter ext cx)"
proof (rule converter_okI)
  fix x
  assume v: "c_valid (cairo0_class_converter ext cx) x"
  then have "entry_points_valid (entry_point_converter ext) [DeptConstructor, DeptExternal, DeptL1Handler]
    (dc_entry_points_by_type x)" by (simp add: cairo0_class_converter_def Let_def)
  from entry_points_roundtrip [OF entry_point_converters_ok(1) [OF assms] this] obtain m1 m2 m3 e1 e2 where
    eps: "entry_points_get (entry_point_converter ext) (dc_entry_points_by_type x) DeptConstructor = Inr m1"
      "entry_points_get (entry_point_converter ext) (dc_entry_points_by_type x) DeptExternal = Inr m2"
      "entry_points_get (entry_point_converter ext) (dc_entry_points_by_type x) DeptL1Handler = Inr m3"
      "entry_points_insert (entry_point_converter ext) DeptConstructor m1 [] = Inr e1"
      "entry_points_insert (entry_point_converter ext) DeptExternal m2 e1 = Inr e2"
      "entry_points_insert (entry_point_converter ext) DeptL1Handler m3 e2 = Inr (dc_entry_points_by_type x)"
    by blast
  from v have "dc_abi x = None" "dc_program x = program_default cx"
    by (simp_all add: cairo0_class_converter_def Let_def)
  with eps show "\<exists>m. c_into (cairo0_class_converter ext cx) x = Inr m \<and>
      c_try_from (cairo0_class_converter ext cx) m = Inr x"
    by (simp add: cairo0_class_converter_def Let_def)
qed

lemma cairo1_class_converter_ok [converter_intros]:
  assumes "felt_ext_ok ext"
  shows "converter_ok (cairo1_class_converter ext cx)"
proof (rule converter_okI)
  fix x
  assume v: "c_valid (cairo1_class_converter ext cx) x"
  then have "entry_points_valid (sierra_entry_point_converter ext) [EptConstructor, EptExternal, EptL1Handler]
    (cc_entry_points_by_type x)" by (simp add: cairo1_class_converter_def Let_def)
  from entry_points_roundtrip [OF entry_point_converters_ok(2) [OF assms] this] obtain m1 m2 m3 e1 e2 where
    eps: "entry_points_get (sierra_entry_point_converter ext) (cc_entry_points_by_type x) EptConstructor = Inr m1"
      "entry_points_get (sierra_entry_point_converter ext) (cc_entry_points_by_type x) EptExternal = Inr m2"
      "entry_points_get (sierra_entry_point_converter ext) (cc_entry_points_by_type x) EptL1Handler = Inr m3"
      "entry_points_insert (sierra_entry_point_converter ext) EptConstructor m1 [] = Inr e1"
      "entry_points_insert (sierra_entry_point_converter ext) EptExternal m2 e1 = Inr e2"
      "entry_points_insert (sierra_entry_point_converter ext) EptL1Handler m3 e2 = Inr (cc_entry_points_by_type x)"
    by blast
  from v have p: "list_all (fx_is_felt ext) (cc_sierra_program x)" "6 \<le> length (cc_sierra_program x)"
    by (simp_all add: cairo1_class_converter_def Let_def)
  from p(2) obtain version where "contract_class_version cx (cc_sierra_program x) = Inr version"
    by (simp add: contract_class_version_def Let_def)
  with eps p(1) show "\<exists>m. c_into (cairo1_class_converter ext cx) x = Inr m \<and>
      c_try_from (cairo1_class_converter ext cx) m = Inr x"
    by (simp add: cairo1_class_converter_def Let_def converter_simps assms)
qed

lemma class_converter_ok [converter_intros]:
  assumes "felt_ext_ok ext"
  shows "converter_ok (class_converter ext cx)"
  by (rule converter_okI)
    (auto simp: class_converter_def split: wire_class.splits
      dest!: cairo0_class_converter_ok [OF assms, THEN converter_okD]
        cairo1_class_converter_ok [OF assms, THEN converter_okD])

end
