(* ===== verification/Protobuf_Props.thy ===== *)
theory Protobuf_Props
  imports Protobuf_Consensus Protobuf_Class P2p_Sync_Props
begin

text \<open>
  What the converters promise to the protocols that use them.

  \<^item> Everything that the protocols exchange is received as it was sent (\<open>protobuf_roundtrip\<close>), and a state
    diff that is split into chunks, converted, received and united again is the diff of \<open>P2p_Sync_Props\<close>
    (\<open>diff_through_protobuf\<close>).
  \<^item> A received message is rejected by an error and not by a panic, if the byte strings in the place of field
    elements have 32 bytes and the senders of its messages to L1 are contract addresses
    (\<open>received_no_panic\<close>). The converters do not check the two conditions
    (\<open>malformed_message_panics\<close>).
\<close>

section \<open>The messages of the protocols\<close>

definition headers_request_converter :: "felt_ext \<Rightarrow> (query, pb_iteration option) converter" where
  "headers_request_converter ext = request_converter ext ''BlockHeadersRequest''"

definition state_diffs_request_converter :: "felt_ext \<Rightarrow> (query, pb_iteration option) converter" where
  "state_diffs_request_converter ext = request_converter ext ''StateDiffsRequest''"

definition transactions_request_converter :: "felt_ext \<Rightarrow> (query, pb_iteration option) converter" where
  "transactions_request_converter ext = request_converter ext ''TransactionsRequest''"

definition classes_request_converter :: "felt_ext \<Rightarrow> (query, pb_iteration option) converter" where
  "classes_request_converter ext = request_converter ext ''ClassesRequest''"

definition events_request_converter :: "felt_ext \<Rightarrow> (query, pb_iteration option) converter" where
  "events_request_converter ext = request_converter ext ''EventsRequest''"

definition headers_response_converter ::
  "felt_ext \<Rightarrow> ((block_header \<times> signature list) option, pb_signed_block_header pb_response option) converter" where
  "headers_response_converter ext =
     response_converter ''BlockHeadersResponse::header_message'' (header_converter ext)"

definition state_diffs_response_converter ::
  "felt_ext \<Rightarrow> (state_diff_chunk option, pb_state_diff_message pb_response option) converter" where
  "state_diffs_response_converter ext =
     response_converter ''StateDiffsResponse::state_diff_message'' (state_diff_chunk_converter ext)"

definition transactions_response_converter ::
  "felt_ext \<Rightarrow> ((starknet_transaction \<times> starknet_transaction_output) option,
     pb_transaction_with_receipt pb_response option) converter" where
  "transactions_response_converter ext =
     response_converter ''TransactionsResponse::transaction_message'' (transaction_with_receipt_converter ext)"

definition classes_response_converter ::
  "felt_ext \<Rightarrow> class_ext \<Rightarrow> (wire_class option, pb_class pb_response option) converter" where
  "classes_response_converter ext cx =
     response_converter ''ClassesResponse::class_message'' (class_converter ext cx)"

definition events_response_converter ::
  "felt_ext \<Rightarrow> ((tx_event \<times> tx_hash) option, pb_event pb_response option) converter" where
  "events_response_converter ext = response_converter ''EventsResponse::event_message'' (event_converter ext)"

lemmas message_converter_defs =
  headers_request_converter_def state_diffs_request_converter_def transactions_request_converter_def
  classes_request_converter_def events_request_converter_def headers_response_converter_def
  state_diffs_response_converter_def transactions_response_converter_def classes_response_converter_def
  events_response_converter_def

section \<open>A chunk as a diff of its own\<close>

definition option_list :: "'a option \<Rightarrow> 'a list" where
  "option_list x = (case x of None \<Rightarrow> [] | Some v \<Rightarrow> [v])"

lemma option_list_simps [simp]: "option_list None = []" "option_list (Some v) = [v]"
  by (simp_all add: option_list_def)

text \<open>The older conversion of a state diff message, to a diff that has only the content of the message.\<close>

definition thin_contract_diff_try_from :: "felt_ext \<Rightarrow> pb_contract_diff \<Rightarrow> thin_state_diff converted" where
  "thin_contract_diff_try_from ext m =
     res_bind (address_field ext ''ContractDiff::address'' (pcd_address m)) (\<lambda>contract_address.
     res_bind (transposed (\<lambda>hash. res_bind (hash_try_from ext hash) (\<lambda>h. Inr [(contract_address, h)]))
                 (pcd_class_hash m)) (\<lambda>deployed_contracts.
     res_bind
       (if pcd_values m = [] then Inr []
        else res_bind (map_res (c_try_from (stored_value_converter ext)) (pcd_values m)) (\<lambda>storage_values.
             Inr [(contract_address, index_map_collect storage_values)])) (\<lambda>storage_diffs.
     res_bind (transposed (\<lambda>nonce. res_bind (felt_try_from ext nonce) (\<lambda>n. Inr [(contract_address, n)]))
                 (pcd_nonce m)) (\<lambda>nonces.
     Inr \<lparr>tsd_deployed_contracts = concat (option_list deployed_contracts), tsd_storage_diffs = storage_diffs,
          tsd_declared_classes = [], tsd_deprecated_declared_classes = [],
          tsd_nonces = concat (option_list nonces), tsd_replaced_classes = []\<rparr>))))"

definition thin_declared_class_try_from :: "felt_ext \<Rightarrow> pb_declared_class \<Rightarrow> thin_state_diff converted" where
  "thin_declared_class_try_from ext m =
     res_bind (hash_field ext ''DeclaredClass::class_hash'' (pdc_class_hash m)) (\<lambda>class_hash.
     case pdc_compiled_class_hash m of
       Some compiled_class_hash \<Rightarrow>
         res_bind (hash_try_from ext compiled_class_hash) (\<lambda>h.
         Inr (empty_state_diff\<lparr>tsd_declared_classes := [(class_hash, h)]\<rparr>))
     | None \<Rightarrow> Inr (empty_state_diff\<lparr>tsd_deprecated_declared_classes := [class_hash]\<rparr>))"

definition thin_state_diff_response_try_from ::
  "felt_ext \<Rightarrow> pb_state_diff_message pb_response option \<Rightarrow> thin_state_diff option converted" where
  "thin_state_diff_response_try_from ext m =
     (case m of
        Some (PbData (PbContractDiff d)) \<Rightarrow> res_bind (thin_contract_diff_try_from ext d) (\<lambda>v. Inr (Some v))
      | Some (PbData (PbDeclaredClass d)) \<Rightarrow> res_bind (thin_declared_class_try_from ext d) (\<lambda>v. Inr (Some v))
      | Some PbFin \<Rightarrow> Inr None
      | None \<Rightarrow> Inl (MissingField ''StateDiffsResponse::state_diff_message''))"

lemma index_map_collect_Nil_iff [simp]: "index_map_collect es = [] \<longleftrightarrow> es = []"
proof (cases es rule: rev_cases)
  case (snoc ys e)
  then show ?thesis by (cases e) (simp add: index_map_collect_snoc update_nonempty)
qed (simp add: index_map_collect_def)

lemma thin_contract_diff_eq:
  "thin_contract_diff_try_from ext m = Inr d \<longleftrightarrow>
     (\<exists>c. c_try_from (contract_diff_converter ext) m = Inr c \<and> unite_state_diffs empty_state_diff (ContractDiff c) = Inr d)"
  unfolding thin_contract_diff_try_from_def contract_diff_converter_def
  by (cases "pcd_class_hash m"; cases "pcd_nonce m"; cases "pcd_values m")
    (auto simp: res_bind_eq_Inr transposed_def empty_state_diff_def insert_new_def)

lemma thin_declared_class_eq:
  "thin_declared_class_try_from ext m = Inr d \<longleftrightarrow>
     (\<exists>c. c_try_from (state_diff_chunk_converter ext) (PbDeclaredClass m) = Inr c \<and>
          unite_state_diffs empty_state_diff c = Inr d)"
  by (cases "pdc_compiled_class_hash m")
    (auto simp: thin_declared_class_try_from_def state_diff_chunk_converter_def declared_class_converter_def
      deprecated_declared_class_converter_def res_bind_eq_Inr hash_field_def required_Some empty_state_diff_def)

section \<open>Receiving without a panic\<close>

definition no_panic :: "'a converted \<Rightarrow> bool" where
  "no_panic r = (case r of Inl (ConversionPanic _) \<Rightarrow> False | _ \<Rightarrow> True)"

abbreviation felt_sized :: "u8 list list \<Rightarrow> bool" where
  "felt_sized bs \<equiv> list_all (\<lambda>b. length b = 32) bs"

text \<open>The byte strings of type \<open>Felt252\<close> in a message.\<close>

definition signed_header_felts :: "pb_signed_block_header \<Rightarrow> u8 list list" where
  "signed_header_felts m = concat (map (\<lambda>s. option_list (cs_r s) @ option_list (cs_s s)) (ph_signatures m))"

definition state_diff_felts :: "pb_state_diff_message \<Rightarrow> u8 list list" where
  "state_diff_felts m = (case m of
       PbContractDiff d \<Rightarrow> option_list (pcd_nonce d) @
         concat (map (\<lambda>s. option_list (sv_key s) @ option_list (sv_value s)) (pcd_values d))
     | PbDeclaredClass _ \<Rightarrow> [])"

definition event_felts :: "pb_event \<Rightarrow> u8 list list" where
  "event_felts m = option_list (pe_from_address m) @ pe_keys m @ pe_data m"

definition resource_bounds_felts :: "pb_resource_bounds option \<Rightarrow> u8 list list" where
  "resource_bounds_felts x = (case x of None \<Rightarrow> [] | Some m \<Rightarrow>
     concat (map (\<lambda>l. option_list (rl_max_price_per_unit l)) (option_list (prb_l1_gas m) @ option_list (prb_l2_gas m))))"

definition txn_felts :: "pb_txn \<Rightarrow> u8 list list" where
  "txn_felts txn =
     (case txn of
        PbDeployAccountV1 m \<Rightarrow> option_list (pda1_max_fee m) @
          concat (option_list (pda1_signature m)) @ option_list (pda1_nonce m) @
          option_list (pda1_address_salt m) @ pda1_calldata m
      | PbDeployAccountV3 m \<Rightarrow> resource_bounds_felts (pda3_resource_bounds m) @
          concat (option_list (pda3_signature m)) @ option_list (pda3_nonce m) @
          option_list (pda3_address_salt m) @ pda3_calldata m @ pda3_paymaster_data m
      | PbInvokeV0 m \<Rightarrow> option_list (pi0_max_fee m) @ concat (option_list (pi0_signature m)) @
          option_list (pi0_entry_point_selector m) @ pi0_calldata m
      | PbInvokeV1 m \<Rightarrow> option_list (pi1_max_fee m) @ concat (option_list (pi1_signature m)) @
          option_list (pi1_nonce m) @ pi1_calldata m
      | PbInvokeV3 m \<Rightarrow> resource_bounds_felts (pi3_resource_bounds m) @
          concat (option_list (pi3_signature m)) @ option_list (pi3_nonce m) @ pi3_calldata m @
          pi3_paymaster_data m @ pi3_account_deployment_data m
      | PbDeclareV0 m \<Rightarrow> option_list (pd0_max_fee m) @ concat (option_list (pd0_signature m))
      | PbDeclareV1 m \<Rightarrow> option_list (pd1_max_fee m) @ concat (option_list (pd1_signature m)) @
          option_list (pd1_nonce m)
      | PbDeclareV2 m \<Rightarrow> option_list (pd2_max_fee m) @ concat (option_list (pd2_signature m)) @
          option_list (pd2_nonce m)
      | PbDeclareV3 m \<Rightarrow> resource_bounds_felts (pd3_resource_bounds m) @
          concat (option_list (pd3_signature m)) @ option_list (pd3_nonce m) @
          pd3_paymaster_data m @ pd3_account_deployment_data m
      | PbDeploy m \<Rightarrow> option_list (pdp_address_salt m) @ pdp_calldata m
      | PbL1Handler m \<Rightarrow> option_list (pl0_nonce m) @ option_list (pl0_entry_point_selector m) @
          pl0_calldata m)"

definition transaction_felts :: "pb_transaction \<Rightarrow> u8 list list" where
  "transaction_felts m = concat (map txn_felts (option_list m))"

definition common_felts :: "pb_receipt_common option \<Rightarrow> u8 list list" where
  "common_felts x = (case x of None \<Rightarrow> [] | Some m \<Rightarrow> option_list (prc_actual_fee m) @
     concat (map (\<lambda>l. option_list (pm_from_address l) @ pm_payload l) (prc_messages_sent m)))"

fun receipt_common :: "pb_receipt_type \<Rightarrow> pb_receipt_common option" where
  "receipt_common (PbInvoke r) = pri_common r"
| "receipt_common (PbL1HandlerReceipt r) = prl_common r"
| "receipt_common (PbDeclare r) = prd_common r"
| "receipt_common (PbDeprecatedDeploy r) = prp_common r"
| "receipt_common (PbDeployAccount r) = pra_common r"

fun receipt_felts :: "pb_receipt_type \<Rightarrow> u8 list list" where
  "receipt_felts (PbDeprecatedDeploy r) = common_felts (prp_common r) @ option_list (prp_contract_address r)"
| "receipt_felts (PbDeployAccount r) = common_felts (pra_common r) @ option_list (pra_contract_address r)"
| "receipt_felts r = common_felts (receipt_common r)"

text \<open>The senders of the messages to L1 of a receipt are contract addresses.\<close>

definition senders_ok :: "felt_ext \<Rightarrow> pb_receipt_common option \<Rightarrow> bool" where
  "senders_ok ext x = (case x of None \<Rightarrow> True | Some m \<Rightarrow>
     list_all (\<lambda>l. list_all (\<lambda>b. fx_is_patricia_key ext (fx_from_bytes_be ext b)) (option_list (pm_from_address l)))
       (prc_messages_sent m))"

definition with_receipt_sized :: "felt_ext \<Rightarrow> pb_transaction_with_receipt \<Rightarrow> bool" where
  "with_receipt_sized ext m \<longleftrightarrow>
     felt_sized (concat (map transaction_felts (option_list (ptr_transaction m)))) \<and>
     (\<forall>r \<in> set (option_list (ptr_receipt m)). \<forall>t \<in> set (option_list r).
        felt_sized (receipt_felts t) \<and> senders_ok ext (receipt_common t))"

definition class_felts :: "pb_class \<Rightarrow> u8 list list" where
  "class_felts m = (case pcl_class m of
       None \<Rightarrow> []
     | Some (PbCairo0 c) \<Rightarrow>
         concat (map (\<lambda>e. option_list (pep_selector e)) (pc0_constructors c @ pc0_externals c @ pc0_l1_handlers c))
     | Some (PbCairo1 c) \<Rightarrow> pc1_program c @ concat (map (\<lambda>e. option_list (pse_selector e))
         (concat (map (\<lambda>p. pce_constructors p @ pce_externals p @ pce_l1_handlers p) (option_list (pc1_entry_points c))))))"

definition consensus_message_felts :: "pb_consensus_message \<Rightarrow> u8 list list" where
  "consensus_message_felts m = (case m of
       PbProposal p \<Rightarrow> concat (map transaction_felts (ppr_transactions p))
     | PbVote _ \<Rightarrow> [])"

named_theorems no_panic_intros \<open>conversions that do not panic\<close>

lemma no_panic_values [simp]:
  "no_panic (Inr v)" "no_panic (Inl (MissingField s))" "no_panic (Inl (OutOfRangeValue s))"
  "no_panic (Inl (BytesDataLengthMismatch s n b))" "no_panic (Inl (DecodeError s))"
  "\<not> no_panic (Inl (ConversionPanic s))"
  by (simp_all add: no_panic_def)

lemma no_panic_bind [no_panic_intros]:
  "no_panic a \<Longrightarrow> (\<And>v. a = Inr v \<Longrightarrow> no_panic (f v)) \<Longrightarrow> no_panic (res_bind a f)"
  by (cases a) (simp_all add: no_panic_def)

lemma no_panic_map_res [no_panic_intros]: "(\<And>x. x \<in> set xs \<Longrightarrow> no_panic (f x)) \<Longrightarrow> no_panic (map_res f xs)"
proof (induction xs)
  case (Cons x xs)
  then show ?case by (auto intro!: no_panic_bind)
qed simp

lemma no_panic_required [no_panic_intros]: "no_panic (required field x)"
  by (cases x) (simp_all add: required_def)

lemma no_panic_transposed [no_panic_intros]:
  "(\<And>m. x = Some m \<Longrightarrow> no_panic (f m)) \<Longrightarrow> no_panic (transposed f x)"
  by (cases x) (auto simp: transposed_def intro!: no_panic_bind)

lemma no_panic_felt [no_panic_intros]:
  "length b = 32 \<Longrightarrow> no_panic (felt_try_from ext b)"
  "felt_sized bs \<Longrightarrow> no_panic (felts_try_from ext bs)"
  "felt_sized (option_list x) \<Longrightarrow> no_panic (felt_field ext field x)"
  "felt_sized (option_list x) \<Longrightarrow> no_panic (u128_try_from ext field x)"
  "felt_sized (option_list x) \<Longrightarrow> no_panic (contract_address_field ext field x)"
  by (cases x; auto simp: felt_try_from_def felts_try_from_def felt_field_def u128_try_from_def required_def
      contract_address_field_def list_all_iff intro!: no_panic_bind no_panic_map_res split: option.split)+

lemma no_panic_hash [no_panic_intros]:
  "no_panic (hash_try_from ext b)" "no_panic (address_try_from ext b)"
  "no_panic (hash_field ext field x)" "no_panic (address_field ext field x)"
  by (auto simp: hash_try_from_def address_try_from_def hash_field_def address_field_def Let_def
      intro!: no_panic_bind no_panic_required)

lemma no_panic_enums [no_panic_intros]:
  "no_panic (enum_int_to_l1_data_availability_mode n)" "no_panic (enum_int_to_volition_domain n)"
  "no_panic (vote_type_try_from n)"
  by (simp_all add: enum_int_to_l1_data_availability_mode_def enum_int_to_volition_domain_def vote_type_try_from_def)

lemma felt_sized_simps [simp]: "felt_sized (concat bss) \<longleftrightarrow> (\<forall>bs \<in> set bss. felt_sized bs)"
  by (auto simp: list_all_iff)

lemma required_eq_Inr [simp]: "required field x = Inr v \<longleftrightarrow> x = Some v"
  by (cases x) (simp_all add: required_def)

lemma query_no_panic [no_panic_intros]: "no_panic (c_try_from (query_converter ext) m)"
  by (auto simp: query_converter_def intro!: no_panic_intros split: pb_iteration_start.splits)

lemma response_no_panic:
  "(\<And>x. m = Some (PbData x) \<Longrightarrow> no_panic (c_try_from c x)) \<Longrightarrow>
   no_panic (c_try_from (response_converter field c) m)"
  by (auto simp: response_converter_def intro!: no_panic_intros split: option.splits pb_response.splits)

lemma header_no_panic: "felt_sized (signed_header_felts m) \<Longrightarrow> no_panic (header_try_from ext m)"
  by (auto simp: header_try_from_def signature_converter_def signed_header_felts_def intro!: no_panic_intros)

lemma state_diff_chunk_no_panic:
  "felt_sized (state_diff_felts m) \<Longrightarrow> no_panic (c_try_from (state_diff_chunk_converter ext) m)"
  by (auto simp: state_diff_chunk_converter_def contract_diff_converter_def stored_value_converter_def
      declared_class_converter_def deprecated_declared_class_converter_def state_diff_felts_def
      intro!: no_panic_intros split: pb_state_diff_message.splits option.splits)

lemma event_no_panic: "felt_sized (event_felts m) \<Longrightarrow> no_panic (c_try_from (event_converter ext) m)"
  by (auto simp: event_converter_def event_felts_def intro!: no_panic_intros)

lemma resource_bounds_no_panic [no_panic_intros]:
  "felt_sized (resource_bounds_felts (Some m)) \<Longrightarrow> no_panic (resource_bounds_try_from ext m)"
  by (auto simp: resource_bounds_try_from_def resource_bounds_felts_def intro!: no_panic_intros)

lemma transaction_no_panic [no_panic_intros]:
  assumes "felt_sized (transaction_felts m)"
  shows "no_panic (transaction_try_from ext m)"
proof (cases m)
  case None
  then show ?thesis by (simp add: transaction_try_from_def required_def)
next
  case (Some txn)
  with assms show ?thesis
    by (cases txn)
      (auto simp: transaction_try_from_def transaction_felts_def txn_felts_def required_Some
        deploy_account_v1_converter_def deploy_account_v3_converter_def invoke_v0_converter_def
        invoke_v1_converter_def invoke_v3_converter_def declare_v0_converter_def declare_v1_converter_def
        declare_v2_converter_def declare_v3_converter_def deploy_converter_def l1_handler_v0_converter_def
        intro!: no_panic_intros)
qed

lemma message_to_l1_no_panic:
  assumes "felt_sized (option_list (pm_from_address m) @ pm_payload m)"
    and "list_all (\<lambda>b. fx_is_patricia_key ext (fx_from_bytes_be ext b)) (option_list (pm_from_address m))"
  shows "no_panic (c_try_from (message_to_l1_converter ext) m)"
proof (cases "pm_from_address m")
  case None
  then show ?thesis by (simp add: message_to_l1_converter_def felt_field_def required_def)
next
  case (Some b)
  with assms show ?thesis
    by (auto simp: message_to_l1_converter_def felt_field_def felt_try_from_def required_Some eth_address_try_from_def
        intro!: no_panic_intros)
qed

lemma common_no_panic [no_panic_intros]:
  "felt_sized (common_felts m) \<Longrightarrow> senders_ok ext m \<Longrightarrow> no_panic (parse_common_receipt_fields ext m)"
  by (cases m)
    (auto simp: parse_common_receipt_fields_def common_felts_def senders_ok_def execution_resources_try_from_def Let_def
      required_Some list_all_iff [of _ "prc_messages_sent _"]
      intro!: no_panic_intros message_to_l1_no_panic)

lemma receipt_no_panic:
  assumes "\<And>t. m = Some t \<Longrightarrow> felt_sized (receipt_felts t) \<and> senders_ok ext (receipt_common t)"
  shows "no_panic (receipt_try_from ext m)"
proof (cases m)
  case None
  then show ?thesis by (simp add: receipt_try_from_def required_def)
next
  case (Some t)
  with assms [OF Some] show ?thesis
    by (cases t)
      (auto simp: receipt_try_from_def required_def invoke_output_converter_def l1_handler_output_converter_def
        declare_output_converter_def deploy_output_converter_def deploy_account_output_converter_def
        intro!: no_panic_intros)
qed

lemma with_receipt_no_panic:
  "with_receipt_sized ext m \<Longrightarrow> no_panic (c_try_from (transaction_with_receipt_converter ext) m)"
  by (auto simp: transaction_with_receipt_converter_def with_receipt_sized_def
      intro!: no_panic_intros receipt_no_panic)

lemma entry_points_no_panic [no_panic_intros]:
  "(\<And>m. m \<in> set ms \<Longrightarrow> no_panic (c_try_from c m)) \<Longrightarrow> no_panic (entry_points_insert c k ms eps)"
  by (auto simp: entry_points_insert_def intro!: no_panic_intros)

lemma class_no_panic: "felt_sized (class_felts m) \<Longrightarrow> no_panic (c_try_from (class_converter ext cx) m)"
  by (auto simp: class_converter_def class_felts_def cairo0_class_converter_def cairo1_class_converter_def
      entry_point_converter_def sierra_entry_point_converter_def Let_def
      intro!: no_panic_intros split: option.splits pb_class_kind.splits)

lemma consensus_message_no_panic:
  assumes "\<And>x. m = Some x \<Longrightarrow> felt_sized (consensus_message_felts x)"
  shows "no_panic (c_try_from (consensus_message_converter ext) m)"
proof (cases m)
  case None
  then show ?thesis by (simp add: consensus_message_converter_def required_def)
next
  case (Some x)
  with assms [OF Some] show ?thesis
    by (cases x)
      (auto simp: consensus_message_converter_def required_def proposal_converter_def vote_converter_def
        consensus_message_felts_def intro!: no_panic_intros)
qed

section \<open>What the protocols rely on\<close>

text \<open>Field elements as the crate has them: 32 bytes, modulo its prime, and keys of 251 bits.\<close>

definition demo_felt_ext :: felt_ext where
  "demo_felt_ext =
     \<lparr>fx_to_bytes_be = low_bytes 32, fx_from_bytes_be = (\<lambda>b. from_be_bytes b mod (2 ^ 251 + 17 * 2 ^ 192 + 1)),
      fx_is_felt = (\<lambda>n. n < 2 ^ 251 + 17 * 2 ^ 192 + 1), fx_is_patricia_key = (\<lambda>n. n < 2 ^ 251)\<rparr>"

lemma demo_felt_ext_ok [simp]: "felt_ext_ok demo_felt_ext"
proof -
  have "from_be_bytes (low_bytes 32 n) = n" if "n < 2 ^ 251 + 17 * 2 ^ 192 + 1" for n
    using that by (simp add: from_be_bytes_low_bytes del: low_bytes.simps)
  then show ?thesis unfolding felt_ext_ok_def demo_felt_ext_def by (simp del: low_bytes.simps)
qed

definition demo_class_ext :: class_ext where
  "demo_class_ext = \<lparr>cx_json_null = 0, cx_display_felt = low_bytes 1\<rparr>"

definition demo_resources :: execution_resources where
  "demo_resources =
     \<lparr>er_steps = 100, er_builtin_instance_counter = [(RangeCheck, 3), (Pedersen, 1), (Poseidon, 0), (EcOp, 0),
        (Ecdsa, 0), (Bitwise, 2), (Keccak, 0), (SegmentArena, 0)],
      er_memory_holes = 7, er_da_gas_consumed = \<lparr>gv_l1_gas = 0, gv_l1_data_gas = 128\<rparr>,
      er_gas_consumed = \<lparr>gv_l1_gas = 5, gv_l1_data_gas = 128\<rparr>\<rparr>"

definition demo_wire_transaction :: starknet_transaction where
  "demo_wire_transaction = TxInvoke (InvokeV3
     \<lparr>i3_resource_bounds = [(L1Gas, \<lparr>rb_max_amount = 10, rb_max_price_per_unit = 2 ^ 100\<rparr>),
        (L2Gas, \<lparr>rb_max_amount = 0, rb_max_price_per_unit = 0\<rparr>)],
      i3_tip = 1, i3_signature = [11, 12], i3_nonce = 4, i3_sender_address = 99, i3_calldata = [1, 2, 3],
      i3_nonce_data_availability_mode = DaL1, i3_fee_data_availability_mode = DaL2, i3_paymaster_data = [],
      i3_account_deployment_data = [8]\<rparr>)"

definition demo_wire_output :: starknet_transaction_output where
  "demo_wire_output = OutInvoke
     \<lparr>io_actual_fee = 2 ^ 70,
      io_messages_sent = [\<lparr>ml_to_address = replicate 20 7, ml_payload = [5], ml_from_address = 99\<rparr>],
      io_events = [], io_execution_status = Reverted \<lparr>re_revert_reason = [110, 111]\<rparr>,
      io_execution_resources = demo_resources\<rparr>"



text \<open>
  \<^bold>\<open>C22.\<close> A malformed message is an error of the receiver and not a panic, under two conditions: the
  byte strings in the place of field elements have 32 bytes, and the senders of messages to L1 are contract
  addresses. Requests and the messages of votes need neither.
\<close>

theorem received_no_panic:
  "no_panic (c_try_from (headers_request_converter ext) request) \<and>
   no_panic (c_try_from (state_diffs_request_converter ext) request) \<and>
   no_panic (c_try_from (transactions_request_converter ext) request) \<and>
   no_panic (c_try_from (classes_request_converter ext) request) \<and>
   no_panic (c_try_from (events_request_converter ext) request) \<and>
   no_panic (c_try_from (consensus_message_converter ext) (Some (PbVote vote))) \<and>
   ((\<forall>m. header = Some (PbData m) \<longrightarrow> felt_sized (signed_header_felts m)) \<longrightarrow>
     no_panic (c_try_from (headers_response_converter ext) header)) \<and>
   ((\<forall>m. state_diff = Some (PbData m) \<longrightarrow> felt_sized (state_diff_felts m)) \<longrightarrow>
     no_panic (c_try_from (state_diffs_response_converter ext) state_diff)) \<and>
   ((\<forall>m. transaction = Some (PbData m) \<longrightarrow> with_receipt_sized ext m) \<longrightarrow>
     no_panic (c_try_from (transactions_response_converter ext) transaction)) \<and>
   ((\<forall>m. cairo_class = Some (PbData m) \<longrightarrow> felt_sized (class_felts m)) \<longrightarrow>
     no_panic (c_try_from (classes_response_converter ext cx) cairo_class)) \<and>
   ((\<forall>m. event = Some (PbData m) \<longrightarrow> felt_sized (event_felts m)) \<longrightarrow>
     no_panic (c_try_from (events_response_converter ext) event)) \<and>
   ((\<forall>m. message = Some m \<longrightarrow> felt_sized (consensus_message_felts m)) \<longrightarrow>
     no_panic (c_try_from (consensus_message_converter ext) message))"
proof -
  have "no_panic (c_try_from (request_converter ext name) request)" for name
    by (auto simp: request_converter_def intro!: no_panic_intros)
  moreover have "no_panic (c_try_from (consensus_message_converter ext) (Some (PbVote vote)))"
    by (rule consensus_message_no_panic) (simp add: consensus_message_felts_def)
  ultimately show ?thesis
    unfolding message_converter_defs
    by (auto simp: header_converter_def
        intro!: response_no_panic header_no_panic state_diff_chunk_no_panic with_receipt_no_panic class_no_panic
          event_no_panic consensus_message_no_panic)
qed

text \<open>An event, with or without its transaction hash.\<close>

definition demo_event_message :: "u8 list option \<Rightarrow> pb_event" where
  "demo_event_message hash =
     \<lparr>pe_transaction_hash = hash, pe_from_address = Some (replicate 32 0), pe_keys = [], pe_data = [replicate 32 1]\<rparr>"

theorem received_no_panic_witness:
  "felt_sized (event_felts (demo_event_message None)) \<and>
   no_panic (c_try_from (events_response_converter demo_felt_ext) (Some (PbData (demo_event_message None)))) \<and>
   c_try_from (events_response_converter demo_felt_ext) (Some (PbData (demo_event_message None))) =
     Inl (MissingField ''Event::transaction_hash'')"
proof -
  have sized: "felt_sized (event_felts (demo_event_message None))"
    by (simp add: event_felts_def demo_event_message_def)
  moreover have "no_panic (c_try_from (events_response_converter demo_felt_ext) (Some (PbData (demo_event_message None))))"
    using received_no_panic [where ext = demo_felt_ext and event = "Some (PbData (demo_event_message None))"] sized
    by simp
  moreover have "c_try_from (events_response_converter demo_felt_ext) (Some (PbData (demo_event_message None))) =
      Inl (MissingField ''Event::transaction_hash'')"
    by (simp add: events_response_converter_def response_converter_def event_converter_def demo_event_message_def
        hash_field_def required_def)
  ultimately show ?thesis by blast
qed

text \<open>
  \<^bold>\<open>C36.\<close> The two conditions are not checked: a field element of another length, here as the sender of
  an event or as the nonce of the first transaction of a proposal, an L1 handler, makes the receiver panic,
  and so does the conversion of a message to L1 whose sender is a field element but not a contract address.
\<close>

theorem malformed_message_panics:
  assumes "length hash = 32" and "length bad \<noteq> 32"
    and "length sender = 32" and "\<not> fx_is_patricia_key ext (fx_from_bytes_be ext sender)"
  shows "\<not> no_panic (c_try_from (events_response_converter ext) (Some (PbData
      \<lparr>pe_transaction_hash = Some hash, pe_from_address = Some bad, pe_keys = keys, pe_data = data\<rparr>))) \<and>
    \<not> no_panic (c_try_from (consensus_message_converter ext) (Some (PbProposal
      \<lparr>ppr_height = height, ppr_proposer = proposer, ppr_transactions = [Some (PbL1Handler
         \<lparr>pl0_nonce = Some bad, pl0_address = address, pl0_entry_point_selector = selector, pl0_calldata = calldata\<rparr>)],
       ppr_block_hash = block_hash\<rparr>))) \<and>
    \<not> no_panic (c_try_from (message_to_l1_converter ext)
      \<lparr>pm_from_address = Some sender, pm_payload = payload, pm_to_address = to_address\<rparr>)"
  using assms
  by (simp add: events_response_converter_def response_converter_def event_converter_def felt_field_def hash_field_def
      required_Some felt_try_from_def hash_try_from_def consensus_message_converter_def proposal_converter_def
      transaction_try_from_def l1_handler_v0_converter_def message_to_l1_converter_def)

theorem malformed_message_panics_witness:
  "\<not> no_panic (c_try_from (events_response_converter demo_felt_ext) (Some (PbData
      \<lparr>pe_transaction_hash = Some (replicate 32 0), pe_from_address = Some [1, 2, 3], pe_keys = [], pe_data = []\<rparr>)))"
proof -
  have "\<not> fx_is_patricia_key demo_felt_ext (fx_from_bytes_be demo_felt_ext (low_bytes 32 (2 ^ 251)))"
    by (simp add: demo_felt_ext_def from_be_bytes_low_bytes del: low_bytes.simps)
  with malformed_message_panics [of "replicate 32 0" "[1, 2, 3]" "low_bytes 32 (2 ^ 251)" demo_felt_ext "[]" "[]"
      0 None None None "[]" None "[]" None]
  show ?thesis by (simp del: low_bytes.simps)
qed

section \<open>A diff through the network\<close>

text \<open>The keys and values of a diff are what their types in \<open>starknet_api\<close> allow.\<close>

definition is_address :: "felt_ext \<Rightarrow> felt \<Rightarrow> bool" where
  "is_address ext a \<longleftrightarrow> fx_is_felt ext a \<and> fx_is_patricia_key ext a"

definition diff_felts :: "felt_ext \<Rightarrow> thin_state_diff \<Rightarrow> bool" where
  "diff_felts ext d \<longleftrightarrow>
     list_all (\<lambda>(a, c). is_address ext a \<and> fx_is_felt ext c) (tsd_deployed_contracts d @ tsd_replaced_classes d) \<and>
     list_all (\<lambda>(a, n). is_address ext a \<and> fx_is_felt ext n) (tsd_nonces d) \<and>
     list_all (\<lambda>(a, es). is_address ext a \<and> list_all (\<lambda>(k, v). is_address ext k \<and> fx_is_felt ext v) es)
       (tsd_storage_diffs d) \<and>
     list_all (\<lambda>(c, h). fx_is_felt ext c \<and> fx_is_felt ext h) (tsd_declared_classes d) \<and>
     list_all (fx_is_felt ext) (tsd_deprecated_declared_classes d)"

lemma diff_felts_lookup:
  assumes "diff_felts ext d"
  shows "a \<in> changed_contracts d \<Longrightarrow> is_address ext a"
    and "map_of (tsd_deployed_contracts d) a = Some c \<or> map_of (tsd_replaced_classes d) a = Some c \<Longrightarrow> fx_is_felt ext c"
    and "map_of (tsd_nonces d) a = Some n \<Longrightarrow> fx_is_felt ext n"
    and "map_of (tsd_storage_diffs d) a = Some es \<Longrightarrow>
         list_all (\<lambda>(k, v). is_address ext k \<and> fx_is_felt ext v) es"
  using assms unfolding diff_felts_def list_all_iff
  by (auto simp: changed_contracts_def dest!: map_of_SomeD)

lemma contract_chunk_valid:
  assumes d: "diff_felts ext d" "diff_wf d" and a: "a \<in> changed_contracts d"
  shows "c_valid (contract_diff_converter ext) (contract_diff_of d a)"
proof -
  have "distinct (map fst es)" if "map_of (tsd_storage_diffs d) a = Some es" for es
    using d(2) map_of_SomeD [OF that] by (auto simp: diff_wf_def)
  moreover have "list_all (c_valid (stored_value_converter ext)) es" if "map_of (tsd_storage_diffs d) a = Some es" for es
    using diff_felts_lookup(4) [OF d(1) that]
    by (auto simp: stored_value_converter_def is_address_def list_all_iff)
  ultimately show ?thesis
    using diff_felts_lookup(1) [OF d(1) a] diff_felts_lookup(2,3) [OF d(1), of a]
    by (auto simp: contract_diff_converter_def contract_diff_of_def is_address_def option.pred_set
        split: option.splits)
qed

lemma chunks_valid:
  assumes "diff_felts ext d" and "diff_wf d" and "set_order ord"
  shows "list_all (c_valid (state_diff_chunk_converter ext)) (split_thin_state_diff ord d)"
  using assms(1) contract_chunk_valid [OF assms(1,2)] assms(3)
  by (auto simp: split_thin_state_diff_def state_diff_chunk_converter_def list_all_iff set_order_def diff_felts_def
      declared_class_converter_def deprecated_declared_class_converter_def)

text \<open>
  \<^bold>\<open>C9.\<close> A state diff through the network: when the keys and values of the diff are of their types and no
  contract is both deployed and replaced, every chunk that the server makes of it is converted to a message
  without a failure, the client converts the messages back without a failure, and uniting what it got gives
  the diff of the peer-to-peer sync (\<open>over_wire\<close>), the declared classes unchanged.
\<close>

theorem diff_through_protobuf:
  assumes "felt_ext_ok ext" and "set_order ord" and "servable d" and "diff_felts ext d"
  shows "\<exists>ms chunks. map_res (c_into (state_diff_chunk_converter ext)) (split_thin_state_diff ord d) = Inr ms \<and>
    map_res (c_try_from (state_diff_chunk_converter ext)) ms = Inr chunks \<and>
    fold_res (\<lambda>chunk d. unite_state_diffs d chunk) chunks empty_state_diff = Inr (over_wire ord d) \<and>
    tsd_declared_classes (over_wire ord d) = tsd_declared_classes d \<and>
    tsd_deprecated_declared_classes (over_wire ord d) = tsd_deprecated_declared_classes d"
proof -
  have "diff_wf d" using assms(3) by (simp add: servable_def)
  from converter_list [OF state_diff_chunk_converter_ok [OF assms(1)] chunks_valid [OF assms(4) this assms(2)]]
    unite_split [OF assms(3,2)] over_wire_fields(4,5) [OF assms(3,2)]
  show ?thesis by blast
qed

theorem diff_through_protobuf_witness:
  "\<exists>ms chunks.
     map_res (c_into (state_diff_chunk_converter demo_felt_ext)) (split_thin_state_diff sorted_list_of_set demo_diff) =
       Inr ms \<and>
     map_res (c_try_from (state_diff_chunk_converter demo_felt_ext)) ms = Inr chunks \<and>
     fold_res (\<lambda>chunk d. unite_state_diffs d chunk) chunks empty_state_diff =
       Inr (over_wire sorted_list_of_set demo_diff) \<and>
     tsd_declared_classes (over_wire sorted_list_of_set demo_diff) = [(50, 500)]"
proof -
  have "servable demo_diff" "diff_felts demo_felt_ext demo_diff"
    by (simp_all add: servable_def diff_felts_def demo_diff_wf is_address_def demo_felt_ext_def)
      (simp_all add: demo_diff_def)
  from diff_through_protobuf [OF demo_felt_ext_ok demo_order this] show ?thesis
    by (auto simp: demo_diff_def)
qed

end
