(* ===== verification/Spec2Isabelle.thy ===== *)
theory Spec2Isabelle
  imports Consensus_Run Storage_Mmap Storage_Version Storage_Events Sync Storage_Serde_Props P2p_Sync_Props Protobuf_Props
begin

text \<open>
  A verification of the Starknet full node \<^bold>\<open>Papyrus\<close> (\<open>src/crates\<close>). The node keeps the chain in a
  storage, fills it from a central source or from its peers, serves it to peers, and takes part in consensus.
  The development models the storage, the two kinds of sync, the messages of the protocols and the consensus,
  and proves what each of them promises and what they promise together.

  \<^bold>\<open>Conventions.\<close> A \<open>Result\<close> and a panic are a sum with \<open>Inl\<close> for the failure; every \<open>assert!\<close>,
  \<open>expect\<close> and \<open>unimplemented!\<close> of the modelled code is a value of a failure type. A database transaction is the state it
  would commit. Code of other crates is a parameter with named laws (\<open>felt_ext_ok\<close>, \<open>serde_ext_ok\<close>,
  \<open>diff_len_law\<close>, \<open>state_number_laws\<close>, \<open>prost_codec_ok\<close>), and so is the unspecified iteration order of a
  \<open>HashMap\<close> or \<open>HashSet\<close> where the result depends on it (\<open>iteration_order\<close>, \<open>set_order\<close>). Every law that a property assumes is shown to
  hold for a concrete function in the witness of the property.

  \<^bold>\<open>Consensus\<close> (\<open>sequencing/papyrus_consensus\<close>).
  \<^item> \<open>Consensus_State_Machine\<close>: \<open>state_machine.rs\<close>; \<open>Consensus_State_Machine_Props\<close>: it votes at most once, decides only
    with a quorum, and decides in whatever order the messages arrive.
  \<^item> \<open>Consensus_Single_Height\<close>: \<open>single_height_consensus.rs\<close> and \<open>types.rs\<close>, on top of the state machine.
  \<^item> \<open>Consensus_Run\<close>: \<open>lib.rs\<close>. Decisions carry certificates, two nodes that decide differently expose a third of the
    validators, messages for later heights are kept; and which messages of a peer make a node panic.

  \<^bold>\<open>Storage\<close> (\<open>papyrus_storage\<close>).
  \<^item> \<open>Storage_Tables\<close> (\<open>db/table_types\<close>), \<open>Storage_Txn\<close> (\<open>lib.rs\<close>): tables, files, markers. The locale
    \<open>ordered_table\<close> is the interface of a table.
  \<^item> \<open>Storage_Header\<close>, \<open>Storage_Body\<close>, \<open>Storage_State\<close>, \<open>Storage_Class\<close>: \<open>header.rs\<close>, \<open>body/mod.rs\<close>,
    \<open>state/mod.rs\<close>, \<open>class.rs\<close>, \<open>compiled_class.rs\<close>, \<open>base_layer.rs\<close>. Each module refines a list (of headers, blocks,
    diffs): when an append succeeds, what every read returns, what a revert restores.
  \<^item> \<open>Storage_Events\<close> (\<open>body/events.rs\<close>): the iterators; the locale \<open>event_iterator\<close> is their interface.
  \<^item> \<open>Storage_Mmap\<close> (\<open>mmap_file\<close>): the byte level of the files, durability; \<open>Storage_Version\<close>: opening a storage.
  \<^item> \<open>Storage_Serde\<close>, \<open>Starknet_Types\<close>, \<open>Storage_Serde_Types\<close>, \<open>Storage_Serde_Props\<close>
    (\<open>serialization\<close>): every stored value and key is read back, the byte order of keys, the limits.
  \<^item> \<open>Storage_Frames\<close>: an operation of one module leaves the others as they are.

  \<^bold>\<open>Sync.\<close> \<open>Sync\<close> (\<open>papyrus_sync/src/lib.rs\<close>): the databases that synchronization with the central source can
  reach are consistent across the modules, blocks are stored exactly when they extend the chain, and reverts
  remove exactly the blocks that differ. \<open>P2p_Sync_Server\<close>, \<open>P2p_Sync_Client\<close> (\<open>papyrus_p2p_sync\<close>),
  \<open>P2p_Sync_Props\<close>: what a query gets, what the client keeps whatever peers answer (an inductive step
  relation with arbitrary answers), and that a client can copy the whole chain of an honest server.

  \<^bold>\<open>Messages\<close> (\<open>papyrus_protobuf/src/converters\<close>). \<open>Protobuf_Common\<close>, \<open>Protobuf_Transaction\<close>, \<open>Protobuf_Receipt\<close>,
  \<open>Protobuf_Class\<close>, \<open>Protobuf_Consensus\<close>: every conversion, in the order of its checks. \<open>Protobuf_Props\<close>: what is sent
  is received, a state diff crosses the network intact, and which messages make the receiver panic.

  \<^bold>\<open>Loops and bounds.\<close> Loops are total functions with a termination proof. The endless loops are
  relations (\<open>client_step\<close>, \<open>synced\<close>) or take the number of their rounds (\<open>run_consensus_heights\<close>, for every
  number). The nested lists of a compiled class are read with one more than the length of the input as fuel, more than
  their depth. Vote counts and quorums are 32-bit words; block numbers are natural numbers guarded by
  \<open>u64_max\<close>; the numbers of a query wrap as \<open>u64\<close>.

  \<^bold>\<open>Not modelled.\<close>
  \<^item> What is bound to a library: the database engine, compression, HTTP and JSON (\<open>starknet_client\<close>, \<open>papyrus_config\<close>,
    \<open>papyrus_base_layer\<close>, \<open>papyrus_sync/src/sources\<close>), execution by blockifier (\<open>papyrus_execution\<close>), libp2p (\<open>papyrus_network\<close>).
    The modelled parts are proved for every behaviour of these libraries that the named laws allow.
  \<^item> What could be modelled and is left out: the hash computations of \<open>papyrus_common\<close>, the bookkeeping of the
    peer manager, the handlers of \<open>papyrus_rpc\<close> above the storage readers, the pending block.
  \<^item> Start-up, monitoring, load tests, procedural macros and test utilities.
  \<^item> Timing: sleeping, buffer sizes, logging and metrics in the modelled components; failures of the database
    library itself.
\<close>

end
